(* ===== verification/Prelude.thy ===== *)
theory Prelude
  imports Main "HOL-Library.AList" "HOL-Library.Char_ord" "HOL-Library.List_Lexorder"
    "HOL-Library.Product_Lexorder"
begin

text \<open>
  Shared vocabulary of the development: Go maps, Go clocks and durations, the fact
  collections the component theories extend, and the generic list and map lemmas.

  A Go map is an association list with distinct keys.  The order of the list stands for the
  order in which a \<^verbatim>\<open>range\<close> loop happens to visit the map; Go leaves that
  order open, so an operation whose result shows it takes the visiting order \<open>ord\<close>
  as an argument, and its lemmas hold for every rearrangement \<open>ord\<close>.

  A string is its list of bytes, as in Go; \<^verbatim>\<open><\<close> on strings is the
  lexicographic order on bytes, which is the linear order of \<open>List_Lexorder\<close> over
  \<open>Char_ord\<close>.
\<close>

named_theorems gomap_simps \<comment> \<open>lookup laws of one- and two-level maps\<close>
named_theorems store_simps \<comment> \<open>what each store operation does to each lookup\<close>
named_theorems frame_simps \<comment> \<open>parts of the state an operation leaves alone\<close>
named_theorems wf_intros \<comment> \<open>operations keep their component well formed\<close>

section \<open>Time\<close>

text \<open>
  An instant is its number of nanoseconds after the zero value of \<^verbatim>\<open>time.Time\<close>,
  a duration a number of nanoseconds.  Every operation that reads the clock takes the reading
  as its argument \<open>now\<close>.
\<close>

type_synonym instant = int
type_synonym duration = int

definition time_IsZero :: "instant \<Rightarrow> bool" where
  "time_IsZero t \<longleftrightarrow> t = 0"

abbreviation time_Second :: duration where "time_Second \<equiv> 1000000000"
abbreviation time_Minute :: duration where "time_Minute \<equiv> 60000000000"
abbreviation time_Hour :: duration where "time_Hour \<equiv> 3600000000000"

section \<open>Results\<close>

text \<open>\<open>isOk r\<close>: the error value of a Go result is nil.\<close>

definition isOk :: "'e + 'a \<Rightarrow> bool" where
  "isOk r = (case r of Inl _ \<Rightarrow> False | Inr _ \<Rightarrow> True)"

lemma isOk_simps [simp]: "isOk (Inr a)" "\<not> isOk (Inl e)"
  by (simp_all add: isOk_def)

lemma isOk_iff: "isOk r \<longleftrightarrow> (\<exists>a. r = Inr a)"
  by (cases r) auto

section \<open>Go maps\<close>

type_synonym ('k, 'v) gomap = "('k \<times> 'v) list"

abbreviation mget :: "('k, 'v) gomap \<Rightarrow> 'k \<Rightarrow> 'v option" where
  "mget \<equiv> map_of"

abbreviation mput :: "'k \<Rightarrow> 'v \<Rightarrow> ('k, 'v) gomap \<Rightarrow> ('k, 'v) gomap" where
  "mput \<equiv> AList.update"

abbreviation mdel :: "'k \<Rightarrow> ('k, 'v) gomap \<Rightarrow> ('k, 'v) gomap" where
  "mdel \<equiv> AList.delete"

definition mwf :: "('k, 'v) gomap \<Rightarrow> bool" where
  "mwf m \<longleftrightarrow> distinct (map fst m)"

lemma mwf_Nil [simp, wf_intros]: "mwf []"
  by (simp add: mwf_def)

lemma mwf_put [wf_intros]: "mwf m \<Longrightarrow> mwf (mput k v m)"
  by (simp add: mwf_def distinct_update)

lemma mwf_del [wf_intros]: "mwf m \<Longrightarrow> mwf (mdel k m)"
  by (simp add: mwf_def distinct_delete)

lemma mwf_filter [wf_intros]: "mwf m \<Longrightarrow> mwf (filter P m)"
  unfolding mwf_def by (rule distinct_map_filter)

lemmas mget_mput [gomap_simps] = update_conv'
lemmas mget_mdel [gomap_simps] = delete_conv'

lemma mget_filter:
  assumes "mwf m"
  shows "mget (filter P m) k = (case mget m k of None \<Rightarrow> None
           | Some v \<Rightarrow> if P (k, v) then Some v else None)"
  using assms
proof (induction m)
  case (Cons p m)
  obtain k' v' where p: "p = (k', v')" by fastforce
  from Cons.prems p have m: "mwf m" and fresh: "k' \<notin> fst ` set m"
    by (auto simp: mwf_def)
  from fresh have "mget m k' = None" by (simp add: map_of_eq_None_iff)
  with Cons.IH [OF m] p show ?case by auto
qed (simp add: mwf_def)

text \<open>A loop over a map visits every entry once, in an order \<open>ord\<close> of its choosing.\<close>

definition visits :: "('a list \<Rightarrow> 'a list) \<Rightarrow> 'a list \<Rightarrow> bool" where
  "visits ord xs \<longleftrightarrow> distinct (ord xs) \<and> set (ord xs) = set xs"

section \<open>Two-level maps\<close>

text \<open>
  The stores keep \<^verbatim>\<open>map[goalID]map[id]value\<close>.  Reading a missing outer key
  gives the nil map, which has no entries; writing creates the inner map on demand.
\<close>

type_synonym ('g, 'k, 'v) gomap2 = "('g, ('k, 'v) gomap) gomap"

definition inner :: "('g, 'k, 'v) gomap2 \<Rightarrow> 'g \<Rightarrow> ('k, 'v) gomap" where
  "inner m g = (case mget m g of None \<Rightarrow> [] | Some i \<Rightarrow> i)"

definition get2 :: "('g, 'k, 'v) gomap2 \<Rightarrow> 'g \<Rightarrow> 'k \<Rightarrow> 'v option" where
  "get2 m g k = mget (inner m g) k"

definition put2 :: "'g \<Rightarrow> 'k \<Rightarrow> 'v \<Rightarrow> ('g, 'k, 'v) gomap2 \<Rightarrow> ('g, 'k, 'v) gomap2" where
  "put2 g k v m = mput g (mput k v (inner m g)) m"

definition del2 :: "'g \<Rightarrow> 'k \<Rightarrow> ('g, 'k, 'v) gomap2 \<Rightarrow> ('g, 'k, 'v) gomap2" where
  "del2 g k m = (case mget m g of None \<Rightarrow> m | Some i \<Rightarrow> mput g (mdel k i) m)"

text \<open>
  The reapers: delete the entries that satisfy \<open>dead\<close>, then the inner maps left
  empty (including those that were empty before).
\<close>

definition reap2 :: "('v \<Rightarrow> bool) \<Rightarrow> ('g, 'k, 'v) gomap2 \<Rightarrow> ('g, 'k, 'v) gomap2" where
  "reap2 dead m = filter (\<lambda>(g, i). i \<noteq> [])
     (map (\<lambda>(g, i). (g, filter (\<lambda>(k, v). \<not> dead v) i)) m)"

definition mwf2 :: "('g, 'k, 'v) gomap2 \<Rightarrow> bool" where
  "mwf2 m \<longleftrightarrow> mwf m \<and> (\<forall>i \<in> snd ` set m. mwf i)"

lemma mwf2_Nil [simp, wf_intros]: "mwf2 []"
  by (simp add: mwf2_def)

lemma mwf2_inner: "mwf2 m \<Longrightarrow> mwf (inner m g)"
  by (auto simp: mwf2_def inner_def mwf_def split: option.splits dest!: map_of_SomeD)

lemma set_mput: "set (mput k v m) \<subseteq> insert (k, v) (set m)"
  by (induction m) auto

lemma mwf2_mput: "mwf2 m \<Longrightarrow> mwf i \<Longrightarrow> mwf2 (mput g i m)"
  using set_mput [of g i m] by (auto simp: mwf2_def intro: mwf_put)

lemma mwf2_put2 [wf_intros]: "mwf2 m \<Longrightarrow> mwf2 (put2 g k v m)"
  by (simp add: put2_def mwf2_mput mwf_put mwf2_inner)

lemma mwf2_del2 [wf_intros]: "mwf2 m \<Longrightarrow> mwf2 (del2 g k m)"
  using mwf2_inner [of m g]
  by (auto simp: del2_def inner_def split: option.splits intro!: mwf2_mput mwf_del)

lemma mwf_map_snd: "mwf (map (\<lambda>(g, i). (g, f i)) m) = mwf m"
  by (simp add: mwf_def case_prod_beta comp_def)

lemma mwf2_reap2 [wf_intros]: "mwf2 m \<Longrightarrow> mwf2 (reap2 dead m)"
  by (auto simp: reap2_def mwf2_def mwf_map_snd intro!: mwf_filter)

lemma inner_Nil [simp]: "inner [] g = []"
  by (simp add: inner_def)

lemma get2_Nil [simp]: "get2 [] g k = None"
  by (simp add: get2_def)

lemma inner_put2 [gomap_simps]:
  "inner (put2 g k v m) g' = (if g' = g then mput k v (inner m g) else inner m g')"
  by (simp add: put2_def inner_def gomap_simps)

lemma get2_put2 [gomap_simps]:
  "get2 (put2 g k v m) g' k' = (if g' = g \<and> k' = k then Some v else get2 m g' k')"
  by (auto simp: get2_def gomap_simps)

lemma get2_del2 [gomap_simps]:
  "get2 (del2 g k m) g' k' = (if g' = g \<and> k' = k then None else get2 m g' k')"
  by (auto simp: get2_def del2_def inner_def gomap_simps split: option.splits)

lemma mget_map_snd: "mget (map (\<lambda>(g, i). (g, f i)) m) k = map_option f (mget m k)"
  by (induction m) auto

lemma inner_reap2:
  assumes "mwf2 m"
  shows "inner (reap2 dead m) g = filter (\<lambda>(k, v). \<not> dead v) (inner m g)"
proof -
  have "mwf (map (\<lambda>(g, i). (g, filter (\<lambda>(k, v). \<not> dead v) i)) m)"
    using assms by (simp add: mwf_map_snd mwf2_def)
  then show ?thesis
    by (simp add: reap2_def inner_def mget_filter mget_map_snd split: option.splits)
qed

lemma get2_reap2 [gomap_simps]:
  assumes "mwf2 m"
  shows "get2 (reap2 dead m) g k = (case get2 m g k of None \<Rightarrow> None
           | Some v \<Rightarrow> if dead v then None else Some v)"
  using assms by (auto simp: get2_def inner_reap2 mget_filter mwf2_inner split: option.splits)

section \<open>Lists\<close>

text \<open>Appending a record to the list kept under a key, as Go's \<^verbatim>\<open>m[k] = append(m[k], v)\<close>.\<close>

definition mlist :: "('k, 'v list) gomap \<Rightarrow> 'k \<Rightarrow> 'v list" where
  "mlist m k = (case mget m k of None \<Rightarrow> [] | Some xs \<Rightarrow> xs)"

definition mpush :: "'k \<Rightarrow> 'v \<Rightarrow> ('k, 'v list) gomap \<Rightarrow> ('k, 'v list) gomap" where
  "mpush k v m = mput k (mlist m k @ [v]) m"

lemma mlist_Nil [simp]: "mlist [] k = []"
  by (simp add: mlist_def)

lemma mlist_mput [gomap_simps]: "mlist (mput k xs m) k' = (if k' = k then xs else mlist m k')"
  by (simp add: mlist_def gomap_simps)

lemma mlist_mpush [gomap_simps]:
  "mlist (mpush k v m) k' = (if k' = k then mlist m k @ [v] else mlist m k')"
  by (simp add: mpush_def gomap_simps)

text \<open>Go slices: \<^verbatim>\<open>xs[lo:hi]\<close> with bounds already checked.\<close>

definition slice :: "nat \<Rightarrow> nat \<Rightarrow> 'a list \<Rightarrow> 'a list" where
  "slice lo hi xs = take (hi - lo) (drop lo xs)"

lemma slice_append_slice:
  "lo \<le> mid \<Longrightarrow> mid \<le> hi \<Longrightarrow> slice lo mid xs @ slice mid hi xs = slice lo hi xs"
proof -
  assume le: "lo \<le> mid" "mid \<le> hi"
  then have "hi - lo = (mid - lo) + (hi - mid)" by simp
  then have "take (hi - lo) (drop lo xs)
      = take (mid - lo) (drop lo xs) @ take (hi - mid) (drop (mid - lo) (drop lo xs))"
    by (simp only: take_add)
  with le show ?thesis by (simp add: slice_def)
qed

lemma slice_all [simp]: "slice 0 (length xs) xs = xs"
  by (simp add: slice_def)

text \<open>A stable sort on a list whose keys are distinct does not depend on the list's order.\<close>

lemma sort_key_perm_unique:
  assumes inj: "inj_on f (set xs)" and "distinct xs" "distinct ys" and eq: "set ys = set xs"
  shows "sort_key f ys = sort_key f xs"
proof (rule map_sorted_distinct_set_unique [where f = f])
  show "inj_on f (set (sort_key f ys) \<union> set (sort_key f xs))"
    using inj eq by simp
  show "sorted (map f (sort_key f ys))" "sorted (map f (sort_key f xs))"
    by (rule sorted_sort_key)+
  have "inj_on f (set ys)" using inj eq by simp
  then show "distinct (map f (sort_key f ys))" "distinct (map f (sort_key f xs))"
    using assms by (simp_all add: distinct_map)
  show "set (sort_key f ys) = set (sort_key f xs)" using eq by simp
qed

lemma sort_key_hd_least:
  assumes "sort_key f xs = y # ys" and "x \<in> set xs"
  shows "f y \<le> f x"
proof -
  from assms(1) have "sorted (map f (y # ys))" by (metis sorted_sort_key)
  moreover from assms have "x \<in> set (y # ys)" by (metis set_sort)
  ultimately show ?thesis by auto
qed

section \<open>Runs of a deterministic machine\<close>

text \<open>
  Operations of a component, run one after another.  An invariant that every operation keeps
  holds after any run; the component theories instantiate this for their own operations.
\<close>

definition run_ops :: "('s \<Rightarrow> 'op \<Rightarrow> 's) \<Rightarrow> 's \<Rightarrow> 'op list \<Rightarrow> 's" where
  "run_ops step s ops = foldl step s ops"

lemma run_ops_simps [simp]:
  "run_ops step s [] = s"
  "run_ops step s (a # ops) = run_ops step (step s a) ops"
  by (simp_all add: run_ops_def)

lemma run_ops_append: "run_ops step s (xs @ ys) = run_ops step (run_ops step s xs) ys"
  by (simp add: run_ops_def)

lemma run_ops_invariant:
  assumes "I s" and "\<And>s a. I s \<Longrightarrow> I (step s a)"
  shows "I (run_ops step s ops)"
  using assms(1) by (induction ops arbitrary: s) (auto intro: assms(2))

end
