(* ===== verification/Go_Float.thy ===== *)
theory Go_Float
  imports Prelude "HOL-Library.Log_Nat"
begin

text \<open>
  Go's \<^verbatim>\<open>float64\<close>: finite values as exact rationals, the two infinities and
  NaN, with every operation correctly rounded (round to nearest, ties to even, 53 significant
  bits, exponents down to \<open>-1074\<close>) and overflow to an infinity.  The sign of a zero is
  not kept: no modelled computation observes it.
\<close>

datatype f64 = Fin rat | PInf | NInf | NaN

definition pow2 :: "int \<Rightarrow> rat" where
  "pow2 e = (if 0 \<le> e then 2 ^ nat e else 1 / 2 ^ nat (- e))"

definition roundHalfEven :: "rat \<Rightarrow> int" where
  "roundHalfEven q = (let f = \<lfloor>q\<rfloor>; r = q - of_int f in
     if r < 1 / 2 then f else if 1 / 2 < r then f + 1 else if even f then f else f + 1)"

text \<open>The exponent of the leading bit: \<open>pow2 (leadExp q) \<le> \<bar>q\<bar> < pow2 (leadExp q + 1)\<close>.\<close>

definition leadExp :: "rat \<Rightarrow> int" where
  "leadExp q = (let (n, d) = quotient_of \<bar>q\<bar>;
       a = int (floorlog 2 (nat n)) - int (floorlog 2 (nat d))
     in if pow2 a \<le> \<bar>q\<bar> then a else a - 1)"

definition f64_round :: "rat \<Rightarrow> f64" where
  "f64_round q = (if q = 0 then Fin 0 else
     let u = max (leadExp q - 52) (- 1074);
         r = of_int (roundHalfEven (q / pow2 u)) * pow2 u
     in if 2 ^ 1024 \<le> r then PInf else if r \<le> - (2 ^ 1024) then NInf else Fin r)"

fun f64_add :: "f64 \<Rightarrow> f64 \<Rightarrow> f64" where
  "f64_add (Fin a) (Fin b) = f64_round (a + b)"
| "f64_add NaN _ = NaN"
| "f64_add _ NaN = NaN"
| "f64_add PInf NInf = NaN"
| "f64_add NInf PInf = NaN"
| "f64_add PInf _ = PInf"
| "f64_add NInf _ = NInf"
| "f64_add (Fin _) i = i"

fun f64_neg :: "f64 \<Rightarrow> f64" where
  "f64_neg (Fin a) = Fin (- a)"
| "f64_neg PInf = NInf"
| "f64_neg NInf = PInf"
| "f64_neg NaN = NaN"

text \<open>An infinity with the sign of a nonzero finite factor; NaN for zero.\<close>

definition f64_inf :: "rat \<Rightarrow> f64" where
  "f64_inf s = (if 0 < s then PInf else if s < 0 then NInf else NaN)"

fun f64_mul :: "f64 \<Rightarrow> f64 \<Rightarrow> f64" where
  "f64_mul (Fin a) (Fin b) = f64_round (a * b)"
| "f64_mul NaN _ = NaN"
| "f64_mul _ NaN = NaN"
| "f64_mul (Fin a) PInf = f64_inf a"
| "f64_mul (Fin a) NInf = f64_neg (f64_inf a)"
| "f64_mul PInf (Fin b) = f64_inf b"
| "f64_mul NInf (Fin b) = f64_neg (f64_inf b)"
| "f64_mul PInf PInf = PInf"
| "f64_mul NInf NInf = PInf"
| "f64_mul PInf NInf = NInf"
| "f64_mul NInf PInf = NInf"

fun f64_div :: "f64 \<Rightarrow> f64 \<Rightarrow> f64" where
  "f64_div (Fin a) (Fin b) = (if b = 0 then f64_inf a else f64_round (a / b))"
| "f64_div NaN _ = NaN"
| "f64_div _ NaN = NaN"
| "f64_div (Fin _) _ = Fin 0"
| "f64_div PInf (Fin b) = (if b < 0 then NInf else PInf)"
| "f64_div NInf (Fin b) = (if b < 0 then PInf else NInf)"
| "f64_div _ _ = NaN"

text \<open>Comparisons: false as soon as an operand is NaN.\<close>

fun f64_le :: "f64 \<Rightarrow> f64 \<Rightarrow> bool" where
  "f64_le NaN _ = False"
| "f64_le _ NaN = False"
| "f64_le (Fin a) (Fin b) = (a \<le> b)"
| "f64_le NInf _ = True"
| "f64_le _ PInf = True"
| "f64_le _ _ = False"

fun f64_lt :: "f64 \<Rightarrow> f64 \<Rightarrow> bool" where
  "f64_lt NaN _ = False"
| "f64_lt _ NaN = False"
| "f64_lt (Fin a) (Fin b) = (a < b)"
| "f64_lt NInf NInf = False"
| "f64_lt NInf _ = True"
| "f64_lt PInf _ = False"
| "f64_lt _ PInf = True"
| "f64_lt _ NInf = False"

text \<open>
  \<^verbatim>\<open>int(x)\<close> and \<^verbatim>\<open>int64(x)\<close>: truncation towards zero.
  Out of range the Go specification leaves the value to the implementation; this is the one of
  amd64, the least 64-bit integer.
\<close>

definition truncRat :: "rat \<Rightarrow> int" where
  "truncRat q = (if 0 \<le> q then \<lfloor>q\<rfloor> else \<lceil>q\<rceil>)"

fun f64_to_int :: "f64 \<Rightarrow> int" where
  "f64_to_int (Fin q) =
     (if - (2 ^ 63) \<le> truncRat q \<and> truncRat q < 2 ^ 63 then truncRat q else - (2 ^ 63))"
| "f64_to_int _ = - (2 ^ 63)"

section \<open>Powers of two and the leading exponent\<close>

lemma pow2_pos [simp]: "0 < pow2 e"
  by (simp add: pow2_def)

lemma pow2_nonzero [simp]: "pow2 e \<noteq> 0"
  using pow2_pos [of e] by (metis less_irrefl)

lemma pow2_eq_power_int: "pow2 e = power_int 2 e"
  by (simp add: pow2_def power_int_def field_simps)

lemma pow2_add: "pow2 (a + b) = pow2 a * pow2 b"
  by (simp add: pow2_eq_power_int power_int_add)

lemma pow2_diff: "pow2 (a - b) = pow2 a / pow2 b"
  by (simp add: pow2_eq_power_int power_int_diff)

lemma pow2_mono: "a \<le> b \<Longrightarrow> pow2 a \<le> pow2 b"
  by (simp add: pow2_eq_power_int power_int_increasing)

lemma pow2_less_iff: "pow2 a < pow2 b \<longleftrightarrow> a < b"
  by (metis linorder_not_le pow2_mono pow2_eq_power_int one_less_numeral_iff
      power_int_strict_increasing semiring_norm(76))

lemma floorlog_rat_bounds:
  assumes "0 < n"
  shows "pow2 (int (floorlog 2 n) - 1) \<le> of_nat n" "of_nat n < pow2 (int (floorlog 2 n))"
proof -
  define k where "k = floorlog 2 n"
  have le: "2 ^ (k - 1) \<le> n" and lt: "n < 2 ^ k"
    using floorlog_bounds [of n 2] assms by (auto simp: k_def)
  have k: "0 < k" using lt assms by (cases k) auto
  have "(of_nat (2 ^ (k - 1)) :: rat) \<le> of_nat n" using le by (simp only: of_nat_le_iff)
  moreover have "pow2 (int k - 1) = of_nat (2 ^ (k - 1))"
    using k by (simp add: pow2_def nat_diff_distrib)
  ultimately show "pow2 (int (floorlog 2 n) - 1) \<le> of_nat n" by (simp add: k_def)
  have "(of_nat n :: rat) < of_nat (2 ^ k)" using lt by (simp only: of_nat_less_iff)
  then show "of_nat n < pow2 (int (floorlog 2 n))" by (simp add: pow2_def k_def)
qed

lemma leadExp_bounds:
  assumes "q \<noteq> 0"
  shows "pow2 (leadExp q) \<le> \<bar>q\<bar>" "\<bar>q\<bar> < pow2 (leadExp q + 1)"
proof -
  obtain n d where nd: "quotient_of \<bar>q\<bar> = (n, d)" by fastforce
  have d: "0 < d" using quotient_of_denom_pos [OF nd] .
  have q: "\<bar>q\<bar> = of_int n / of_int d" using quotient_of_div [OF nd] .
  have n: "0 < n" using assms q d by (metis abs_le_zero_iff divide_pos_pos linorder_not_le
      of_int_0_less_iff of_int_le_0_iff zero_less_abs_iff divide_nonpos_pos)
  define a where "a = int (floorlog 2 (nat n)) - int (floorlog 2 (nat d))"
  have N: "pow2 (int (floorlog 2 (nat n)) - 1) \<le> of_int n" "of_int n < pow2 (int (floorlog 2 (nat n)))"
    and D: "pow2 (int (floorlog 2 (nat d)) - 1) \<le> of_int d" "of_int d < pow2 (int (floorlog 2 (nat d)))"
    using floorlog_rat_bounds [of "nat n"] floorlog_rat_bounds [of "nat d"] n d by simp_all
  have lo: "pow2 (a - 1) \<le> \<bar>q\<bar>"
  proof -
    have "pow2 (a - 1) * of_int d \<le> pow2 (a - 1) * pow2 (int (floorlog 2 (nat d)))"
      using D(2) by (simp add: mult_left_mono)
    also have "\<dots> = pow2 (int (floorlog 2 (nat n)) - 1)"
      by (simp add: a_def flip: pow2_add)
    also note N(1)
    finally show ?thesis using d by (simp add: q pos_le_divide_eq)
  qed
  have hi: "\<bar>q\<bar> < pow2 (a + 1)"
  proof -
    have "pow2 (int (floorlog 2 (nat n))) = pow2 (a + 1) * pow2 (int (floorlog 2 (nat d)) - 1)"
      by (simp add: a_def flip: pow2_add)
    also have "\<dots> \<le> pow2 (a + 1) * of_int d"
      using D(1) by (simp add: mult_left_mono)
    finally show ?thesis using N(2) d by (simp add: q pos_divide_less_eq)
  qed
  have e: "leadExp q = (if pow2 a \<le> \<bar>q\<bar> then a else a - 1)"
    by (simp add: leadExp_def nd a_def Let_def)
  show "pow2 (leadExp q) \<le> \<bar>q\<bar>" "\<bar>q\<bar> < pow2 (leadExp q + 1)"
    using lo hi by (auto simp: e)
qed

section \<open>Rounding\<close>

lemma roundHalfEven_of_int [simp]: "roundHalfEven (of_int i) = i"
  by (simp add: roundHalfEven_def)

lemma roundHalfEven_nonneg: "0 \<le> q \<Longrightarrow> 0 \<le> roundHalfEven q"
  by (simp add: roundHalfEven_def Let_def)

lemma roundHalfEven_error: "\<bar>of_int (roundHalfEven q) - q\<bar> \<le> 1 / 2"
proof -
  have "of_int \<lfloor>q\<rfloor> \<le> q" "q < of_int \<lfloor>q\<rfloor> + 1" by linarith+
  then show ?thesis by (auto simp: roundHalfEven_def Let_def)
qed

lemma f64_round_0 [simp]: "f64_round 0 = Fin 0"
  by (simp add: f64_round_def)

lemma f64_round_nonneg:
  assumes "0 \<le> q"
  shows "f64_round q = PInf \<or> (\<exists>r \<ge> 0. f64_round q = Fin r)"
proof (cases "q = 0")
  case False
  define u where "u = max (leadExp q - 52) (- 1074)"
  define r where "r = of_int (roundHalfEven (q / pow2 u)) * pow2 u"
  have "0 \<le> roundHalfEven (q / pow2 u)"
    using assms by (intro roundHalfEven_nonneg) (simp add: less_imp_le)
  then have "0 \<le> r" by (simp add: r_def less_imp_le)
  moreover then have "\<not> r \<le> - (2 ^ 1024)"
    by (meson dual_order.trans neg_le_0_iff_le not_le zero_less_numeral zero_less_power
        less_le_trans neg_less_0_iff_less)
  ultimately show ?thesis
    using False by (auto simp: f64_round_def Let_def u_def [symmetric] r_def [symmetric])
qed auto

text \<open>The absolute error of a rounding is at most half of the last place.\<close>

lemma f64_round_error:
  assumes "q \<noteq> 0" "f64_round q = Fin r"
  shows "\<bar>r - q\<bar> \<le> pow2 (max (leadExp q - 52) (- 1074)) / 2"
proof -
  define u where "u = max (leadExp q - 52) (- 1074)"
  have r: "r = of_int (roundHalfEven (q / pow2 u)) * pow2 u"
    using assms by (auto simp: f64_round_def Let_def u_def split: if_splits)
  have "\<bar>r - q\<bar> = \<bar>of_int (roundHalfEven (q / pow2 u)) - q / pow2 u\<bar> * pow2 u"
    by (simp add: r abs_mult_pos less_imp_le left_diff_distrib)
  also have "\<dots> \<le> 1 / 2 * pow2 u"
    by (intro mult_right_mono roundHalfEven_error) (simp add: less_imp_le)
  finally show ?thesis by (simp add: u_def)
qed

text \<open>Integers of up to 53 bits are exact.\<close>

lemma f64_round_of_int:
  assumes "\<bar>i\<bar> < 2 ^ 53"
  shows "f64_round (of_int i) = Fin (of_int i)"
proof (cases "i = 0")
  case False
  define u where "u = max (leadExp (of_int i) - 52) (- 1074)"
  have "pow2 (leadExp (of_int i)) \<le> of_int \<bar>i\<bar>"
    using leadExp_bounds(1) [of "of_int i"] False by simp
  also have "of_int \<bar>i\<bar> < (of_int (2 ^ 53) :: rat)" using assms by (simp only: of_int_less_iff)
  also have "of_int (2 ^ 53) = pow2 53" by (simp add: pow2_def)
  finally have "leadExp (of_int i) < 53" by (simp add: pow2_less_iff)
  then have u0: "u \<le> 0" by (simp add: u_def)
  then have "of_int i / pow2 u = of_int (i * 2 ^ nat (- u))"
    by (cases "u = 0") (simp_all add: pow2_def)
  then have r: "of_int (roundHalfEven (of_int i / pow2 u)) * pow2 u = (of_int i :: rat)"
    by (metis nonzero_eq_divide_eq pow2_nonzero roundHalfEven_of_int)
  have big: "(2::rat) ^ 53 < 2 ^ 1024" by simp
  have "\<bar>of_int i :: rat\<bar> < 2 ^ 53"
    using assms by (metis of_int_abs of_int_less_iff of_int_numeral of_int_power)
  with big have "\<bar>of_int i :: rat\<bar> < 2 ^ 1024" by (rule less_trans [rotated])
  then have "\<not> 2 ^ 1024 \<le> (of_int i :: rat)" "\<not> of_int i \<le> - (2 ^ 1024 :: rat)" by linarith+
  with r False show ?thesis
    by (simp add: f64_round_def Let_def u_def [symmetric])
qed simp

lemma f64_to_int_nonneg:
  "0 \<le> q \<Longrightarrow> f64_to_int (Fin q) = - (2 ^ 63) \<or> 0 \<le> f64_to_int (Fin q)"
  by (simp add: truncRat_def)

text \<open>So are their quotients by a power of two.\<close>

lemma f64_round_dyadic:
  assumes m: "\<bar>m\<bar> < 2 ^ 53" and k: "k \<le> 1000"
  shows "f64_round (of_int m / 2 ^ k) = Fin (of_int m / 2 ^ k)"
proof (cases "m = 0")
  case False
  let ?q = "of_int m / 2 ^ k :: rat"
  have q0: "?q \<noteq> 0" using False by simp
  have M: "\<bar>of_int m :: rat\<bar> < 2 ^ 53"
    using m by (metis of_int_abs of_int_less_iff of_int_numeral of_int_power)
  define u where "u = max (leadExp ?q - 52) (- 1074)"
  have "pow2 (leadExp ?q) \<le> \<bar>of_int m\<bar> / 2 ^ k" using leadExp_bounds(1) [OF q0] by simp
  also have "\<dots> < 2 ^ 53 / 2 ^ k" using M by (simp add: divide_strict_right_mono)
  also have "\<dots> = pow2 (53 - int k)" by (simp add: pow2_diff) (simp add: pow2_def)
  finally have "leadExp ?q < 53 - int k" by (simp add: pow2_less_iff)
  then have u: "u \<le> - int k" using k by (simp add: u_def)
  have p: "pow2 u = 1 / (2 ^ (nat (- u) - k) * 2 ^ k)"
  proof (cases "u = 0")
    case False
    with u have "nat (- u) = (nat (- u) - k) + k" "\<not> 0 \<le> u" by simp_all
    then show ?thesis by (metis pow2_def power_add)
  qed (use u in \<open>simp add: pow2_def\<close>)
  have "?q / pow2 u = of_int (m * 2 ^ (nat (- u) - k))" by (simp add: p)
  then have r: "of_int (roundHalfEven (?q / pow2 u)) * pow2 u = ?q"
    by (metis nonzero_eq_divide_eq pow2_nonzero roundHalfEven_of_int)
  have "\<bar>?q\<bar> = \<bar>of_int m\<bar> / 2 ^ k" by simp
  also have "\<dots> \<le> \<bar>of_int m\<bar> / 1" by (intro divide_left_mono) simp_all
  also have "\<dots> = \<bar>of_int m\<bar>" by simp
  also have "\<bar>of_int m :: rat\<bar> < 2 ^ 1024" using M by (rule less_trans) simp
  finally have "\<not> 2 ^ 1024 \<le> ?q" "\<not> ?q \<le> - (2 ^ 1024)" by linarith+
  with r False show ?thesis
    by (simp add: f64_round_def Let_def u_def [symmetric])
qed simp

end
