(* ===== verification/CP_Types.thy ===== *)
theory CP_Types
  imports Prelude Go_Float
begin

text \<open>
  The vocabulary of package \<^verbatim>\<open>controlplane\<close> (types.go, scope.go, goal.go,
  todo.go, gate.go, evidence.go, delivery.go, ledger.go): its enumerations, its records and
  the pure predicates over them.

  An enumeration of the package is a Go string type: a value read from a request or a database
  may lie outside the declared constants.  Where the code stores such values unchecked, the
  datatype has a constructor \<open>Other\<dots>\<close> for them; enumerations that only the
  Kernel produces are closed.  A field \<open>x\<close> of a record of the source carries the
  record's initials as a prefix (\<open>g_\<close> for Goal, \<open>t_\<close> for Todo,
  \<open>ug_\<close> for UserGate, and so on).
\<close>

section \<open>Lifecycle states (types.go)\<close>

datatype GoalState = GoalActive | GoalPaused | GoalCompleted | GoalAbandoned | OtherGoalState string

definition GoalState_IsTerminal :: "GoalState \<Rightarrow> bool" where
  "GoalState_IsTerminal s \<longleftrightarrow> s = GoalCompleted \<or> s = GoalAbandoned"

datatype TodoState = TodoOpen | TodoDone | TodoBlocked | TodoDeferred | OtherTodoState string

definition TodoState_IsTerminal :: "TodoState \<Rightarrow> bool" where
  "TodoState_IsTerminal s \<longleftrightarrow> s = TodoDone \<or> s = TodoDeferred"

datatype TaskClass = TaskAdvancement | TaskMonitor | TaskUserGate | TaskUserAction | TaskBlocker
  | OtherTaskClass string

definition TaskClass_IsGating :: "TaskClass \<Rightarrow> bool" where
  "TaskClass_IsGating c \<longleftrightarrow> c = TaskUserGate \<or> c = TaskBlocker"

datatype ContinuationPolicy = ContinuationIndependent | ContinuationSameAgent
  | OtherContinuation string

datatype ComputeState = ComputeBlockedHealth | ComputeOperatorGate | ComputeFocusWait
  | ComputeEligible | ComputeWaiting | ComputePolicyBlocked | ComputeThrottled | ComputePaused

datatype Mode = ModeBoundedDelivery | ModeUserGate | ModeScopedUserGateFallback
  | ModeUserTodoBlockerPush | ModeSuccessorReplanRequired | ModeExternalEvidenceObservation
  | ModeMonitorQuietSkip | ModeAutonomousReplan | ModeOutcomeFloorRecovery
  | ModeQuotaThrottled | ModePolicyBlocked

datatype NotifyPolicy = Notify | DontNotify

datatype TurnRoute = RouteReadyForHost | RouteRepairRequired | RouteReplanRequired
  | RouteUserActionRequired | RouteWait | RouteBlocked | RouteContractError

datatype SchedulerAction = HintRunNow | HintBackoffWaitingForUser | HintBackoffUntilReassigned
  | HintBackoffUntilMaterialTransition | HintBackoffUntilFreshEvidence
  | HintStopUntilExplicitResume

section \<open>Decision scopes (scope.go)\<close>

datatype ScopeKind = ScopePrivateRead | ScopeWrite | ScopeResource | ScopeProduction
  | ScopePublicClaim | ScopeDirection | ScopeOther | OtherScopeKind string

datatype ScopeGranularity = GranularityAction | GranularityLane | GranularityGoal
  | GranularityProject | GranularityGlobal | OtherGranularity string

record DecisionScope =
  ds_Kind :: ScopeKind
  ds_Granularity :: ScopeGranularity
  ds_ScopeKey :: string

definition Covers :: "DecisionScope \<Rightarrow> DecisionScope \<Rightarrow> bool" where
  "Covers g r \<longleftrightarrow> ds_Kind g = ds_Kind r \<and> ds_ScopeKey g = ds_ScopeKey r"

datatype DecisionOutcome = DecisionApprove | DecisionReject | DecisionCancel
  | OtherDecision string

section \<open>Goals (goal.go, quota.go)\<close>

record AuthoritySrc =
  as_Kind :: string
  as_Value :: string

record Quota =
  q_Compute :: f64
  q_WindowHours :: f64
  q_SlotMinutes :: f64

record Goal =
  g_ID :: string
  g_OwnerUserID :: string
  g_CapabilityID :: string
  g_Objective :: string
  g_Scope :: "string list"
  g_RegisteredAgents :: "string list"
  g_Authority :: "AuthoritySrc list"
  g_State :: GoalState
  g_CurrentTodoID :: string
  g_Quota :: Quota
  g_CreatedAt :: instant
  g_UpdatedAt :: instant

definition goalTransitions :: "(GoalState, (GoalState, bool) gomap) gomap" where
  "goalTransitions =
    [(GoalActive, [(GoalPaused, True), (GoalCompleted, True), (GoalAbandoned, True)]),
     (GoalPaused, [(GoalActive, True), (GoalAbandoned, True)]),
     (GoalCompleted, []),
     (GoalAbandoned, [])]"

definition LegalGoalTransition :: "GoalState \<Rightarrow> GoalState \<Rightarrow> bool" where
  "LegalGoalTransition from to =
     (if to = from then True else get2 goalTransitions from to = Some True)"

section \<open>Todos and their evidence (todo.go, evidence.go)\<close>

datatype OutcomeStatus = OutcomeProgress | OutcomeCompletion | OutcomeFailed
  | OtherOutcome string

definition IsAccountable :: "OutcomeStatus \<Rightarrow> bool" where
  "IsAccountable s \<longleftrightarrow> s = OutcomeProgress \<or> s = OutcomeCompletion"

record Evidence =
  e_ID :: string
  e_Kind :: string
  e_Summary :: string
  e_SourceRef :: string
  e_ProducedAt :: instant

record Todo =
  t_ID :: string
  t_GoalID :: string
  t_OwnerUserID :: string
  t_Description :: string
  t_TaskClass :: TaskClass
  t_StageID :: string
  t_State :: TodoState
  t_ClaimedBy :: string
  t_Continuation :: ContinuationPolicy
  t_Order :: int
  t_Evidence :: "Evidence list"
  t_Supersedes :: string
  t_SupersededBy :: string
  t_CreatedAt :: instant
  t_UpdatedAt :: instant

definition todoTransitions :: "(TodoState, (TodoState, bool) gomap) gomap" where
  "todoTransitions =
    [(TodoOpen, [(TodoDone, True), (TodoBlocked, True), (TodoDeferred, True)]),
     (TodoBlocked, [(TodoOpen, True), (TodoDeferred, True)]),
     (TodoDone, []),
     (TodoDeferred, [])]"

definition LegalTodoTransition :: "TodoState \<Rightarrow> TodoState \<Rightarrow> bool" where
  "LegalTodoTransition from to =
     (if to = from then True else get2 todoTransitions from to = Some True)"

definition EvidenceIDs :: "Todo \<Rightarrow> string list" where
  "EvidenceIDs t = map e_ID (t_Evidence t)"

record Outcome =
  o_Status :: OutcomeStatus
  o_Score :: f64

record ValidatedWriteback =
  wb_TodoID :: string
  wb_GoalID :: string
  wb_TurnID :: string
  wb_AgentID :: string
  wb_Outcome :: Outcome
  wb_DecisionSource :: string
  wb_PrimaryCause :: string
  wb_ContributingFactors :: "string list"
  wb_HumanIntervention :: string
  wb_Evidence :: "Evidence list"

section \<open>Errors\<close>

datatype (plugins only: code size) cp_error =
    ErrGoalIDRequired | ErrGoalNotFound
  | ErrTodoIDRequired | ErrTodoNotFound
  | ErrGateIDRequired | ErrGateNotFound | ErrGateAlreadyResolved
  | ErrUnauthorizedResolver | ErrFallbackScopeMismatch
  | ErrLeaseOwnerRequired | ErrNewOwnerRequired | ErrLeaseHeld string
  | ErrLeaseNotFound | ErrLeaseOwnerMismatch
  | ErrNoShouldRunTicket | ErrTicketConsumed | ErrTicketTokenMismatch | ErrStaleTicket ComputeState
  | ErrDeliveryIDRequired | ErrDeliveryNotFound
  | ErrNoValidatedWriteback | ErrAlreadySpent
  | ErrAlreadyClaimed | ErrTodoNotClaimable | ErrClaimOwnerMismatch | ErrLaneGateRequired
  | ErrWritebackIDRequired | ErrEvidenceRequired
  | ErrRewardGoalRequired | ErrRewardNotFound
  | ErrCapabilityIDRequired | ErrCapabilityUserValueRequired | ErrCapabilityNotFound
  | ErrAlreadySuperseded string string | ErrCannotSupersede string TodoState
  | ErrNoRegisteredAgents

type_synonym 'a cp_result = "cp_error + 'a"

definition Validate :: "ValidatedWriteback \<Rightarrow> unit cp_result" where
  "Validate w =
     (if wb_GoalID w = '''' \<or> wb_TodoID w = '''' then Inl ErrWritebackIDRequired
      else if IsAccountable (o_Status (wb_Outcome w)) \<and> wb_Evidence w = [] then Inl ErrEvidenceRequired
      else Inr ())"

section \<open>Gates (gate.go)\<close>

record GateOutcome =
  go_Decision :: DecisionOutcome
  go_By :: string
  go_Note :: string

record FallbackPolicy =
  fp_Scope :: DecisionScope
  fp_Action :: string
  fp_Audit :: bool
  fp_SpendOnce :: bool

record UserGate =
  ug_GateID :: string
  ug_GoalID :: string
  ug_TodoID :: string
  ug_Question :: string
  ug_Scope :: DecisionScope
  ug_Fallback :: "FallbackPolicy option"
  ug_Outcome :: "GateOutcome option"
  ug_Resolvers :: "string list"
  ug_CreatedAt :: instant
  ug_ResolvedAt :: instant

definition Gate_IsResolved :: "UserGate \<Rightarrow> bool" where
  "Gate_IsResolved g \<longleftrightarrow> ug_Outcome g \<noteq> None"

definition containsString :: "string list \<Rightarrow> string \<Rightarrow> bool" where
  "containsString xs s = List.member xs s"

lemma containsString_iff [simp]: "containsString xs s \<longleftrightarrow> s \<in> set xs"
  by (simp add: containsString_def)

section \<open>The transition tables\<close>

lemma LegalGoalTransition_iff:
  "LegalGoalTransition a b \<longleftrightarrow> b = a
     \<or> a = GoalActive \<and> b \<in> {GoalPaused, GoalCompleted, GoalAbandoned}
     \<or> a = GoalPaused \<and> b \<in> {GoalActive, GoalAbandoned}"
  by (cases a; cases b)
    (simp_all add: LegalGoalTransition_def get2_def inner_def goalTransitions_def)

lemma LegalTodoTransition_iff:
  "LegalTodoTransition a b \<longleftrightarrow> b = a
     \<or> a = TodoOpen \<and> b \<in> {TodoDone, TodoBlocked, TodoDeferred}
     \<or> a = TodoBlocked \<and> b \<in> {TodoOpen, TodoDeferred}"
  by (cases a; cases b)
    (simp_all add: LegalTodoTransition_def get2_def inner_def todoTransitions_def)

lemma terminal_goal_frozen: "GoalState_IsTerminal a \<Longrightarrow> LegalGoalTransition a b \<longleftrightarrow> b = a"
  by (auto simp: GoalState_IsTerminal_def LegalGoalTransition_iff)

lemma terminal_todo_frozen: "TodoState_IsTerminal a \<Longrightarrow> LegalTodoTransition a b \<longleftrightarrow> b = a"
  by (auto simp: TodoState_IsTerminal_def LegalTodoTransition_iff)

lemma Covers_refl [simp]: "Covers s s"
  by (simp add: Covers_def)

lemma Covers_trans: "Covers a b \<Longrightarrow> Covers b c \<Longrightarrow> Covers a c"
  by (simp add: Covers_def)

end
