(* ===== verification/CP_Stores.thy ===== *)
theory CP_Stores
  imports CP_Types
begin

text \<open>
  The in-memory goal, todo and gate stores (goal.go, todo.go, gate.go).  A stored record is a
  value here; the source reaches the same isolation by copying every record on the way in and
  on the way out (clone.go).

  The locale \<open>entity_store\<close> is what the Kernel relies on in each of the three: an
  accepted write is read back, other keys keep their record, a rejected write changes nothing.
\<close>

section \<open>The store contract\<close>

locale entity_store =
  fixes get :: "'s \<Rightarrow> 'k \<Rightarrow> 'v cp_result"
    and upsert :: "instant \<Rightarrow> 'v \<Rightarrow> 's \<Rightarrow> 's \<times> unit cp_result"
    and key_of :: "'v \<Rightarrow> 'k"
    and admissible :: "'v \<Rightarrow> bool"
    and stamped :: "instant \<Rightarrow> 'v \<Rightarrow> 'v"
  assumes upsert_accepts: "admissible v \<Longrightarrow> snd (upsert now v s) = Inr ()"
    and upsert_rejects: "\<not> admissible v \<Longrightarrow> fst (upsert now v s) = s \<and> \<not> isOk (snd (upsert now v s))"
    and get_upsert: "admissible v \<Longrightarrow>
      get (fst (upsert now v s)) k = (if k = key_of v then Inr (stamped now v) else get s k)"
    and key_stamped: "key_of (stamped now v) = key_of v"
begin

lemma read_your_write:
  "snd (upsert now v s) = Inr () \<Longrightarrow> get (fst (upsert now v s)) (key_of v) = Inr (stamped now v)"
  using upsert_rejects [of v now s] get_upsert [of v now s "key_of v"] by auto

lemma others_unchanged:
  "k \<noteq> key_of v \<Longrightarrow> get (fst (upsert now v s)) k = get s k"
  using upsert_rejects [of v now s] get_upsert [of v now s k] by (cases "admissible v") auto

lemma never_forgets:
  "isOk (get s k) \<Longrightarrow> isOk (get (fst (upsert now v s)) k)"
  using upsert_rejects [of v now s] get_upsert [of v now s k] by (cases "admissible v") auto

text \<open>A sequence of writes leaves, under each key, the last admissible record written to it.\<close>

lemma last_write_wins:
  "get (foldl (\<lambda>s (now, v). fst (upsert now v s)) s ws) k =
     (case filter (\<lambda>(now, v). admissible v \<and> key_of v = k) (rev ws) of
        [] \<Rightarrow> get s k | (now, v) # _ \<Rightarrow> Inr (stamped now v))"
proof (induction ws rule: rev_induct)
  case (snoc w ws)
  obtain now v where w: "w = (now, v)" by fastforce
  show ?case
    using snoc.IH upsert_rejects [of v now] get_upsert [of v now _ k]
    by (cases "admissible v") (auto simp: w)
qed simp

end

section \<open>Goals\<close>

type_synonym MemoryGoalStore = "(string, Goal) gomap"

definition NewMemoryGoalStore :: MemoryGoalStore where
  "NewMemoryGoalStore = []"

definition GoalStore_Get :: "MemoryGoalStore \<Rightarrow> string \<Rightarrow> Goal cp_result" where
  "GoalStore_Get s gid = (case mget s gid of None \<Rightarrow> Inl ErrGoalNotFound | Some g \<Rightarrow> Inr g)"

text \<open>The write-side stamping of Upsert, which the caller's record also receives.\<close>

definition stampGoal :: "instant \<Rightarrow> Goal \<Rightarrow> Goal" where
  "stampGoal now g =
     (if time_IsZero (g_CreatedAt g) then g\<lparr>g_CreatedAt := now, g_UpdatedAt := now\<rparr>
      else g\<lparr>g_UpdatedAt := now\<rparr>)"

definition GoalStore_Upsert ::
  "instant \<Rightarrow> Goal \<Rightarrow> MemoryGoalStore \<Rightarrow> MemoryGoalStore \<times> unit cp_result" where
  "GoalStore_Upsert now g s =
     (if g_ID g = '''' then (s, Inl ErrGoalIDRequired)
      else (mput (g_ID g) (stampGoal now g) s, Inr ()))"

definition GoalStore_Delete :: "string \<Rightarrow> MemoryGoalStore \<Rightarrow> MemoryGoalStore" where
  "GoalStore_Delete gid s = mdel gid s"

definition GoalStore_List :: "(Goal list \<Rightarrow> Goal list) \<Rightarrow> MemoryGoalStore \<Rightarrow> Goal list" where
  "GoalStore_List ord s = ord (map snd s)"

lemma stampGoal_simps [simp]:
  "g_ID (stampGoal now g) = g_ID g"
  "g_State (stampGoal now g) = g_State g"
  "g_Quota (stampGoal now g) = g_Quota g"
  "g_RegisteredAgents (stampGoal now g) = g_RegisteredAgents g"
  "g_CurrentTodoID (stampGoal now g) = g_CurrentTodoID g"
  "g_CapabilityID (stampGoal now g) = g_CapabilityID g"
  by (simp_all add: stampGoal_def)

interpretation goals: entity_store GoalStore_Get GoalStore_Upsert g_ID "\<lambda>g. g_ID g \<noteq> ''''" stampGoal
  by unfold_locales (auto simp: GoalStore_Upsert_def GoalStore_Get_def gomap_simps)

section \<open>Todos\<close>

type_synonym MemoryTodoStore = "(string, string, Todo) gomap2"

definition NewMemoryTodoStore :: MemoryTodoStore where
  "NewMemoryTodoStore = []"

definition TodoStore_Get :: "MemoryTodoStore \<Rightarrow> string \<Rightarrow> string \<Rightarrow> Todo cp_result" where
  "TodoStore_Get s gid tid =
     (case mget s gid of None \<Rightarrow> Inl ErrTodoNotFound
      | Some g \<Rightarrow> (case mget g tid of None \<Rightarrow> Inl ErrTodoNotFound | Some t \<Rightarrow> Inr t))"

definition TodoStore_List :: "(Todo list \<Rightarrow> Todo list) \<Rightarrow> MemoryTodoStore \<Rightarrow> string \<Rightarrow> Todo list" where
  "TodoStore_List ord s gid = (case mget s gid of None \<Rightarrow> [] | Some g \<Rightarrow> ord (map snd g))"

definition stampTodo :: "instant \<Rightarrow> Todo \<Rightarrow> Todo" where
  "stampTodo now t =
     (if time_IsZero (t_CreatedAt t) then t\<lparr>t_CreatedAt := now, t_UpdatedAt := now\<rparr>
      else t\<lparr>t_UpdatedAt := now\<rparr>)"

definition TodoStore_Upsert ::
  "instant \<Rightarrow> Todo \<Rightarrow> MemoryTodoStore \<Rightarrow> MemoryTodoStore \<times> unit cp_result" where
  "TodoStore_Upsert now t s =
     (if t_ID t = '''' \<or> t_GoalID t = '''' then (s, Inl ErrTodoIDRequired)
      else (put2 (t_GoalID t) (t_ID t) (stampTodo now t) s, Inr ()))"

definition TodoStore_Delete :: "string \<Rightarrow> string \<Rightarrow> MemoryTodoStore \<Rightarrow> MemoryTodoStore" where
  "TodoStore_Delete gid tid s = del2 gid tid s"

lemma stampTodo_simps [simp]:
  "t_ID (stampTodo now t) = t_ID t"
  "t_GoalID (stampTodo now t) = t_GoalID t"
  "t_State (stampTodo now t) = t_State t"
  "t_ClaimedBy (stampTodo now t) = t_ClaimedBy t"
  "t_Evidence (stampTodo now t) = t_Evidence t"
  "t_Supersedes (stampTodo now t) = t_Supersedes t"
  "t_SupersededBy (stampTodo now t) = t_SupersededBy t"
  "t_StageID (stampTodo now t) = t_StageID t"
  by (simp_all add: stampTodo_def)

lemma TodoStore_Get_get2:
  "TodoStore_Get s gid tid = (case get2 s gid tid of None \<Rightarrow> Inl ErrTodoNotFound | Some t \<Rightarrow> Inr t)"
  by (simp add: TodoStore_Get_def get2_def inner_def split: option.splits)

interpretation todos: entity_store "\<lambda>s (g, i). TodoStore_Get s g i" TodoStore_Upsert
  "\<lambda>t. (t_GoalID t, t_ID t)" "\<lambda>t. t_ID t \<noteq> '''' \<and> t_GoalID t \<noteq> ''''" stampTodo
  by unfold_locales (auto simp: TodoStore_Upsert_def TodoStore_Get_get2 gomap_simps split: option.splits if_splits)

text \<open>Every stored record sits under its own keys; no Go map has a key twice.\<close>

definition todos_wf :: "MemoryTodoStore \<Rightarrow> bool" where
  "todos_wf s \<longleftrightarrow> mwf2 s \<and>
     (\<forall>g i t. get2 s g i = Some t \<longrightarrow> t_GoalID t = g \<and> t_ID t = i \<and> g \<noteq> '''' \<and> i \<noteq> '''')"

lemma todos_wf_New [simp, wf_intros]: "todos_wf NewMemoryTodoStore"
  by (simp add: todos_wf_def NewMemoryTodoStore_def)

lemma todos_wf_Upsert [wf_intros]: "todos_wf s \<Longrightarrow> todos_wf (fst (TodoStore_Upsert now t s))"
  by (auto simp: todos_wf_def TodoStore_Upsert_def gomap_simps intro: wf_intros split: if_splits)

section \<open>Gates\<close>

type_synonym MemoryGateStore = "(string, string, UserGate) gomap2"

definition NewMemoryGateStore :: MemoryGateStore where
  "NewMemoryGateStore = []"

definition stampGate :: "instant \<Rightarrow> UserGate \<Rightarrow> UserGate" where
  "stampGate now g = (if time_IsZero (ug_CreatedAt g) then g\<lparr>ug_CreatedAt := now\<rparr> else g)"

definition GateStore_Upsert ::
  "instant \<Rightarrow> UserGate \<Rightarrow> MemoryGateStore \<Rightarrow> MemoryGateStore \<times> unit cp_result" where
  "GateStore_Upsert now g s =
     (if ug_GateID g = '''' \<or> ug_GoalID g = '''' then (s, Inl ErrGateIDRequired)
      else if (case ug_Fallback g of None \<Rightarrow> False | Some f \<Rightarrow> \<not> Covers (ug_Scope g) (fp_Scope f))
        then (s, Inl ErrFallbackScopeMismatch)
      else (put2 (ug_GoalID g) (ug_GateID g) (stampGate now g) s, Inr ()))"

definition GateStore_Get :: "MemoryGateStore \<Rightarrow> string \<Rightarrow> string \<Rightarrow> UserGate cp_result" where
  "GateStore_Get s gid gateID =
     (case mget s gid of None \<Rightarrow> Inl ErrGateNotFound
      | Some gg \<Rightarrow> (case mget gg gateID of None \<Rightarrow> Inl ErrGateNotFound | Some g \<Rightarrow> Inr g))"

definition listFiltered ::
  "(UserGate list \<Rightarrow> UserGate list) \<Rightarrow> MemoryGateStore \<Rightarrow> string \<Rightarrow> bool \<Rightarrow> UserGate list" where
  "listFiltered ord s gid includeResolved =
     (case mget s gid of None \<Rightarrow> []
      | Some gg \<Rightarrow> sort_key (\<lambda>g. (ug_CreatedAt g, ug_GateID g))
          (filter (\<lambda>g. includeResolved \<or> \<not> Gate_IsResolved g) (ord (map snd gg))))"

definition GateStore_ListUnresolved ::
  "(UserGate list \<Rightarrow> UserGate list) \<Rightarrow> MemoryGateStore \<Rightarrow> string \<Rightarrow> UserGate list" where
  "GateStore_ListUnresolved ord s gid = listFiltered ord s gid False"

definition GateStore_List ::
  "(UserGate list \<Rightarrow> UserGate list) \<Rightarrow> MemoryGateStore \<Rightarrow> string \<Rightarrow> UserGate list" where
  "GateStore_List ord s gid = listFiltered ord s gid True"

lemma stampGate_simps [simp]:
  "ug_GateID (stampGate now g) = ug_GateID g"
  "ug_GoalID (stampGate now g) = ug_GoalID g"
  "ug_TodoID (stampGate now g) = ug_TodoID g"
  "ug_Scope (stampGate now g) = ug_Scope g"
  "ug_Fallback (stampGate now g) = ug_Fallback g"
  "ug_Outcome (stampGate now g) = ug_Outcome g"
  "ug_Resolvers (stampGate now g) = ug_Resolvers g"
  "Gate_IsResolved (stampGate now g) = Gate_IsResolved g"
  by (simp_all add: stampGate_def Gate_IsResolved_def)

lemma GateStore_Get_get2:
  "GateStore_Get s gid i = (case get2 s gid i of None \<Rightarrow> Inl ErrGateNotFound | Some t \<Rightarrow> Inr t)"
  by (simp add: GateStore_Get_def get2_def inner_def split: option.splits)

text \<open>What a gate must look like to be stored: a fallback never widens the gate.\<close>

definition gate_admissible :: "UserGate \<Rightarrow> bool" where
  "gate_admissible g \<longleftrightarrow> ug_GateID g \<noteq> '''' \<and> ug_GoalID g \<noteq> '''' \<and>
     (\<forall>f. ug_Fallback g = Some f \<longrightarrow> Covers (ug_Scope g) (fp_Scope f))"

interpretation gates: entity_store "\<lambda>s (g, i). GateStore_Get s g i" GateStore_Upsert
  "\<lambda>g. (ug_GoalID g, ug_GateID g)" gate_admissible stampGate
  by unfold_locales
    (auto simp: GateStore_Upsert_def GateStore_Get_get2 gomap_simps gate_admissible_def
      split: option.splits if_splits)

definition gates_wf :: "MemoryGateStore \<Rightarrow> bool" where
  "gates_wf s \<longleftrightarrow> mwf2 s \<and>
     (\<forall>g i t. get2 s g i = Some t \<longrightarrow> ug_GoalID t = g \<and> ug_GateID t = i \<and> gate_admissible t)"

lemma gates_wf_New [simp, wf_intros]: "gates_wf NewMemoryGateStore"
  by (simp add: gates_wf_def NewMemoryGateStore_def)

lemma gates_wf_Upsert [wf_intros]: "gates_wf s \<Longrightarrow> gates_wf (fst (GateStore_Upsert now t s))"
  by (auto simp: gates_wf_def GateStore_Upsert_def gomap_simps gate_admissible_def
      intro: wf_intros split: option.splits)

lemma gates_distinct:
  assumes "gates_wf s"
  shows "distinct (map ug_GateID (map snd (inner s gid)))"
    and "inj_on ug_GateID (set (map snd (inner s gid)))"
proof -
  have wf: "mwf (inner s gid)" using assms by (simp add: gates_wf_def mwf2_inner)
  have "ug_GateID t = i" if "(i, t) \<in> set (inner s gid)" for i t
  proof -
    have "get2 s gid i = Some t" using wf that by (simp add: get2_def mwf_def)
    then show ?thesis using assms by (simp add: gates_wf_def)
  qed
  then have "map ug_GateID (map snd (inner s gid)) = map fst (inner s gid)" by auto
  then show *: "distinct (map ug_GateID (map snd (inner s gid)))"
    using wf unfolding mwf_def by (simp only:)
  then show "inj_on ug_GateID (set (map snd (inner s gid)))"
    by (simp only: distinct_map)
qed

lemma listFiltered_inner:
  "listFiltered ord s gid b = (if mget s gid = None then [] else
     sort_key (\<lambda>g. (ug_CreatedAt g, ug_GateID g))
       (filter (\<lambda>g. b \<or> \<not> Gate_IsResolved g) (ord (map snd (inner s gid)))))"
  by (simp add: listFiltered_def inner_def split: option.splits)

lemma in_inner_iff: "mwf2 s \<Longrightarrow> t \<in> snd ` set (inner s g) \<longleftrightarrow> (\<exists>i. get2 s g i = Some t)"
  using mwf2_inner [of s g] by (force simp: get2_def mwf_def)

lemma set_listFiltered:
  assumes "gates_wf s" and "visits ord (map snd (inner s gid))"
  shows "set (listFiltered ord s gid b) =
    {t. (\<exists>i. get2 s gid i = Some t) \<and> (b \<or> \<not> Gate_IsResolved t)}"
proof (cases "mget s gid")
  case None
  then show ?thesis by (simp add: listFiltered_inner get2_def inner_def)
next
  case (Some gg)
  have "mwf2 s" using assms(1) by (simp add: gates_wf_def)
  from in_inner_iff [OF this, of _ gid] show ?thesis
    using Some assms(2) by (auto simp: listFiltered_inner visits_def)
qed

text \<open>The listing is the same for every visiting order of the map: keys are distinct, and ties on
  the creation time are broken by the gate id.\<close>

lemma listFiltered_order_irrelevant:
  assumes wf: "gates_wf s" and v: "visits ord (map snd (inner s gid))"
  shows "listFiltered ord s gid b = listFiltered id s gid b"
proof -
  let ?xs = "map snd (inner s gid)"
  let ?f = "\<lambda>g. b \<or> \<not> Gate_IsResolved g"
  have "distinct ?xs" using gates_distinct(1) [OF wf, of gid] by (simp only: distinct_map)
  moreover have "inj_on (\<lambda>g. (ug_CreatedAt g, ug_GateID g)) (set (filter ?f ?xs))"
    by (rule inj_onI) (use gates_distinct(2) [OF wf, of gid] in \<open>auto dest: inj_onD\<close>)
  ultimately have "sort_key (\<lambda>g. (ug_CreatedAt g, ug_GateID g)) (filter ?f (ord ?xs)) =
      sort_key (\<lambda>g. (ug_CreatedAt g, ug_GateID g)) (filter ?f ?xs)"
    using v by (intro sort_key_perm_unique) (auto simp: visits_def)
  then show ?thesis by (simp add: listFiltered_inner)
qed

end
