(* ===== verification/CP_Leases.thy ===== *)
theory CP_Leases
  imports CP_Types
begin

text \<open>
  The hard leases of lease.go: one record per todo, with an owner and an expiry, dropped lazily
  when it is next looked at.

  The locale \<open>lease_store\<close> is the contract of the interface LeaseStore, stated over a
  view of the store as owner and expiry per key: what each operation answers to the current
  holder, to others and after the expiry.  Its lemmas are exclusion (nobody but the holder
  changes a live lease), bounded tenure and takeover after the expiry.
\<close>

record Lease =
  l_GoalID :: string
  l_TodoID :: string
  l_Owner :: string
  l_AcquiredAt :: instant
  l_ExpiresAt :: instant

definition Lease_IsValid :: "Lease option \<Rightarrow> instant \<Rightarrow> bool" where
  "Lease_IsValid l now = (case l of None \<Rightarrow> False | Some l \<Rightarrow> now < l_ExpiresAt l)"

definition DefaultLeaseTTL :: duration where "DefaultLeaseTTL = 45 * time_Minute"
definition MaxLeaseTTL :: duration where "MaxLeaseTTL = 24 * time_Hour"

text \<open>The two guards on \<open>ttl\<close> at the head of Acquire and of Renew.\<close>

definition clampTTL :: "duration \<Rightarrow> duration" where
  "clampTTL ttl = (let ttl = if ttl \<le> 0 then DefaultLeaseTTL else ttl
                   in if ttl > MaxLeaseTTL then MaxLeaseTTL else ttl)"

lemma clampTTL_bounds: "0 < clampTTL ttl" "clampTTL ttl \<le> MaxLeaseTTL"
  by (simp_all add: clampTTL_def DefaultLeaseTTL_def MaxLeaseTTL_def Let_def)

section \<open>The contract\<close>

locale lease_store =
  fixes acquire :: "instant \<Rightarrow> 'k \<Rightarrow> string \<Rightarrow> duration \<Rightarrow> 's \<Rightarrow> 's \<times> Lease cp_result"
    and renew :: "instant \<Rightarrow> 'k \<Rightarrow> string \<Rightarrow> duration \<Rightarrow> 's \<Rightarrow> 's \<times> Lease cp_result"
    and transfer :: "instant \<Rightarrow> 'k \<Rightarrow> string \<Rightarrow> string \<Rightarrow> 's \<Rightarrow> 's \<times> Lease cp_result"
    and release :: "instant \<Rightarrow> 'k \<Rightarrow> string \<Rightarrow> 's \<Rightarrow> 's \<times> unit cp_result"
    and inspect :: "instant \<Rightarrow> 'k \<Rightarrow> 's \<Rightarrow> 's \<times> Lease cp_result"
    and live :: "instant \<Rightarrow> 's \<Rightarrow> 'k \<Rightarrow> (string \<times> instant) option"
  assumes live_unexpired: "live now s k = Some (ow, e) \<Longrightarrow> now < e"
    and live_later: "live now s k = Some (ow, e) \<Longrightarrow> now \<le> t \<Longrightarrow>
      live t s k = (if t < e then Some (ow, e) else None)"
    and acquire_free: "ow \<noteq> '''' \<Longrightarrow> live now s k = None \<or> (\<exists>e. live now s k = Some (ow, e)) \<Longrightarrow>
      isOk (snd (acquire now k ow ttl s)) \<and>
      live now (fst (acquire now k ow ttl s)) k = Some (ow, now + clampTTL ttl)"
    and acquire_held: "live now s k = Some (ow', e) \<Longrightarrow> ow' \<noteq> ow \<Longrightarrow>
      \<not> isOk (snd (acquire now k ow ttl s)) \<and> live now (fst (acquire now k ow ttl s)) k = Some (ow', e)"
    and renew_own: "live now s k = Some (ow, e) \<Longrightarrow>
      isOk (snd (renew now k ow ttl s)) \<and>
      live now (fst (renew now k ow ttl s)) k = Some (ow, now + clampTTL ttl)"
    and renew_other: "map_option fst (live now s k) \<noteq> Some ow \<Longrightarrow>
      \<not> isOk (snd (renew now k ow ttl s)) \<and> live now (fst (renew now k ow ttl s)) k = live now s k"
    and transfer_own: "live now s k = Some (ow, e) \<Longrightarrow> new \<noteq> '''' \<Longrightarrow>
      isOk (snd (transfer now k ow new s)) \<and>
      live now (fst (transfer now k ow new s)) k = Some (new, e)"
    and transfer_other: "map_option fst (live now s k) \<noteq> Some ow \<Longrightarrow>
      \<not> isOk (snd (transfer now k ow new s)) \<and> live now (fst (transfer now k ow new s)) k = live now s k"
    and release_own: "live now s k = Some (ow, e) \<Longrightarrow>
      snd (release now k ow s) = Inr () \<and> live now (fst (release now k ow s)) k = None"
    and release_other: "live now s k = Some (ow', e) \<Longrightarrow> ow' \<noteq> ow \<Longrightarrow>
      \<not> isOk (snd (release now k ow s)) \<and> live now (fst (release now k ow s)) k = Some (ow', e)"
    and inspect_live: "live now (fst (inspect now k s)) k = live now s k"
    and inspect_result: "isOk (snd (inspect now k s)) \<longleftrightarrow> live now s k \<noteq> None"
begin

lemma outsider_cannot_interfere:
  assumes "live now s k = Some (ow, e)" and "who \<noteq> ow"
  shows "live now (fst (acquire now k who ttl s)) k = Some (ow, e)"
    and "live now (fst (renew now k who ttl s)) k = Some (ow, e)"
    and "live now (fst (transfer now k who new s)) k = Some (ow, e)"
    and "live now (fst (release now k who s)) k = Some (ow, e)"
  using assms acquire_held [OF assms(1), of who ttl] renew_other [of now s k who ttl]
    transfer_other [of now s k who new] release_other [OF assms(1), of who]
  by auto

lemma takeover_after_expiry:
  assumes "live now s k = Some (ow, e)" and "e \<le> t" and "who \<noteq> ''''"
  shows "isOk (snd (acquire t k who ttl s))"
    and "live t (fst (acquire t k who ttl s)) k = Some (who, t + clampTTL ttl)"
proof -
  have "now < e" using assms(1) by (rule live_unexpired)
  then have "live t s k = None" using live_later [OF assms(1), of t] assms(2) by simp
  then show "isOk (snd (acquire t k who ttl s))"
    and "live t (fst (acquire t k who ttl s)) k = Some (who, t + clampTTL ttl)"
    using acquire_free [of who t s k ttl] assms(3) by auto
qed

lemma tenure_bounded:
  "snd (acquire now k ow ttl s) = Inr l \<Longrightarrow> ow \<noteq> '''' \<Longrightarrow>
     \<exists>e. live now (fst (acquire now k ow ttl s)) k = Some (ow, e) \<and> e \<le> now + MaxLeaseTTL"
  using acquire_held [of now s k _ _ ow ttl] acquire_free [of ow now s k ttl] clampTTL_bounds(2) [of ttl]
  by (cases "live now s k") (auto, fastforce)

end

section \<open>The in-memory lease store\<close>

type_synonym MemoryLeaseStore = "(string, Lease) gomap"

definition NewMemoryLeaseStore :: MemoryLeaseStore where
  "NewMemoryLeaseStore = []"

definition leaseKey :: "string \<Rightarrow> string \<Rightarrow> string" where
  "leaseKey goalID todoID = goalID @ [CHR 0x00] @ todoID"

definition reapLocked :: "string \<Rightarrow> instant \<Rightarrow> MemoryLeaseStore \<Rightarrow> MemoryLeaseStore" where
  "reapLocked key now s = (case mget s key of None \<Rightarrow> s
     | Some l \<Rightarrow> if Lease_IsValid (Some l) now then s else mdel key s)"

definition LeaseStore_Acquire :: "instant \<Rightarrow> string \<Rightarrow> string \<Rightarrow> string \<Rightarrow> duration \<Rightarrow>
    MemoryLeaseStore \<Rightarrow> MemoryLeaseStore \<times> Lease cp_result" where
  "LeaseStore_Acquire now goalID todoID owner ttl s =
     (if owner = '''' then (s, Inl ErrLeaseOwnerRequired) else
      let ttl = clampTTL ttl; key = leaseKey goalID todoID; s = reapLocked key now s;
          l = \<lparr>l_GoalID = goalID, l_TodoID = todoID, l_Owner = owner,
               l_AcquiredAt = now, l_ExpiresAt = now + ttl\<rparr>
      in case mget s key of
           Some cur \<Rightarrow> if l_Owner cur \<noteq> owner then (s, Inl (ErrLeaseHeld (l_Owner cur)))
                       else (mput key l s, Inr l)
         | None \<Rightarrow> (mput key l s, Inr l))"

definition LeaseStore_Renew :: "instant \<Rightarrow> string \<Rightarrow> string \<Rightarrow> string \<Rightarrow> duration \<Rightarrow>
    MemoryLeaseStore \<Rightarrow> MemoryLeaseStore \<times> Lease cp_result" where
  "LeaseStore_Renew now goalID todoID owner ttl s =
     (let ttl = clampTTL ttl; key = leaseKey goalID todoID; s = reapLocked key now s
      in case mget s key of
           None \<Rightarrow> (s, Inl ErrLeaseNotFound)
         | Some cur \<Rightarrow>
             if l_Owner cur \<noteq> owner then (s, Inl ErrLeaseOwnerMismatch)
             else let cur = cur\<lparr>l_ExpiresAt := now + ttl\<rparr> in (mput key cur s, Inr cur))"

definition LeaseStore_Transfer :: "instant \<Rightarrow> string \<Rightarrow> string \<Rightarrow> string \<Rightarrow> string \<Rightarrow>
    MemoryLeaseStore \<Rightarrow> MemoryLeaseStore \<times> Lease cp_result" where
  "LeaseStore_Transfer now goalID todoID owner newOwner s =
     (if newOwner = '''' then (s, Inl ErrNewOwnerRequired) else
      let key = leaseKey goalID todoID; s = reapLocked key now s
      in case mget s key of
           None \<Rightarrow> (s, Inl ErrLeaseNotFound)
         | Some cur \<Rightarrow>
             if l_Owner cur \<noteq> owner then (s, Inl ErrLeaseOwnerMismatch)
             else let cur = cur\<lparr>l_Owner := newOwner, l_AcquiredAt := now\<rparr>
                  in (mput key cur s, Inr cur))"

definition LeaseStore_Release :: "instant \<Rightarrow> string \<Rightarrow> string \<Rightarrow> string \<Rightarrow>
    MemoryLeaseStore \<Rightarrow> MemoryLeaseStore \<times> unit cp_result" where
  "LeaseStore_Release now goalID todoID owner s =
     (let key = leaseKey goalID todoID; s = reapLocked key now s
      in case mget s key of
           None \<Rightarrow> (s, Inr ())
         | Some cur \<Rightarrow>
             if l_Owner cur \<noteq> owner then (s, Inl ErrLeaseOwnerMismatch)
             else (mdel key s, Inr ()))"

definition LeaseStore_Inspect :: "instant \<Rightarrow> string \<Rightarrow> string \<Rightarrow>
    MemoryLeaseStore \<Rightarrow> MemoryLeaseStore \<times> Lease cp_result" where
  "LeaseStore_Inspect now goalID todoID s =
     (let key = leaseKey goalID todoID; s = reapLocked key now s
      in case mget s key of
           None \<Rightarrow> (s, Inl ErrLeaseNotFound)
         | Some cur \<Rightarrow> (s, Inr cur))"

text \<open>Owner and expiry of the lease on a todo that is valid at \<open>now\<close>.\<close>

definition lease_live :: "instant \<Rightarrow> MemoryLeaseStore \<Rightarrow> string \<times> string \<Rightarrow> (string \<times> instant) option" where
  "lease_live now s k = (case mget s (leaseKey (fst k) (snd k)) of None \<Rightarrow> None
     | Some l \<Rightarrow> if Lease_IsValid (Some l) now then Some (l_Owner l, l_ExpiresAt l) else None)"

lemma mget_reapLocked: "mget (reapLocked key now s) k =
    (if k = key \<and> \<not> Lease_IsValid (mget s key) now then None else mget s k)"
  by (auto simp: reapLocked_def gomap_simps Lease_IsValid_def split: option.splits)

lemmas lease_op_defs = LeaseStore_Acquire_def LeaseStore_Renew_def LeaseStore_Transfer_def
  LeaseStore_Release_def LeaseStore_Inspect_def

interpretation mem_lease: lease_store
  "\<lambda>now k. LeaseStore_Acquire now (fst k) (snd k)" "\<lambda>now k. LeaseStore_Renew now (fst k) (snd k)"
  "\<lambda>now k. LeaseStore_Transfer now (fst k) (snd k)" "\<lambda>now k. LeaseStore_Release now (fst k) (snd k)"
  "\<lambda>now k. LeaseStore_Inspect now (fst k) (snd k)" lease_live
  by unfold_locales
    (auto simp: lease_op_defs lease_live_def mget_reapLocked Lease_IsValid_def gomap_simps Let_def
        clampTTL_bounds split: option.splits if_splits)

section \<open>Timed runs\<close>

text \<open>
  A lease call, who makes it and on which todo.  \<open>lease_step\<close> applies a call at an
  instant; \<open>others_only\<close> says that no call of a run on todo \<open>k\<close> is made by
  \<open>ow\<close>, the only one who may renew, hand over or give up its lease.
\<close>

datatype LeaseCall = CallAcquire string duration | CallRenew string duration
  | CallTransfer string string | CallRelease string | CallInspect

fun lease_step :: "MemoryLeaseStore \<Rightarrow> instant \<times> (string \<times> string) \<times> LeaseCall \<Rightarrow> MemoryLeaseStore" where
  "lease_step s (now, (g, t), CallAcquire ow ttl) = fst (LeaseStore_Acquire now g t ow ttl s)"
| "lease_step s (now, (g, t), CallRenew ow ttl) = fst (LeaseStore_Renew now g t ow ttl s)"
| "lease_step s (now, (g, t), CallTransfer ow new) = fst (LeaseStore_Transfer now g t ow new s)"
| "lease_step s (now, (g, t), CallRelease ow) = fst (LeaseStore_Release now g t ow s)"
| "lease_step s (now, (g, t), CallInspect) = fst (LeaseStore_Inspect now g t s)"

fun call_owner :: "LeaseCall \<Rightarrow> string option" where
  "call_owner (CallAcquire ow _) = Some ow"
| "call_owner (CallRenew ow _) = Some ow"
| "call_owner (CallTransfer ow _) = Some ow"
| "call_owner (CallRelease ow) = Some ow"
| "call_owner CallInspect = None"

text \<open>A todo of another key is untouched; keys differ when the pair does and goal ids have no NUL byte.\<close>

lemma leaseKey_inj:
  assumes "leaseKey g t = leaseKey g' t'" and "CHR 0x00 \<notin> set g" "CHR 0x00 \<notin> set g'"
  shows "g = g' \<and> t = t'"
  using assms
proof (induction g arbitrary: g')
  case Nil
  then show ?case by (cases g') (auto simp: leaseKey_def)
next
  case (Cons c g)
  then show ?case by (cases g') (auto simp: leaseKey_def)
qed

lemma lease_step_other_key:
  assumes "leaseKey (fst k') (snd k') \<noteq> leaseKey (fst k) (snd k)"
  shows "lease_live t (lease_step s (now, k', c)) k = lease_live t s k"
  using assms
  by (cases k', cases c)
    (auto simp: lease_op_defs lease_live_def mget_reapLocked gomap_simps Let_def split: option.splits)

lemma lease_step_outsider:
  assumes "lease_live now s k = Some (ow, e)" and "call_owner c \<noteq> Some ow"
  shows "lease_live now (lease_step s (now, k, c)) k = Some (ow, e)"
  using assms mem_lease.outsider_cannot_interfere [OF assms(1)] mem_lease.inspect_live [of now k s]
  by (cases k, cases c) simp_all

lemma lease_live_cong:
  "lease_live now s k = Some (ow, e) \<Longrightarrow> t < e \<Longrightarrow> lease_live t s k = Some (ow, e)"
  by (auto simp: lease_live_def Lease_IsValid_def split: option.splits if_splits)

lemma lease_exclusive_run:
  assumes "lease_live t0 s k = Some (ow, e)"
    and "\<And>now k' c. (now, k', c) \<in> set calls \<Longrightarrow> now < e \<and>
          (leaseKey (fst k') (snd k') = leaseKey (fst k) (snd k) \<longrightarrow> k' = k \<and> call_owner c \<noteq> Some ow)"
  shows "lease_live t0 (run_ops lease_step s calls) k = Some (ow, e)"
  using assms
proof (induction calls arbitrary: s)
  case (Cons a calls)
  obtain now k' c where a: "a = (now, k', c)" by (cases a) auto
  have now: "now < e" using Cons.prems(2) [of now k' c] a by simp
  have "t0 < e" using Cons.prems(1) by (rule mem_lease.live_unexpired)
  have "lease_live t0 (lease_step s a) k = Some (ow, e)"
  proof (cases "leaseKey (fst k') (snd k') = leaseKey (fst k) (snd k)")
    case True
    then have "k' = k" "call_owner c \<noteq> Some ow" using Cons.prems(2) [of now k' c] a by auto
    moreover have "lease_live now s k = Some (ow, e)"
      using Cons.prems(1) now by (rule lease_live_cong)
    ultimately have "lease_live now (lease_step s a) k = Some (ow, e)"
      using a by (simp add: lease_step_outsider)
    then show ?thesis using \<open>t0 < e\<close> by (rule lease_live_cong)
  next
    case False
    then show ?thesis using a Cons.prems(1) by (simp add: lease_step_other_key)
  qed
  then have "lease_live t0 (run_ops lease_step (lease_step s a) calls) k = Some (ow, e)"
    by (rule Cons.IH) (rule Cons.prems(2), simp)
  then show ?case by simp
qed simp

end
