(* ===== verification/CP_Turns.thy ===== *)
theory CP_Turns
  imports CP_Types
begin

text \<open>
  Turn tickets (ticket.go, MemoryTicketStore) and deliveries (delivery.go,
  MemoryDeliveryStore): the two one-shot permits of a turn.  A ticket is minted by
  ShouldRunTurn and consumed by SpendSlot; a delivery is recorded by Writeback and marked spent
  by SpendSlot.

  The locale \<open>one_shot\<close> is what both promise: however issues and redemptions are
  interleaved, a key is redeemed at most once.
\<close>

section \<open>One-shot permits\<close>

text \<open>A run over issues and redemptions counts, per key, the redemptions that succeeded.\<close>

datatype ('a, 'k) permit_op = Issue 'a | Redeem 'k

fun redemptions :: "('a \<Rightarrow> 's \<Rightarrow> 's) \<Rightarrow> ('b \<Rightarrow> 's \<Rightarrow> 's \<times> bool) \<Rightarrow> ('b \<Rightarrow> 'k) \<Rightarrow> 'k \<Rightarrow>
    's \<Rightarrow> ('a, 'b) permit_op list \<Rightarrow> nat" where
  "redemptions issue redeem key_of k s [] = 0"
| "redemptions issue redeem key_of k s (Issue a # ops) =
     redemptions issue redeem key_of k (issue a s) ops"
| "redemptions issue redeem key_of k s (Redeem b # ops) =
     (let (s', ok) = redeem b s
      in (if ok \<and> key_of b = k then 1 else 0) + redemptions issue redeem key_of k s' ops)"

locale one_shot =
  fixes issue :: "'a \<Rightarrow> 's \<Rightarrow> 's"
    and redeem :: "'b \<Rightarrow> 's \<Rightarrow> 's \<times> bool"
    and key_of :: "'b \<Rightarrow> 'k"
    and used :: "'s \<Rightarrow> 'k \<Rightarrow> bool"
  assumes redeem_fresh: "snd (redeem b s) \<Longrightarrow> \<not> used s (key_of b)"
    and redeem_marks: "snd (redeem b s) \<Longrightarrow> used (fst (redeem b s)) (key_of b)"
    and redeem_keeps: "used s k \<Longrightarrow> used (fst (redeem b s)) k"
    and issue_keeps: "used s k \<Longrightarrow> used (issue a s) k"
begin

lemma used_never_again: "used s k \<Longrightarrow> redemptions issue redeem key_of k s ops = 0"
proof (induction ops arbitrary: s)
  case (Cons x ops)
  show ?case
  proof (cases x)
    case (Issue a)
    then show ?thesis using Cons.IH [OF issue_keeps [OF Cons.prems, of a]] by simp
  next
    case (Redeem b)
    then show ?thesis
      using Cons.IH [OF redeem_keeps [OF Cons.prems, of b]] redeem_fresh [of b s] Cons.prems
      by (auto split: prod.splits)
  qed
qed simp

lemma at_most_once: "redemptions issue redeem key_of k s ops \<le> 1"
proof (induction ops arbitrary: s)
  case (Cons x ops)
  show ?case
  proof (cases x)
    case (Issue a)
    then show ?thesis using Cons.IH [of "issue a s"] by simp
  next
    case (Redeem b)
    then show ?thesis
      using Cons.IH [of "fst (redeem b s)"] redeem_marks [of b s]
        used_never_again [of "fst (redeem b s)" k ops]
      by (auto split: prod.splits)
  qed
qed simp

end

section \<open>Tickets\<close>

record memTicket =
  tk_token :: string
  tk_consumed :: bool
  tk_mintedAt :: instant

type_synonym MemoryTicketStore = "(string, string, memTicket) gomap2"

definition NewMemoryTicketStore :: MemoryTicketStore where
  "NewMemoryTicketStore = []"

text \<open>The token is a fresh UUID, the argument \<open>uid\<close>; it is used only for a turn not yet minted.\<close>

definition TicketStore_Mint :: "instant \<Rightarrow> string \<Rightarrow> string \<Rightarrow> string \<Rightarrow>
    MemoryTicketStore \<Rightarrow> MemoryTicketStore \<times> string" where
  "TicketStore_Mint now uid goalID turnID s =
     (if turnID = '''' then (s, '''') else
      case get2 s goalID turnID of
        Some t \<Rightarrow> (s, tk_token t)
      | None \<Rightarrow>
          let t = \<lparr>tk_token = uid, tk_consumed = False, tk_mintedAt = now\<rparr>
          in (put2 goalID turnID t s, tk_token t))"

definition TicketStore_Consume :: "string \<Rightarrow> string \<Rightarrow> string \<Rightarrow>
    MemoryTicketStore \<Rightarrow> MemoryTicketStore \<times> unit cp_result" where
  "TicketStore_Consume goalID turnID token s =
     (case get2 s goalID turnID of
        None \<Rightarrow> (s, Inl ErrNoShouldRunTicket)
      | Some t \<Rightarrow>
          if tk_consumed t then (s, Inl ErrTicketConsumed)
          else if token \<noteq> '''' \<and> tk_token t \<noteq> token then (s, Inl ErrTicketTokenMismatch)
          else (put2 goalID turnID (t\<lparr>tk_consumed := True\<rparr>) s, Inr ()))"

definition TicketStore_Reap :: "instant \<Rightarrow> duration \<Rightarrow> MemoryTicketStore \<Rightarrow> MemoryTicketStore" where
  "TicketStore_Reap now olderThan s =
     (let cutoff = now - olderThan in reap2 (\<lambda>t. tk_consumed t \<and> tk_mintedAt t < cutoff) s)"

definition TicketStore_ReapUnconsumed :: "instant \<Rightarrow> duration \<Rightarrow> MemoryTicketStore \<Rightarrow> MemoryTicketStore" where
  "TicketStore_ReapUnconsumed now olderThan s =
     (let cutoff = now - olderThan in reap2 (\<lambda>t. \<not> tk_consumed t \<and> tk_mintedAt t < cutoff) s)"

definition ticket_used :: "MemoryTicketStore \<Rightarrow> string \<times> string \<Rightarrow> bool" where
  "ticket_used s k = (case get2 s (fst k) (snd k) of None \<Rightarrow> False | Some t \<Rightarrow> tk_consumed t)"

interpretation tickets: one_shot
  "\<lambda>(now, uid, g, t) s. fst (TicketStore_Mint now uid g t s)"
  "\<lambda>(g, t, tok) s. (fst (TicketStore_Consume g t tok s), isOk (snd (TicketStore_Consume g t tok s)))"
  "\<lambda>(g, t, tok). (g, t)" ticket_used
  by unfold_locales
    (auto simp: TicketStore_Mint_def TicketStore_Consume_def ticket_used_def gomap_simps Let_def
      split: option.splits if_splits)

lemma Mint_idempotent:
  assumes "turnID \<noteq> ''''"
  shows "TicketStore_Mint now' uid' g turnID (fst (TicketStore_Mint now uid g turnID s)) =
         TicketStore_Mint now uid g turnID s"
  using assms by (auto simp: TicketStore_Mint_def gomap_simps Let_def split: option.splits)

lemma Mint_keeps: "get2 s g t = Some tk \<Longrightarrow> get2 (fst (TicketStore_Mint now uid g' t' s)) g t = Some tk"
  by (auto simp: TicketStore_Mint_def gomap_simps Let_def split: option.splits)

lemma Consume_ok_iff:
  "isOk (snd (TicketStore_Consume g t tok s)) \<longleftrightarrow>
     (\<exists>tk. get2 s g t = Some tk \<and> \<not> tk_consumed tk \<and> (tok = '''' \<or> tk_token tk = tok))"
  by (auto simp: TicketStore_Consume_def split: option.splits)

lemma Consume_fail_same: "\<not> isOk (snd (TicketStore_Consume g t tok s)) \<Longrightarrow> fst (TicketStore_Consume g t tok s) = s"
  by (auto simp: TicketStore_Consume_def split: option.splits if_splits)

lemma mwf2_Mint [wf_intros]: "mwf2 s \<Longrightarrow> mwf2 (fst (TicketStore_Mint now uid g t s))"
  by (auto simp: TicketStore_Mint_def Let_def intro: wf_intros split: option.splits)

lemma mwf2_Consume [wf_intros]: "mwf2 s \<Longrightarrow> mwf2 (fst (TicketStore_Consume g t tok s))"
  by (auto simp: TicketStore_Consume_def intro: wf_intros split: option.splits)

lemma get2_Reap:
  "mwf2 s \<Longrightarrow> get2 (TicketStore_Reap now d s) g t = (case get2 s g t of None \<Rightarrow> None
     | Some tk \<Rightarrow> if tk_consumed tk \<and> tk_mintedAt tk < now - d then None else Some tk)"
  by (simp add: TicketStore_Reap_def gomap_simps Let_def)

lemma get2_ReapUnconsumed:
  "mwf2 s \<Longrightarrow> get2 (TicketStore_ReapUnconsumed now d s) g t = (case get2 s g t of None \<Rightarrow> None
     | Some tk \<Rightarrow> if \<not> tk_consumed tk \<and> tk_mintedAt tk < now - d then None else Some tk)"
  by (simp add: TicketStore_ReapUnconsumed_def gomap_simps Let_def)

section \<open>Deliveries\<close>

record Delivery =
  d_GoalID :: string
  d_TurnID :: string
  d_TodoID :: string
  d_Outcome :: OutcomeStatus
  d_Slots :: int
  d_Spent :: bool
  d_CreatedAt :: instant

type_synonym MemoryDeliveryStore = "(string, string, Delivery) gomap2"

definition NewMemoryDeliveryStore :: MemoryDeliveryStore where
  "NewMemoryDeliveryStore = []"

definition DeliveryStore_Record :: "instant \<Rightarrow> Delivery \<Rightarrow>
    MemoryDeliveryStore \<Rightarrow> MemoryDeliveryStore \<times> unit cp_result" where
  "DeliveryStore_Record now d s =
     (if d_GoalID d = '''' \<or> d_TurnID d = '''' then (s, Inl ErrDeliveryIDRequired) else
      let d = (if time_IsZero (d_CreatedAt d) then d\<lparr>d_CreatedAt := now\<rparr> else d);
          d = (if d_Slots d \<le> 0 then d\<lparr>d_Slots := 1\<rparr> else d)
      in case get2 s (d_GoalID d) (d_TurnID d) of
           Some _ \<Rightarrow> (s, Inr ())
         | None \<Rightarrow> (put2 (d_GoalID d) (d_TurnID d) d s, Inr ()))"

definition DeliveryStore_Get :: "MemoryDeliveryStore \<Rightarrow> string \<Rightarrow> string \<Rightarrow> Delivery cp_result" where
  "DeliveryStore_Get s goalID turnID =
     (case get2 s goalID turnID of None \<Rightarrow> Inl ErrDeliveryNotFound | Some d \<Rightarrow> Inr d)"

definition DeliveryStore_MarkSpent :: "string \<Rightarrow> string \<Rightarrow>
    MemoryDeliveryStore \<Rightarrow> MemoryDeliveryStore \<times> bool cp_result" where
  "DeliveryStore_MarkSpent goalID turnID s =
     (case get2 s goalID turnID of
        None \<Rightarrow> (s, Inl ErrDeliveryNotFound)
      | Some d \<Rightarrow> if d_Spent d then (s, Inr False)
                  else (put2 goalID turnID (d\<lparr>d_Spent := True\<rparr>) s, Inr True))"

definition DeliveryStore_Reap :: "instant \<Rightarrow> duration \<Rightarrow> MemoryDeliveryStore \<Rightarrow> MemoryDeliveryStore" where
  "DeliveryStore_Reap now olderThan s =
     (let cutoff = now - olderThan in reap2 (\<lambda>d. d_Spent d \<and> d_CreatedAt d < cutoff) s)"

definition delivery_spent :: "MemoryDeliveryStore \<Rightarrow> string \<times> string \<Rightarrow> bool" where
  "delivery_spent s k = (case get2 s (fst k) (snd k) of None \<Rightarrow> False | Some d \<Rightarrow> d_Spent d)"

interpretation deliveries: one_shot
  "\<lambda>(now, d) s. fst (DeliveryStore_Record now d s)"
  "\<lambda>(g, t) s. (fst (DeliveryStore_MarkSpent g t s), snd (DeliveryStore_MarkSpent g t s) = Inr True)"
  "\<lambda>k. k" delivery_spent
  by unfold_locales
    (auto simp: DeliveryStore_Record_def DeliveryStore_MarkSpent_def delivery_spent_def gomap_simps Let_def
      split: option.splits if_splits)

lemma Record_get2:
  "d_GoalID d \<noteq> '''' \<Longrightarrow> d_TurnID d \<noteq> '''' \<Longrightarrow>
   \<exists>d'. get2 (fst (DeliveryStore_Record now d s)) (d_GoalID d) (d_TurnID d) = Some d'"
  by (auto simp: DeliveryStore_Record_def gomap_simps Let_def split: option.splits)

lemma Record_keeps:
  "get2 s g t = Some d' \<Longrightarrow> get2 (fst (DeliveryStore_Record now d s)) g t = Some d'"
  by (auto simp: DeliveryStore_Record_def gomap_simps Let_def split: option.splits)

lemma mwf2_Record [wf_intros]: "mwf2 s \<Longrightarrow> mwf2 (fst (DeliveryStore_Record now d s))"
  by (auto simp: DeliveryStore_Record_def Let_def intro: wf_intros split: option.splits)

lemma mwf2_MarkSpent [wf_intros]: "mwf2 s \<Longrightarrow> mwf2 (fst (DeliveryStore_MarkSpent g t s))"
  by (auto simp: DeliveryStore_MarkSpent_def intro: wf_intros split: option.splits)

lemma get2_DeliveryReap:
  "mwf2 s \<Longrightarrow> get2 (DeliveryStore_Reap now d s) g t = (case get2 s g t of None \<Rightarrow> None
     | Some x \<Rightarrow> if d_Spent x \<and> d_CreatedAt x < now - d then None else Some x)"
  by (simp add: DeliveryStore_Reap_def gomap_simps Let_def)

end
