(* ===== verification/CP_Ledger.thy ===== *)
theory CP_Ledger
  imports CP_Types
begin

text \<open>
  The decision-lineage ledger (ledger.go, MemoryLedger) and the spend log with its rolling
  window (quota.go).

  The locale \<open>append_log\<close> is the contract of a log read through a cursor: a page starts
  at the cursor, and the next cursor is where the page ended.  Its lemma is that a reader who
  keeps polling while others append sees every entry once, in order.
\<close>

section \<open>Reading a log through a cursor\<close>

datatype 'w log_op = Append 'w | Poll int

text \<open>State of a run: the log, the reader's cursor, what the reader has seen.\<close>

fun poll_run :: "('w \<Rightarrow> 's \<Rightarrow> 's) \<Rightarrow> (int \<Rightarrow> int \<Rightarrow> 's \<Rightarrow> 'e list \<times> int) \<Rightarrow>
    's \<times> int \<times> 'e list \<Rightarrow> 'w log_op list \<Rightarrow> 's \<times> int \<times> 'e list" where
  "poll_run app rd st [] = st"
| "poll_run app rd (s, c, seen) (Append e # ops) = poll_run app rd (app e s, c, seen) ops"
| "poll_run app rd (s, c, seen) (Poll n # ops) =
     (let (es, c') = rd c n s in poll_run app rd (s, c', seen @ es) ops)"

locale append_log =
  fixes app :: "'w \<Rightarrow> 's \<Rightarrow> 's"
    and rd :: "int \<Rightarrow> int \<Rightarrow> 's \<Rightarrow> 'e list \<times> int"
    and contents :: "'s \<Rightarrow> 'e list"
    and stored :: "'s \<Rightarrow> 'w \<Rightarrow> 'e"
  assumes contents_app: "contents (app w s) = contents s @ [stored s w]"
    and read_page: "0 \<le> c \<Longrightarrow> c \<le> int (length (contents s)) \<Longrightarrow>
      \<exists>m \<ge> nat c. m \<le> length (contents s) \<and> rd c n s = (slice (nat c) m (contents s), int m)"
    and read_progress: "0 \<le> c \<Longrightarrow> c < int (length (contents s)) \<Longrightarrow> c < snd (rd c n s)"
begin

lemma poll_run_prefix:
  assumes "0 \<le> c" and "c \<le> int (length (contents s))" and "seen = take (nat c) (contents s)"
    and "poll_run app rd (s, c, seen) ops = (s', c', seen')"
  shows "0 \<le> c' \<and> c' \<le> int (length (contents s')) \<and> seen' = take (nat c') (contents s')"
  using assms
proof (induction ops arbitrary: s c seen)
  case (Cons x ops)
  show ?case
  proof (cases x)
    case (Append e)
    then show ?thesis using Cons.IH [of c "app e s" seen] Cons.prems by (simp add: contents_app)
  next
    case (Poll n)
    from read_page [of c s n] Cons.prems(1,2) obtain m where
      m: "nat c \<le> m" "m \<le> length (contents s)"
        "rd c n s = (slice (nat c) m (contents s), int m)" by blast
    have "seen @ slice (nat c) m (contents s) = take m (contents s)"
      using slice_append_slice [of 0 "nat c" m "contents s"] m(1) Cons.prems(3)
      by (simp add: slice_def)
    then show ?thesis using Cons.IH [of "int m" s "take m (contents s)"] Cons.prems(4) m Poll by simp
  qed
qed simp

end

section \<open>Events (ledger.go)\<close>

datatype EventKind = EventWork | EventDecision | EventAccounting | EventEvidence

text \<open>The dynamic values a Detail map holds: native integers, what JSON decoding yields, strings and others.\<close>

datatype any = AnyInt int | AnyInt64 int | AnyFloat64 f64 | AnyNumber string | AnyString string
  | AnyScope DecisionScope | AnyTime instant

record Event =
  ev_Index :: int
  ev_Kind :: EventKind
  ev_Type :: string
  ev_GoalID :: string
  ev_TodoID :: string
  ev_TurnID :: string
  ev_GateID :: string
  ev_Outcome :: string
  ev_Detail :: "(string, any) gomap"
  ev_At :: instant

text \<open>An Event literal with every field not named left at its zero value.\<close>

definition newEvent :: "EventKind \<Rightarrow> string \<Rightarrow> string \<Rightarrow> Event" where
  "newEvent kind typ goalID = \<lparr>ev_Index = 0, ev_Kind = kind, ev_Type = typ, ev_GoalID = goalID,
     ev_TodoID = '''', ev_TurnID = '''', ev_GateID = '''', ev_Outcome = '''', ev_Detail = [], ev_At = 0\<rparr>"

text \<open>\<^verbatim>\<open>json.Number.Int64\<close>: a base-10 64-bit integer; value and whether it parsed.\<close>

definition digitVal :: "char \<Rightarrow> int option" where
  "digitVal c = (let v = of_char c in if 48 \<le> v \<and> v \<le> (57 :: int) then Some (v - 48) else None)"

fun parseDigits :: "int \<Rightarrow> string \<Rightarrow> int option" where
  "parseDigits acc [] = Some acc"
| "parseDigits acc (c # cs) = (case digitVal c of None \<Rightarrow> None | Some d \<Rightarrow> parseDigits (10 * acc + d) cs)"

definition ParseInt64 :: "string \<Rightarrow> int \<times> bool" where
  "ParseInt64 s =
     (let neg = (s \<noteq> [] \<and> hd s = CHR ''-'');
          ds = (if s \<noteq> [] \<and> (hd s = CHR ''-'' \<or> hd s = CHR ''+'') then tl s else s)
      in if ds = [] then (0, False) else
         case parseDigits 0 ds of
           None \<Rightarrow> (0, False)
         | Some n \<Rightarrow>
             if \<not> neg \<and> 2 ^ 63 \<le> n then (2 ^ 63 - 1, False)
             else if neg \<and> 2 ^ 63 < n then (- (2 ^ 63), False)
             else (if neg then - n else n, True))"

definition DetailInt :: "Event \<Rightarrow> string \<Rightarrow> int \<times> bool" where
  "DetailInt e key =
     (case mget (ev_Detail e) key of
        None \<Rightarrow> (0, False)
      | Some (AnyInt n) \<Rightarrow> (n, True)
      | Some (AnyInt64 n) \<Rightarrow> (n, True)
      | Some (AnyFloat64 n) \<Rightarrow> (f64_to_int n, True)
      | Some (AnyNumber n) \<Rightarrow> ParseInt64 n
      | Some _ \<Rightarrow> (0, False))"

definition DetailStr :: "Event \<Rightarrow> string \<Rightarrow> string" where
  "DetailStr e key = (case mget (ev_Detail e) key of Some (AnyString s) \<Rightarrow> s | _ \<Rightarrow> '''')"

section \<open>The in-memory ledger\<close>

type_synonym MemoryLedger = "(string, Event list) gomap"

definition NewMemoryLedger :: MemoryLedger where
  "NewMemoryLedger = []"

definition Ledger_Append :: "instant \<Rightarrow> Event \<Rightarrow> MemoryLedger \<Rightarrow> MemoryLedger \<times> int" where
  "Ledger_Append now e l =
     (let e = (if time_IsZero (ev_At e) then e\<lparr>ev_At := now\<rparr> else e);
          idx = int (length (mlist l (ev_GoalID e)));
          e = e\<lparr>ev_Index := idx\<rparr>
      in (mpush (ev_GoalID e) e l, idx))"

definition Ledger_Read :: "MemoryLedger \<Rightarrow> string \<Rightarrow> int \<Rightarrow> int \<Rightarrow> Event list \<times> int" where
  "Ledger_Read l goalID cursor limit =
     (let limit = (if limit \<le> 0 then 100 else limit);
          evs = mlist l goalID;
          cursor = (if cursor < 0 then 0 else cursor)
      in if cursor \<ge> int (length evs) then ([], cursor) else
         let end = cursor + limit;
             end = (if end > int (length evs) then int (length evs) else end)
         in (slice (nat cursor) (nat end) evs, end))"

definition Ledger_Len :: "MemoryLedger \<Rightarrow> string \<Rightarrow> int" where
  "Ledger_Len l goalID = int (length (mlist l goalID))"

definition Ledger_Last :: "MemoryLedger \<Rightarrow> string \<Rightarrow> int \<Rightarrow> Event list" where
  "Ledger_Last l goalID n =
     (if n \<le> 0 then [] else
      let evs = mlist l goalID
      in if evs = [] then [] else
         let n = (if n > int (length evs) then int (length evs) else n)
         in drop (length evs - nat n) evs)"

definition Ledger_Compact :: "instant \<Rightarrow> string \<Rightarrow> int \<Rightarrow> MemoryLedger \<Rightarrow> MemoryLedger" where
  "Ledger_Compact now goalID keepLastN l =
     (let evs = mlist l goalID;
          keepLastN = (if keepLastN < 0 then 0 else keepLastN)
      in if int (length evs) \<le> keepLastN then l else
         let folded = int (length evs) - keepLastN;
             compacted = (newEvent EventDecision ''history_compacted'' goalID)
               \<lparr>ev_Detail := [(''events_folded'', AnyInt folded), (''kept'', AnyInt keepLastN)],
                ev_At := now\<rparr>;
             kept = drop (length evs - nat keepLastN) evs
         in mput goalID (compacted # kept) l)"

text \<open>The event as Append stores it.\<close>

definition storedEvent :: "instant \<Rightarrow> MemoryLedger \<Rightarrow> Event \<Rightarrow> Event" where
  "storedEvent now l e = (if time_IsZero (ev_At e) then e\<lparr>ev_At := now\<rparr> else e)
     \<lparr>ev_Index := int (length (mlist l (ev_GoalID e)))\<rparr>"

lemma mlist_Append [store_simps]:
  "mlist (fst (Ledger_Append now e l)) g =
     (if g = ev_GoalID e then mlist l g @ [storedEvent now l e] else mlist l g)"
  by (simp add: Ledger_Append_def storedEvent_def gomap_simps Let_def)

lemma mlist_Compact:
  "mlist (Ledger_Compact now g n l) g' =
     (if g' = g \<and> max 0 n < int (length (mlist l g))
      then (newEvent EventDecision ''history_compacted'' g)
             \<lparr>ev_Detail := [(''events_folded'', AnyInt (int (length (mlist l g)) - max 0 n)),
                (''kept'', AnyInt (max 0 n))], ev_At := now\<rparr>
           # drop (length (mlist l g) - nat (max 0 n)) (mlist l g)
      else mlist l g')"
  by (auto simp: Ledger_Compact_def gomap_simps Let_def max_def)

text \<open>The reader of one goal's ledger; appends carry their own time of writing.\<close>

interpretation ledger: append_log
  "\<lambda>(now, e) (l, g). (fst (Ledger_Append now (e\<lparr>ev_GoalID := g\<rparr>) l), g)"
  "\<lambda>c n (l, g). Ledger_Read l g c n"
  "\<lambda>(l, g). mlist l g"
  "\<lambda>(l, g) (now, e). storedEvent now l (e\<lparr>ev_GoalID := g\<rparr>)"
proof (unfold_locales, goal_cases)
  case (1 e s)
  then show ?case by (auto simp: store_simps split: prod.splits)
next
  case (2 c s n)
  obtain l g where s: "s = (l, g)" by fastforce
  define k where "k = (if n \<le> 0 then 100 else n)"
  define m where "m = nat (if c \<ge> int (length (mlist l g)) then c
    else if c + k > int (length (mlist l g)) then int (length (mlist l g)) else c + k)"
  have "k > 0" by (simp add: k_def)
  then have "nat c \<le> m" "m \<le> length (mlist l g)"
    "Ledger_Read l g c n = (slice (nat c) m (mlist l g), int m)"
    using 2 by (auto simp: s m_def Ledger_Read_def Let_def k_def [symmetric] slice_def)
  then show ?case by (intro exI [of _ m]) (simp add: s)
next
  case (3 c s n)
  then show ?case by (cases s) (auto simp: Ledger_Read_def Let_def)
qed

text \<open>A session of one reader from the start of the log: the ledger and goal, the cursor, what was seen.\<close>

definition ledger_session :: "MemoryLedger \<Rightarrow> string \<Rightarrow> (instant \<times> Event) log_op list \<Rightarrow>
    (MemoryLedger \<times> string) \<times> int \<times> Event list" where
  "ledger_session l g ops =
     poll_run (\<lambda>(now, e) (l, g). (fst (Ledger_Append now (e\<lparr>ev_GoalID := g\<rparr>) l), g))
       (\<lambda>c n (l, g). Ledger_Read l g c n) ((l, g), 0, []) ops"

section \<open>Quota and the spend log (quota.go)\<close>

definition AllowedSlots :: "Quota \<Rightarrow> int" where
  "AllowedSlots q =
     (if f64_le (q_Compute q) (Fin 0) \<or> f64_le (q_WindowHours q) (Fin 0) \<or> f64_le (q_SlotMinutes q) (Fin 0)
      then 0
      else let slots = f64_mul (f64_div (f64_mul (q_WindowHours q) (Fin 60)) (q_SlotMinutes q)) (q_Compute q)
           in f64_to_int (f64_add slots (Fin (1 / 2))))"

definition DefaultQuota :: Quota where
  "DefaultQuota = \<lparr>q_Compute = Fin (1 / 2), q_WindowHours = Fin 1, q_SlotMinutes = Fin 15\<rparr>"

text \<open>\<^verbatim>\<open>time.Duration(g.Quota.WindowHours * float64(time.Hour))\<close>\<close>

definition quotaWindow :: "Quota \<Rightarrow> duration" where
  "quotaWindow q = f64_to_int (f64_mul (q_WindowHours q) (Fin (of_int time_Hour)))"

text \<open>The default quota allows two slots per hour.\<close>

lemma DefaultQuota_eval: "AllowedSlots DefaultQuota = 2" "quotaWindow DefaultQuota = time_Hour"
proof -
  have "f64_round 60 = Fin 60" "f64_round 4 = Fin 4" "f64_round 2 = Fin 2" "f64_round (5 / 2) = Fin (5 / 2)"
    "f64_round 3600000000000 = Fin 3600000000000"
    using f64_round_of_int [of 60] f64_round_of_int [of 4] f64_round_of_int [of 2]
      f64_round_dyadic [of 5 1] f64_round_of_int [of 3600000000000] by simp_all
  moreover have "\<lfloor>5 / 2 :: rat\<rfloor> = 2" by (simp add: floor_eq_iff)
  ultimately show "AllowedSlots DefaultQuota = 2" "quotaWindow DefaultQuota = time_Hour"
    by (simp_all add: AllowedSlots_def quotaWindow_def DefaultQuota_def truncRat_def)
qed

record SpendEvent =
  se_GoalID :: string
  se_TurnID :: string
  se_Slots :: int
  se_Reason :: string
  se_SpentAt :: instant

type_synonym MemorySpendLog = "(string, SpendEvent list) gomap"

definition NewMemorySpendLog :: MemorySpendLog where
  "NewMemorySpendLog = []"

definition SpendLog_Append :: "instant \<Rightarrow> SpendEvent \<Rightarrow> MemorySpendLog \<Rightarrow> MemorySpendLog \<times> int" where
  "SpendLog_Append now e s =
     (let e = (if time_IsZero (se_SpentAt e) then e\<lparr>se_SpentAt := now\<rparr> else e);
          s = mpush (se_GoalID e) e s
      in (s, int (length (mlist s (se_GoalID e)))))"

definition SpentInWindow :: "instant \<Rightarrow> string \<Rightarrow> duration \<Rightarrow> MemorySpendLog \<Rightarrow> int" where
  "SpentInWindow now goalID window s =
     (let window = (if window \<le> 0 then time_Hour else window);
          cutoff = now - window
      in int (length (filter (\<lambda>e. \<not> se_SpentAt e < cutoff) (mlist s goalID))))"

lemma mlist_SpendLog_Append [store_simps]:
  "mlist (fst (SpendLog_Append now e s)) g =
     (if g = se_GoalID e then mlist s g @ [if time_IsZero (se_SpentAt e) then e\<lparr>se_SpentAt := now\<rparr> else e]
      else mlist s g)"
  by (simp add: SpendLog_Append_def gomap_simps Let_def)

lemma SpentInWindow_nonneg: "0 \<le> SpentInWindow now g w s"
  by (simp add: SpentInWindow_def Let_def)

end
