(* ===== verification/CP_Rewards.thy ===== *)
theory CP_Rewards
  imports CP_Types
begin

text \<open>
  Reward memory: the authority classes and the selector of reward.go, and the in-memory store
  of rewardstore.go.  The lemmas show what the selector returns (exactly the active records that
  apply, strongest class first, nothing dropped), when a hard policy is among them, and that a
  record stops counting only by being revoked while the reaper never touches an active one.
\<close>

section \<open>Records (reward.go)\<close>

datatype AuthorityClass = AuthorityRunBoundReward | AuthorityHardPolicy | AuthoritySoftPreference
  | AuthorityProceduralExperience | AuthorityWorkingContext | OtherAuthority string

definition authorityPrecedence :: "(AuthorityClass, int) gomap" where
  "authorityPrecedence =
    [(AuthorityHardPolicy, 1),
     (AuthorityWorkingContext, 2),
     (AuthorityProceduralExperience, 3),
     (AuthoritySoftPreference, 4),
     (AuthorityRunBoundReward, 5)]"

datatype Confidence = ConfidenceUnset | ConfidenceLow | ConfidenceMedium | ConfidenceHigh
  | OtherConfidence string

datatype LifecycleState = LifecycleUnset | LifecycleActive | LifecycleSuperseded
  | LifecycleRevoked | LifecycleExpired | OtherLifecycle string

record RewardRecord =
  rr_ID :: string
  rr_Class :: AuthorityClass
  rr_Source :: string
  rr_Scope :: DecisionScope
  rr_Authority :: string
  rr_Confidence :: Confidence
  rr_Lifecycle :: LifecycleState
  rr_Content :: string
  rr_CreatedAt :: instant

definition Reward_IsActive :: "RewardRecord \<Rightarrow> bool" where
  "Reward_IsActive r \<longleftrightarrow> rr_Lifecycle r = LifecycleUnset \<or> rr_Lifecycle r = LifecycleActive"

definition PrecedenceOrder :: "RewardRecord \<Rightarrow> int" where
  "PrecedenceOrder r = (case mget authorityPrecedence (rr_Class r) of Some n \<Rightarrow> n | None \<Rightarrow> 99)"

text \<open>The body of the selection loop: is the record kept?\<close>

definition selects :: "DecisionScope \<Rightarrow> RewardRecord \<Rightarrow> bool" where
  "selects scope r \<longleftrightarrow>
     (if \<not> Reward_IsActive r then False
      else if ds_ScopeKey (rr_Scope r) \<noteq> '''' then
        (if ds_Granularity scope = GranularityGoal
         then \<not> ds_ScopeKey (rr_Scope r) \<noteq> ds_ScopeKey scope
         else Covers (rr_Scope r) scope)
      else True)"

definition SelectByPrecedence :: "RewardRecord list \<Rightarrow> DecisionScope \<Rightarrow> RewardRecord list" where
  "SelectByPrecedence records scope =
     sort_key PrecedenceOrder (filter (selects scope) records)"

section \<open>The store (rewardstore.go)\<close>

type_synonym MemoryRewardStore = "(string, RewardRecord list) gomap"

definition NewMemoryRewardStore :: MemoryRewardStore where
  "NewMemoryRewardStore = []"

text \<open>\<open>uid\<close> is the fresh UUID given to a record without an id.\<close>

definition RewardStore_Add :: "instant \<Rightarrow> string \<Rightarrow> string \<Rightarrow> RewardRecord \<Rightarrow>
    MemoryRewardStore \<Rightarrow> MemoryRewardStore \<times> unit cp_result" where
  "RewardStore_Add now uid goalID r s =
     (if goalID = '''' then (s, Inl ErrRewardGoalRequired) else
      let r = (if rr_ID r = '''' then r\<lparr>rr_ID := uid\<rparr> else r);
          r = (if time_IsZero (rr_CreatedAt r) then r\<lparr>rr_CreatedAt := now\<rparr> else r)
      in (mpush goalID r s, Inr ()))"

fun revokeFirst :: "string \<Rightarrow> RewardRecord list \<Rightarrow> RewardRecord list option" where
  "revokeFirst recordID [] = None"
| "revokeFirst recordID (r # rs) =
     (if rr_ID r = recordID then Some (r\<lparr>rr_Lifecycle := LifecycleRevoked\<rparr> # rs)
      else map_option ((#) r) (revokeFirst recordID rs))"

definition RewardStore_Revoke :: "string \<Rightarrow> string \<Rightarrow>
    MemoryRewardStore \<Rightarrow> MemoryRewardStore \<times> unit cp_result" where
  "RewardStore_Revoke goalID recordID s =
     (case revokeFirst recordID (mlist s goalID) of
        Some rs \<Rightarrow> (mput goalID rs s, Inr ())
      | None \<Rightarrow> (s, Inl ErrRewardNotFound))"

definition RewardStore_List :: "MemoryRewardStore \<Rightarrow> string \<Rightarrow> RewardRecord list" where
  "RewardStore_List s goalID = sort_key PrecedenceOrder (mlist s goalID)"

definition RewardStore_Reap :: "instant \<Rightarrow> duration \<Rightarrow> MemoryRewardStore \<Rightarrow> MemoryRewardStore" where
  "RewardStore_Reap now olderThan s =
     (let cutoff = now - olderThan
      in map (\<lambda>(goalID, recs).
           (goalID, filter (\<lambda>r. \<not> (\<not> Reward_IsActive r \<and> rr_CreatedAt r < cutoff)) recs)) s)"

section \<open>The selector\<close>

lemma PrecedenceOrder_hard: "PrecedenceOrder r = 1 \<longleftrightarrow> rr_Class r = AuthorityHardPolicy"
  by (cases "rr_Class r") (simp_all add: PrecedenceOrder_def authorityPrecedence_def)

lemma PrecedenceOrder_pos: "1 \<le> PrecedenceOrder r"
  by (cases "rr_Class r") (simp_all add: PrecedenceOrder_def authorityPrecedence_def)

lemma set_SelectByPrecedence:
  "set (SelectByPrecedence rs scope) = {r \<in> set rs. selects scope r}"
  by (simp add: SelectByPrecedence_def)

lemma sorted_SelectByPrecedence: "sorted (map PrecedenceOrder (SelectByPrecedence rs scope))"
  by (simp add: SelectByPrecedence_def)

text \<open>Records of one rank keep the order of their insertion.\<close>

lemma filter_SelectByPrecedence:
  "filter (\<lambda>r. PrecedenceOrder r = n) (SelectByPrecedence rs scope) =
   filter (\<lambda>r. PrecedenceOrder r = n \<and> selects scope r) rs"
proof -
  have "filter (\<lambda>r. PrecedenceOrder r = n) (SelectByPrecedence rs scope) =
      filter (\<lambda>r. PrecedenceOrder r = n) (filter (selects scope) rs)"
    unfolding SelectByPrecedence_def
    by (rule sort_key_stable [where f = PrecedenceOrder and k = n, unfolded eq_commute [of n]])
  then show ?thesis by (simp add: conj_commute)
qed

lemma SelectByPrecedence_hard_first:
  assumes "r \<in> set rs" and "selects scope r" and "rr_Class r = AuthorityHardPolicy"
  obtains r' rest where "SelectByPrecedence rs scope = r' # rest"
    and "rr_Class r' = AuthorityHardPolicy" and "r' \<in> set rs" and "selects scope r'"
proof -
  have mem: "r \<in> set (SelectByPrecedence rs scope)" using assms by (simp add: set_SelectByPrecedence)
  then obtain r' rest where eq: "SelectByPrecedence rs scope = r' # rest"
    by (cases "SelectByPrecedence rs scope") auto
  have "PrecedenceOrder r' \<le> PrecedenceOrder r"
    using eq assms(1,2) unfolding SelectByPrecedence_def
    by (elim sort_key_hd_least) simp
  then have "rr_Class r' = AuthorityHardPolicy"
    using assms(3) PrecedenceOrder_pos [of r'] by (simp flip: PrecedenceOrder_hard)
  moreover have "r' \<in> set (SelectByPrecedence rs scope)" by (simp add: eq)
  then have "r' \<in> set rs" "selects scope r'" unfolding set_SelectByPrecedence by simp_all
  ultimately show thesis using that eq by blast
qed

lemma set_RewardStore_List [simp]: "set (RewardStore_List s g) = set (mlist s g)"
  by (simp add: RewardStore_List_def)

section \<open>Adding, revoking, reaping\<close>

lemma mlist_Add:
  "g' \<noteq> '''' \<Longrightarrow> mlist (fst (RewardStore_Add now uid g' r s)) g =
     mlist s g @ (if g = g' then [(let r = (if rr_ID r = '''' then r\<lparr>rr_ID := uid\<rparr> else r) in
        if time_IsZero (rr_CreatedAt r) then r\<lparr>rr_CreatedAt := now\<rparr> else r)] else [])"
  by (simp add: RewardStore_Add_def gomap_simps Let_def)

lemma revokeFirst_None: "revokeFirst i rs = None \<longleftrightarrow> i \<notin> rr_ID ` set rs"
  by (induction rs) auto

lemma revokeFirst_map: "distinct (map rr_ID rs) \<Longrightarrow> i \<in> rr_ID ` set rs \<Longrightarrow>
    revokeFirst i rs = Some (map (\<lambda>r. if rr_ID r = i then r\<lparr>rr_Lifecycle := LifecycleRevoked\<rparr> else r) rs)"
proof (induction rs)
  case (Cons r rs)
  show ?case
  proof (cases "rr_ID r = i")
    case True
    with Cons.prems(1) have "i \<notin> rr_ID ` set rs" by auto
    then have "map (\<lambda>r. if rr_ID r = i then r\<lparr>rr_Lifecycle := LifecycleRevoked\<rparr> else r) rs = rs"
      by (intro map_idI) auto
    with True show ?thesis by simp
  next
    case False
    with Cons show ?thesis by auto
  qed
qed simp

text \<open>Revoking a record takes it out of every selection and leaves the others as they were.\<close>

lemma Revoke_effect:
  assumes "distinct (map rr_ID (mlist s g))" and "i \<in> rr_ID ` set (mlist s g)"
  shows "snd (RewardStore_Revoke g i s) = Inr ()"
    and "r \<in> set (mlist (fst (RewardStore_Revoke g i s)) g) \<and> Reward_IsActive r \<longleftrightarrow>
         r \<in> set (mlist s g) \<and> Reward_IsActive r \<and> rr_ID r \<noteq> i"
  using revokeFirst_map [OF assms]
  by (auto simp: RewardStore_Revoke_def gomap_simps Reward_IsActive_def split: if_splits)

lemma mlist_RewardReap: "mlist (RewardStore_Reap now d s) g =
    filter (\<lambda>r. Reward_IsActive r \<or> now - d \<le> rr_CreatedAt r) (mlist s g)"
  by (auto simp: RewardStore_Reap_def Let_def mlist_def mget_map_snd not_less
      intro!: filter_cong split: option.splits)

text \<open>Reaping changes no selection.\<close>

lemma SelectByPrecedence_Reap:
  "SelectByPrecedence (RewardStore_List (RewardStore_Reap now d s) g) scope =
   SelectByPrecedence (RewardStore_List s g) scope"
proof -
  have "filter (selects scope) (filter (\<lambda>r. Reward_IsActive r \<or> now - d \<le> rr_CreatedAt r) rs) =
      filter (selects scope) rs" for rs
    by (induction rs) (auto simp: selects_def)
  then show ?thesis
    by (simp add: SelectByPrecedence_def RewardStore_List_def filter_sort mlist_RewardReap)
qed

end
