(* ===== verification/CP_Catalog.thy ===== *)
theory CP_Catalog
  imports CP_Types
begin

text \<open>
  The capability catalog (capability.go) and the Kernel's counters (metrics.go).  A capability's
  lane names the stages of its delivery; the Kernel asks it which stages are gated.
\<close>

section \<open>Capabilities (capability.go)\<close>

datatype CapStatus = CapStable | CapExperimental | CapCompatibilityFacade | OtherCapStatus string

record CapCommand =
  cc_Name :: string
  cc_Purpose :: string
  cc_WriteBoundary :: string

record LaneStage =
  ls_ID :: string
  ls_Label :: string
  ls_Gate :: bool
  ls_Order :: int

record Capability =
  c_ID :: string
  c_Title :: string
  c_Status :: CapStatus
  c_UserValue :: string
  c_ProviderID :: string
  c_Commands :: "CapCommand list"
  c_Lane :: "LaneStage list"
  c_Protocols :: "string list"
  c_Boundaries :: "string list"

type_synonym CapabilityRegistry = "(string, Capability) gomap"

definition laneStage :: "string \<Rightarrow> string \<Rightarrow> bool \<Rightarrow> int \<Rightarrow> LaneStage" where
  "laneStage i l g n = \<lparr>ls_ID = i, ls_Label = l, ls_Gate = g, ls_Order = n\<rparr>"

definition BuiltinCapabilities :: "Capability list" where
  "BuiltinCapabilities =
    [\<lparr>c_ID = ''issue-fix'',
      c_Title = ''Issue Fix'',
      c_Status = CapStable,
      c_UserValue = ''Resolve an open issue end to end: reproduce, patch, verify, and surface a reviewable change.'',
      c_ProviderID = ''controlplane-core'',
      c_Commands =
       [\<lparr>cc_Name = ''start'', cc_Purpose = ''Open a goal+todos for the issue lane'',
         cc_WriteBoundary = ''goals, todos''\<rparr>,
        \<lparr>cc_Name = ''advance'', cc_Purpose = ''Move the lane to the next stage'',
         cc_WriteBoundary = ''todo state, evidence''\<rparr>,
        \<lparr>cc_Name = ''request-review'', cc_Purpose = ''Open a user gate at the review boundary'',
         cc_WriteBoundary = ''gates''\<rparr>],
      c_Lane =
       [laneStage ''feasibility'' ''Feasibility'' False 10,
        laneStage ''patch'' ''Patch'' False 20,
        laneStage ''checks'' ''Checks'' False 30,
        laneStage ''review'' ''Review'' True 40,
        laneStage ''merge'' ''Merge'' True 50],
      c_Protocols = [''issue_fix_workflow_plan_packet_v0''],
      c_Boundaries =
       [''merge is gated: no auto-merge without an approved review gate'',
        ''production writes stay with the human; this capability never publishes on the user's behalf'']\<rparr>]"

definition NewCapabilityRegistry :: CapabilityRegistry where
  "NewCapabilityRegistry = foldl (\<lambda>m c. mput (c_ID c) c m) [] BuiltinCapabilities"

definition Registry_Register :: "Capability \<Rightarrow> CapabilityRegistry \<Rightarrow> CapabilityRegistry \<times> unit cp_result" where
  "Registry_Register c r =
     (if c_ID c = '''' then (r, Inl ErrCapabilityIDRequired)
      else if c_UserValue c = '''' then (r, Inl ErrCapabilityUserValueRequired)
      else let c = (if c_ProviderID c = '''' then c\<lparr>c_ProviderID := ''controlplane-core''\<rparr> else c)
           in (mput (c_ID c) c r, Inr ()))"

definition Registry_Get :: "CapabilityRegistry \<Rightarrow> string \<Rightarrow> Capability cp_result" where
  "Registry_Get r i = (case mget r i of None \<Rightarrow> Inl ErrCapabilityNotFound | Some c \<Rightarrow> Inr c)"

definition Registry_List :: "(Capability list \<Rightarrow> Capability list) \<Rightarrow> CapabilityRegistry \<Rightarrow> Capability list" where
  "Registry_List ord r = sort_key c_ID (ord (map snd r))"

text \<open>Every capability of the catalog has the contract Register asks for, under its own id.\<close>

definition registry_wf :: "CapabilityRegistry \<Rightarrow> bool" where
  "registry_wf r \<longleftrightarrow> mwf r \<and>
     (\<forall>i c. mget r i = Some c \<longrightarrow> c_ID c = i \<and> i \<noteq> '''' \<and> c_UserValue c \<noteq> '''' \<and> c_ProviderID c \<noteq> '''')"

lemma registry_wf_New [wf_intros]: "registry_wf NewCapabilityRegistry"
  by (simp add: registry_wf_def NewCapabilityRegistry_def BuiltinCapabilities_def mwf_def)

lemma registry_wf_Register [wf_intros]: "registry_wf r \<Longrightarrow> registry_wf (fst (Registry_Register c r))"
  by (auto simp: registry_wf_def Registry_Register_def gomap_simps Let_def intro: wf_intros)

lemma Get_Register: "snd (Registry_Register c r) = Inr () \<Longrightarrow>
    Registry_Get (fst (Registry_Register c r)) i =
      (if i = c_ID c then Inr (if c_ProviderID c = '''' then c\<lparr>c_ProviderID := ''controlplane-core''\<rparr> else c)
       else Registry_Get r i)"
  by (auto simp: Registry_Register_def Registry_Get_def gomap_simps Let_def split: if_splits)

lemma mget_eq_set: "mwf m \<Longrightarrow> (k, v) \<in> set m \<longleftrightarrow> mget m k = Some v"
  by (simp add: mwf_def)

lemma registry_ids: "registry_wf r \<Longrightarrow> map c_ID (map snd r) = map fst r"
  by (auto simp: registry_wf_def mget_eq_set)

lemma map_sort_key: "distinct (map f xs) \<Longrightarrow> map f (sort_key f xs) = sort (map f xs)"
  by (rule sorted_distinct_set_unique) (simp_all add: distinct_map)

text \<open>The catalog comes out once per id, in order of ids, whatever order the map is visited in.\<close>

lemma Registry_List_sorted_ids:
  assumes "registry_wf r" and "visits ord (map snd r)"
  shows "map c_ID (Registry_List ord r) = sort (map fst r)"
proof -
  from registry_ids [OF assms(1)] assms(1) have d: "distinct (map c_ID (map snd r))"
    by (simp only: registry_wf_def mwf_def)
  then have "distinct (map snd r)" "inj_on c_ID (set (map snd r))" by (simp_all only: distinct_map)
  then have "Registry_List ord r = sort_key c_ID (map snd r)"
    using assms(2) unfolding Registry_List_def visits_def by (intro sort_key_perm_unique) auto
  moreover have "map c_ID (sort_key c_ID (map snd r)) = sort (map c_ID (map snd r))"
    using d by (rule map_sort_key)
  ultimately show ?thesis by (simp only: registry_ids [OF assms(1)])
qed

section \<open>Counters (metrics.go)\<close>

record metrics =
  m_shouldRunEligible :: int
  m_shouldRunBlocked :: int
  m_spendExecuted :: int
  m_gatesOpened :: int
  m_gatesResolved :: int
  m_writebacks :: int
  m_supersedes :: int
  m_rewardsRecorded :: int
  m_rewardsRevoked :: int

definition newMetrics :: metrics where
  "newMetrics = \<lparr>m_shouldRunEligible = 0, m_shouldRunBlocked = 0, m_spendExecuted = 0,
     m_gatesOpened = 0, m_gatesResolved = 0, m_writebacks = 0, m_supersedes = 0,
     m_rewardsRecorded = 0, m_rewardsRevoked = 0\<rparr>"

end
