(* ===== verification/CP_Kernel.thy ===== *)
theory CP_Kernel
  imports CP_Stores CP_Leases CP_Turns CP_Ledger CP_Rewards CP_Catalog
begin

text \<open>
  The control-plane facade of kernel.go over the in-memory stores, which
  \<^verbatim>\<open>NewKernel\<close> wires.  An operation takes the Kernel and returns it updated
  with its result; \<open>now\<close> is the instant every clock reading of the call returns, and the
  \<open>uid\<close> arguments are the fresh UUIDs the call may draw.

  \<^verbatim>\<open>NewKernel\<close> always allocates a ledger and a reward store and no
  \<^verbatim>\<open>With\<dots>\<close> method accepts nil, so the nil checks on those fields have
  no branch here.  \<open>k_txStarter\<close> says whether a transaction wrapper is wired; it is
  \<^verbatim>\<open>SQLStores.RunInTx\<close> as far as the Kernel relies on it: the writes of a
  failing function are discarded.
\<close>

section \<open>State\<close>

record Kernel =
  k_goals :: MemoryGoalStore
  k_todos :: MemoryTodoStore
  k_gates :: MemoryGateStore
  k_leases :: MemoryLeaseStore
  k_spend :: MemorySpendLog
  k_ledger :: MemoryLedger
  k_capabilities :: CapabilityRegistry
  k_tickets :: MemoryTicketStore
  k_rewards :: MemoryRewardStore
  k_deliveries :: MemoryDeliveryStore
  k_txStarter :: bool
  k_metrics :: metrics
  k_enforceTicket :: bool

definition NewKernel :: Kernel where
  "NewKernel = \<lparr>k_goals = NewMemoryGoalStore, k_todos = NewMemoryTodoStore,
     k_gates = NewMemoryGateStore, k_leases = NewMemoryLeaseStore, k_spend = NewMemorySpendLog,
     k_ledger = NewMemoryLedger, k_capabilities = NewCapabilityRegistry,
     k_tickets = NewMemoryTicketStore, k_rewards = NewMemoryRewardStore,
     k_deliveries = NewMemoryDeliveryStore, k_txStarter = False, k_metrics = newMetrics,
     k_enforceTicket = False\<rparr>"

definition WithTicketEnforcement :: "Kernel \<Rightarrow> Kernel" where
  "WithTicketEnforcement k = k\<lparr>k_enforceTicket := True\<rparr>"

definition WithTxStarter :: "Kernel \<Rightarrow> Kernel" where
  "WithTxStarter k = k\<lparr>k_txStarter := True\<rparr>"

record Decision =
  dec_ShouldRun :: bool
  dec_State :: ComputeState
  dec_Route :: TurnRoute
  dec_Mode :: Mode
  dec_Notify :: NotifyPolicy
  dec_Scheduler :: SchedulerAction
  dec_CurrentTodoID :: string
  dec_Spent :: int
  dec_Allowed :: int
  dec_Reason :: string
  dec_GateID :: string
  dec_Question :: string
  dec_FallbackAuthorized :: bool
  dec_Fallback :: "FallbackPolicy option"
  dec_TurnToken :: string

record TickResult =
  tr_Decision :: Decision
  tr_ClaimedTodoID :: string

record SpendOpts =
  so_Execute :: bool
  so_Reason :: string
  so_Token :: string

fun GoalState_str :: "GoalState \<Rightarrow> string" where
  "GoalState_str GoalActive = ''active''"
| "GoalState_str GoalPaused = ''paused''"
| "GoalState_str GoalCompleted = ''completed''"
| "GoalState_str GoalAbandoned = ''abandoned''"
| "GoalState_str (OtherGoalState s) = s"

fun OutcomeStatus_str :: "OutcomeStatus \<Rightarrow> string" where
  "OutcomeStatus_str OutcomeProgress = ''progress''"
| "OutcomeStatus_str OutcomeCompletion = ''completion''"
| "OutcomeStatus_str OutcomeFailed = ''failed''"
| "OutcomeStatus_str (OtherOutcome s) = s"

fun DecisionOutcome_str :: "DecisionOutcome \<Rightarrow> string" where
  "DecisionOutcome_str DecisionApprove = ''approve''"
| "DecisionOutcome_str DecisionReject = ''reject''"
| "DecisionOutcome_str DecisionCancel = ''cancel''"
| "DecisionOutcome_str (OtherDecision s) = s"

section \<open>Plumbing\<close>

definition record_event :: "instant \<Rightarrow> Event \<Rightarrow> Kernel \<Rightarrow> Kernel" where
  "record_event now e k =
     (if ev_GoalID e = '''' then k
      else k\<lparr>k_ledger := fst (Ledger_Append now e (k_ledger k))\<rparr>)"

text \<open>Sequencing of fallible steps: the first error ends the sequence.\<close>

definition andThen ::
  "('s \<Rightarrow> 's \<times> ('e + 'a)) \<Rightarrow> ('a \<Rightarrow> 's \<Rightarrow> 's \<times> ('e + 'b)) \<Rightarrow> 's \<Rightarrow> 's \<times> ('e + 'b)" where
  "andThen f g s = (case f s of (s', Inl e) \<Rightarrow> (s', Inl e) | (s', Inr a) \<Rightarrow> g a s')"

lemma andThen_simps:
  "f s = (s', Inl e) \<Longrightarrow> andThen f g s = (s', Inl e)"
  "f s = (s', Inr a) \<Longrightarrow> andThen f g s = g a s'"
  by (simp_all add: andThen_def)

definition runTx :: "(Kernel \<Rightarrow> Kernel \<times> unit cp_result) \<Rightarrow> Kernel \<Rightarrow> Kernel \<times> unit cp_result" where
  "runTx fn k =
     (if \<not> k_txStarter k then fn k
      else (case fn k of (k', Inl e) \<Rightarrow> (k, Inl e) | (k', Inr u) \<Rightarrow> (k', Inr u)))"

text \<open>The store calls of the Kernel, lifted to the Kernel's state.\<close>

definition goals_Upsert :: "instant \<Rightarrow> Goal \<Rightarrow> Kernel \<Rightarrow> Kernel \<times> unit cp_result" where
  "goals_Upsert now g k = (let (s, r) = GoalStore_Upsert now g (k_goals k) in (k\<lparr>k_goals := s\<rparr>, r))"

definition todos_Upsert :: "instant \<Rightarrow> Todo \<Rightarrow> Kernel \<Rightarrow> Kernel \<times> unit cp_result" where
  "todos_Upsert now t k = (let (s, r) = TodoStore_Upsert now t (k_todos k) in (k\<lparr>k_todos := s\<rparr>, r))"

definition gates_Upsert :: "instant \<Rightarrow> UserGate \<Rightarrow> Kernel \<Rightarrow> Kernel \<times> unit cp_result" where
  "gates_Upsert now g k = (let (s, r) = GateStore_Upsert now g (k_gates k) in (k\<lparr>k_gates := s\<rparr>, r))"

definition ledger_Append :: "instant \<Rightarrow> Event \<Rightarrow> Kernel \<Rightarrow> Kernel \<times> unit cp_result" where
  "ledger_Append now e k = (k\<lparr>k_ledger := fst (Ledger_Append now e (k_ledger k))\<rparr>, Inr ())"

definition spend_Append :: "instant \<Rightarrow> SpendEvent \<Rightarrow> Kernel \<Rightarrow> Kernel \<times> unit cp_result" where
  "spend_Append now e k = (k\<lparr>k_spend := fst (SpendLog_Append now e (k_spend k))\<rparr>, Inr ())"

definition rewards_Add ::
  "instant \<Rightarrow> string \<Rightarrow> string \<Rightarrow> RewardRecord \<Rightarrow> Kernel \<Rightarrow> Kernel \<times> unit cp_result" where
  "rewards_Add now uid goalID r k =
     (let (s, res) = RewardStore_Add now uid goalID r (k_rewards k) in (k\<lparr>k_rewards := s\<rparr>, res))"

definition deliveries_Record :: "instant \<Rightarrow> Delivery \<Rightarrow> Kernel \<Rightarrow> Kernel \<times> unit cp_result" where
  "deliveries_Record now d k =
     (let (s, r) = DeliveryStore_Record now d (k_deliveries k) in (k\<lparr>k_deliveries := s\<rparr>, r))"

definition deliveries_MarkSpent :: "string \<Rightarrow> string \<Rightarrow> Kernel \<Rightarrow> Kernel \<times> bool cp_result" where
  "deliveries_MarkSpent goalID turnID k =
     (let (s, r) = DeliveryStore_MarkSpent goalID turnID (k_deliveries k) in (k\<lparr>k_deliveries := s\<rparr>, r))"

definition tickets_Consume :: "string \<Rightarrow> string \<Rightarrow> string \<Rightarrow> Kernel \<Rightarrow> Kernel \<times> unit cp_result" where
  "tickets_Consume goalID turnID token k =
     (let (s, r) = TicketStore_Consume goalID turnID token (k_tickets k) in (k\<lparr>k_tickets := s\<rparr>, r))"

section \<open>ShouldRun\<close>

text \<open>\<^verbatim>\<open>&Decision{...}\<close> with ShouldRun false and the fields not named at zero.\<close>

definition noRun :: "ComputeState \<Rightarrow> TurnRoute \<Rightarrow> Mode \<Rightarrow> NotifyPolicy \<Rightarrow> SchedulerAction \<Rightarrow> string \<Rightarrow> Decision" where
  "noRun st route mode notify sched reason =
     \<lparr>dec_ShouldRun = False, dec_State = st, dec_Route = route, dec_Mode = mode, dec_Notify = notify,
      dec_Scheduler = sched, dec_CurrentTodoID = '''', dec_Spent = 0, dec_Allowed = 0,
      dec_Reason = reason, dec_GateID = '''', dec_Question = '''', dec_FallbackAuthorized = False,
      dec_Fallback = None, dec_TurnToken = ''''\<rparr>"

definition mintTicket :: "instant \<Rightarrow> string \<Rightarrow> string \<Rightarrow> string \<Rightarrow> Kernel \<Rightarrow> Kernel \<times> string" where
  "mintTicket now uid goalID turnID k =
     (if turnID = '''' then (k, '''')
      else let (s, tok) = TicketStore_Mint now uid goalID turnID (k_tickets k)
           in (k\<lparr>k_tickets := s\<rparr>, tok))"

definition gateDecision :: "UserGate \<Rightarrow> Decision" where
  "gateDecision gt =
     (let dec = (noRun ComputeOperatorGate RouteUserActionRequired ModeUserGate Notify
                   HintBackoffWaitingForUser ''unresolved user gate'')
                 \<lparr>dec_GateID := ug_GateID gt, dec_Question := ug_Question gt\<rparr>
      in case ug_Fallback gt of
           None \<Rightarrow> dec
         | Some fb \<Rightarrow> dec\<lparr>dec_Mode := ModeScopedUserGateFallback, dec_FallbackAuthorized := True,
                          dec_Fallback := Some fb\<rparr>)"

text \<open>The first hard policy among the records that apply to the goal.\<close>

definition policyVeto :: "string \<Rightarrow> Kernel \<Rightarrow> RewardRecord option" where
  "policyVeto goalID k =
     (let recs = RewardStore_List (k_rewards k) goalID;
          goalScope = \<lparr>ds_Kind = ScopeDirection, ds_Granularity = GranularityGoal, ds_ScopeKey = goalID\<rparr>
      in if recs \<noteq> [] then find (\<lambda>r. rr_Class r = AuthorityHardPolicy) (SelectByPrecedence recs goalScope)
         else None)"

definition shouldRun :: "instant \<Rightarrow> string \<Rightarrow> string \<Rightarrow> string \<Rightarrow> string \<Rightarrow> Kernel \<Rightarrow> Kernel \<times> Decision" where
  "shouldRun now uid goalID agentID turnID k =
     (case GoalStore_Get (k_goals k) goalID of
        Inl _ \<Rightarrow> (k, noRun ComputeBlockedHealth RouteContractError ModeQuotaThrottled DontNotify
                      HintStopUntilExplicitResume ''goal not found'')
      | Inr g \<Rightarrow>
      if GoalState_IsTerminal (g_State g) then
        (k, noRun ComputeBlockedHealth RouteBlocked ModeMonitorQuietSkip DontNotify
              HintStopUntilExplicitResume (''goal terminal: '' @ GoalState_str (g_State g)))
      else if g_RegisteredAgents g \<noteq> [] \<and> \<not> containsString (g_RegisteredAgents g) agentID then
        (k, noRun ComputeBlockedHealth RouteContractError ModeMonitorQuietSkip DontNotify
              HintStopUntilExplicitResume (''agent not registered for goal: '' @ agentID))
      else if g_State g = GoalPaused \<or> f64_le (q_Compute (g_Quota g)) (Fin 0) then
        (k, noRun ComputePaused RouteBlocked ModeQuotaThrottled DontNotify
              HintStopUntilExplicitResume ''goal paused'')
      else
      (case GateStore_ListUnresolved id (k_gates k) goalID of
        gt # _ \<Rightarrow> (k, gateDecision gt)
      | [] \<Rightarrow>
      (case policyVeto goalID k of
        Some r \<Rightarrow> (k, noRun ComputePolicyBlocked RouteBlocked ModePolicyBlocked Notify
                       HintStopUntilExplicitResume (''blocked by hard_policy: '' @ rr_Content r))
      | None \<Rightarrow>
      let window = quotaWindow (g_Quota g);
          spent = SpentInWindow now goalID window (k_spend k);
          allowed = AllowedSlots (g_Quota g)
      in if 0 < allowed \<and> allowed \<le> spent then
           (k, (noRun ComputeThrottled RouteWait ModeQuotaThrottled DontNotify
                  HintBackoffUntilMaterialTransition ''quota exhausted in rolling window'')
                \<lparr>dec_Spent := spent, dec_Allowed := allowed\<rparr>)
         else
           let (k, tok) = mintTicket now uid goalID turnID k
           in (k, (noRun ComputeEligible RouteReadyForHost ModeBoundedDelivery DontNotify HintRunNow '''')
                   \<lparr>dec_ShouldRun := True, dec_CurrentTodoID := g_CurrentTodoID g,
                    dec_Spent := spent, dec_Allowed := allowed, dec_TurnToken := tok\<rparr>))))"

definition shouldRunCounted ::
  "instant \<Rightarrow> string \<Rightarrow> string \<Rightarrow> string \<Rightarrow> string \<Rightarrow> Kernel \<Rightarrow> Kernel \<times> Decision" where
  "shouldRunCounted now uid goalID agentID turnID k =
     (let (k, dec) = shouldRun now uid goalID agentID turnID k
      in if dec_ShouldRun dec
         then (k\<lparr>k_metrics := (k_metrics k)\<lparr>m_shouldRunEligible := m_shouldRunEligible (k_metrics k) + 1\<rparr>\<rparr>, dec)
         else (k\<lparr>k_metrics := (k_metrics k)\<lparr>m_shouldRunBlocked := m_shouldRunBlocked (k_metrics k) + 1\<rparr>\<rparr>, dec))"

text \<open>No ticket is minted without a turn id, so ShouldRun draws no UUID.\<close>

definition ShouldRun :: "instant \<Rightarrow> string \<Rightarrow> string \<Rightarrow> Kernel \<Rightarrow> Kernel \<times> Decision" where
  "ShouldRun now goalID agentID k = shouldRunCounted now '''' goalID agentID '''' k"

definition ShouldRunTurn :: "instant \<Rightarrow> string \<Rightarrow> string \<Rightarrow> string \<Rightarrow> string \<Rightarrow> Kernel \<Rightarrow> Kernel \<times> Decision" where
  "ShouldRunTurn now uid goalID agentID turnID k = shouldRunCounted now uid goalID agentID turnID k"

section \<open>Claims, gates, leases, rewards\<close>

definition Claim :: "instant \<Rightarrow> string \<Rightarrow> string \<Rightarrow> string \<Rightarrow> Kernel \<Rightarrow> Kernel \<times> unit cp_result" where
  "Claim now goalID todoID agentID k =
     (case TodoStore_Get (k_todos k) goalID todoID of
        Inl e \<Rightarrow> (k, Inl e)
      | Inr t \<Rightarrow>
          if t_State t \<noteq> TodoOpen then (k, Inl ErrTodoNotClaimable)
          else if t_ClaimedBy t \<noteq> '''' \<and> t_ClaimedBy t \<noteq> agentID then (k, Inl ErrAlreadyClaimed)
          else todos_Upsert now (t\<lparr>t_ClaimedBy := agentID\<rparr>) k)"

definition OpenGate :: "instant \<Rightarrow> string \<Rightarrow> UserGate \<Rightarrow> Kernel \<Rightarrow> Kernel \<times> unit cp_result" where
  "OpenGate now uid gate k =
     (let gate = (if ug_GateID gate = '''' then gate\<lparr>ug_GateID := uid\<rparr> else gate)
      in if (case GateStore_Get (k_gates k) (ug_GoalID gate) (ug_GateID gate) of
               Inr existing \<Rightarrow> Gate_IsResolved existing | Inl _ \<Rightarrow> False)
           then (k, Inl ErrGateAlreadyResolved)
         else (case gates_Upsert now gate k of
             (k, Inl e) \<Rightarrow> (k, Inl e)
           | (k, Inr _) \<Rightarrow>
               let k = k\<lparr>k_metrics := (k_metrics k)\<lparr>m_gatesOpened := m_gatesOpened (k_metrics k) + 1\<rparr>\<rparr>
               in (record_event now ((newEvent EventDecision ''gate_opened'' (ug_GoalID gate))
                     \<lparr>ev_GateID := ug_GateID gate, ev_TodoID := ug_TodoID gate,
                      ev_Detail := [(''question'', AnyString (ug_Question gate)),
                                    (''scope'', AnyScope (ug_Scope gate))]\<rparr>) k, Inr ())))"

definition ResolveGate :: "instant \<Rightarrow> string \<Rightarrow> string \<Rightarrow> GateOutcome \<Rightarrow> Kernel \<Rightarrow> Kernel \<times> unit cp_result" where
  "ResolveGate now goalID gateID outcome k =
     (case GateStore_Get (k_gates k) goalID gateID of
        Inl e \<Rightarrow> (k, Inl e)
      | Inr g \<Rightarrow>
          if Gate_IsResolved g then (k, Inl ErrGateAlreadyResolved)
          else if 0 < length (ug_Resolvers g) \<and> \<not> containsString (ug_Resolvers g) (go_By outcome)
            then (k, Inl ErrUnauthorizedResolver)
          else (case gates_Upsert now (g\<lparr>ug_Outcome := Some outcome, ug_ResolvedAt := now\<rparr>) k of
              (k, Inl e) \<Rightarrow> (k, Inl e)
            | (k, Inr _) \<Rightarrow>
                let k = k\<lparr>k_metrics := (k_metrics k)\<lparr>m_gatesResolved := m_gatesResolved (k_metrics k) + 1\<rparr>\<rparr>
                in (record_event now ((newEvent EventDecision ''gate_resolved'' goalID)
                      \<lparr>ev_GateID := gateID, ev_Outcome := DecisionOutcome_str (go_Decision outcome),
                       ev_Detail := [(''by'', AnyString (go_By outcome)),
                                     (''note'', AnyString (go_Note outcome))]\<rparr>) k, Inr ())))"

definition AcquireLease :: "instant \<Rightarrow> string \<Rightarrow> string \<Rightarrow> string \<Rightarrow> duration \<Rightarrow> Kernel \<Rightarrow> Kernel \<times> Lease cp_result" where
  "AcquireLease now goalID todoID owner ttl k =
     (let (s, r) = LeaseStore_Acquire now goalID todoID owner ttl (k_leases k); k = k\<lparr>k_leases := s\<rparr>
      in case r of
           Inl e \<Rightarrow> (k, Inl e)
         | Inr l \<Rightarrow>
             (record_event now ((newEvent EventDecision ''lease_acquired'' goalID)
                \<lparr>ev_TodoID := todoID,
                 ev_Detail := [(''owner'', AnyString owner), (''expires_at'', AnyTime (l_ExpiresAt l))]\<rparr>) k,
              Inr l))"

definition ReleaseLease :: "instant \<Rightarrow> string \<Rightarrow> string \<Rightarrow> string \<Rightarrow> Kernel \<Rightarrow> Kernel \<times> unit cp_result" where
  "ReleaseLease now goalID todoID owner k =
     (let (s, r) = LeaseStore_Release now goalID todoID owner (k_leases k); k = k\<lparr>k_leases := s\<rparr>
      in case r of
           Inl e \<Rightarrow> (k, Inl e)
         | Inr _ \<Rightarrow>
             (record_event now ((newEvent EventDecision ''lease_released'' goalID)
                \<lparr>ev_TodoID := todoID, ev_Detail := [(''owner'', AnyString owner)]\<rparr>) k,
              Inr ()))"

definition InspectLease :: "instant \<Rightarrow> string \<Rightarrow> string \<Rightarrow> Kernel \<Rightarrow> Kernel \<times> Lease cp_result" where
  "InspectLease now goalID todoID k =
     (let (s, r) = LeaseStore_Inspect now goalID todoID (k_leases k) in (k\<lparr>k_leases := s\<rparr>, r))"

definition RecordReward :: "instant \<Rightarrow> string \<Rightarrow> string \<Rightarrow> RewardRecord \<Rightarrow> Kernel \<Rightarrow> Kernel \<times> unit cp_result" where
  "RecordReward now uid goalID r k =
     (let r = (if rr_Lifecycle r = LifecycleUnset then r\<lparr>rr_Lifecycle := LifecycleActive\<rparr> else r);
          r = (if rr_Confidence r = ConfidenceUnset then r\<lparr>rr_Confidence := ConfidenceLow\<rparr> else r)
      in case rewards_Add now uid goalID r k of
           (k, Inl e) \<Rightarrow> (k, Inl e)
         | (k, Inr _) \<Rightarrow>
             (k\<lparr>k_metrics := (k_metrics k)\<lparr>m_rewardsRecorded := m_rewardsRecorded (k_metrics k) + 1\<rparr>\<rparr>, Inr ()))"

definition RevokeReward :: "instant \<Rightarrow> string \<Rightarrow> string \<Rightarrow> Kernel \<Rightarrow> Kernel \<times> unit cp_result" where
  "RevokeReward now goalID recordID k =
     (let (s, r) = RewardStore_Revoke goalID recordID (k_rewards k); k = k\<lparr>k_rewards := s\<rparr>
      in case r of
           Inl e \<Rightarrow> (k, Inl e)
         | Inr _ \<Rightarrow>
             let k = k\<lparr>k_metrics := (k_metrics k)\<lparr>m_rewardsRevoked := m_rewardsRevoked (k_metrics k) + 1\<rparr>\<rparr>
             in (record_event now ((newEvent EventDecision ''reward_revoked'' goalID)
                   \<lparr>ev_Detail := [(''record_id'', AnyString recordID)]\<rparr>) k, Inr ()))"

section \<open>Writeback\<close>

text \<open>The loop over the lane returns at the first stage with the todo's stage id.\<close>

definition laneStageGated :: "Kernel \<Rightarrow> Goal \<Rightarrow> Todo \<Rightarrow> bool" where
  "laneStageGated k g t =
     (if g_CapabilityID g = '''' \<or> t_StageID t = '''' then False
      else case Registry_Get (k_capabilities k) (g_CapabilityID g) of
          Inl _ \<Rightarrow> False
        | Inr c \<Rightarrow> (case find (\<lambda>s. ls_ID s = t_StageID t) (c_Lane c) of
              None \<Rightarrow> False | Some s \<Rightarrow> ls_Gate s))"

fun gateVotes :: "string \<Rightarrow> bool \<times> bool \<Rightarrow> UserGate list \<Rightarrow> bool \<times> bool" where
  "gateVotes todoID (approved, opn) [] = (approved, opn)"
| "gateVotes todoID (approved, opn) (gt # gts) =
     (if ug_TodoID gt \<noteq> todoID then gateVotes todoID (approved, opn) gts
      else if \<not> Gate_IsResolved gt then gateVotes todoID (approved, True) gts
      else if (case ug_Outcome gt of Some oc \<Rightarrow> go_Decision oc = DecisionApprove | None \<Rightarrow> False)
        then gateVotes todoID (True, opn) gts
      else gateVotes todoID (approved, opn) gts)"

definition hasApprovedGate :: "Kernel \<Rightarrow> string \<Rightarrow> string \<Rightarrow> bool" where
  "hasApprovedGate k goalID todoID =
     (case gateVotes todoID (False, False) (GateStore_List id (k_gates k) goalID) of
        (approved, opn) \<Rightarrow> approved \<and> \<not> opn)"

text \<open>The function Writeback runs in a transaction.\<close>

definition writebackTx :: "instant \<Rightarrow> string \<Rightarrow> ValidatedWriteback \<Rightarrow> Todo \<Rightarrow> Kernel \<Rightarrow> Kernel \<times> unit cp_result" where
  "writebackTx now uid wb t =
     andThen (todos_Upsert now t) (\<lambda>_.
     andThen (ledger_Append now ((newEvent EventWork ''validated_writeback'' (wb_GoalID wb))
       \<lparr>ev_TodoID := wb_TodoID wb, ev_TurnID := wb_TurnID wb,
        ev_Outcome := OutcomeStatus_str (o_Status (wb_Outcome wb)),
        ev_Detail := [(''decision_source'', AnyString (wb_DecisionSource wb)),
                      (''primary_cause'', AnyString (wb_PrimaryCause wb)),
                      (''evidence_count'', AnyInt (int (length (wb_Evidence wb))))]\<rparr>)) (\<lambda>_.
     andThen (rewards_Add now uid (wb_GoalID wb)
       \<lparr>rr_ID = '''', rr_Class = AuthorityRunBoundReward, rr_Source = wb_TurnID wb,
        rr_Scope = \<lparr>ds_Kind = ScopeOther, ds_Granularity = GranularityAction, ds_ScopeKey = wb_TodoID wb\<rparr>,
        rr_Authority = '''', rr_Confidence = ConfidenceUnset, rr_Lifecycle = LifecycleActive,
        rr_Content = wb_PrimaryCause wb, rr_CreatedAt = 0\<rparr>) (\<lambda>_ k.
     if \<not> IsAccountable (o_Status (wb_Outcome wb)) then (k, Inr ())
     else deliveries_Record now
       \<lparr>d_GoalID = wb_GoalID wb, d_TurnID = wb_TurnID wb, d_TodoID = wb_TodoID wb,
        d_Outcome = o_Status (wb_Outcome wb), d_Slots = 1, d_Spent = False, d_CreatedAt = 0\<rparr> k)))"

text \<open>From the reading of the todo on: the checks, then the transaction.\<close>

definition writebackTodo ::
  "instant \<Rightarrow> string \<Rightarrow> string \<Rightarrow> ValidatedWriteback \<Rightarrow> Todo \<Rightarrow> Kernel \<Rightarrow> Kernel \<times> string cp_result" where
  "writebackTodo now uidTurn uidReward wb t k =
     (if t_ClaimedBy t \<noteq> '''' \<and> wb_AgentID wb \<noteq> '''' \<and> t_ClaimedBy t \<noteq> wb_AgentID wb
        then (k, Inl ErrClaimOwnerMismatch) else
      let t = t\<lparr>t_Evidence := t_Evidence t @ wb_Evidence wb\<rparr>;
          completion = (o_Status (wb_Outcome wb) = OutcomeCompletion)
      in if completion \<and> \<not> LegalTodoTransition (t_State t) TodoDone then (k, Inl ErrTodoNotClaimable)
      else if completion \<and> (case GoalStore_Get (k_goals k) (wb_GoalID wb) of
               Inr goal \<Rightarrow> laneStageGated k goal t | Inl _ \<Rightarrow> False)
             \<and> \<not> hasApprovedGate k (wb_GoalID wb) (wb_TodoID wb)
        then (k, Inl ErrLaneGateRequired)
      else
        let t = (if completion then t\<lparr>t_State := TodoDone\<rparr> else t);
            wb = (if wb_TurnID wb = '''' then wb\<lparr>wb_TurnID := uidTurn\<rparr> else wb)
        in case runTx (writebackTx now uidReward wb t) k of
             (k, Inl e) \<Rightarrow> (k, Inl e)
           | (k, Inr _) \<Rightarrow>
               (k\<lparr>k_metrics := (k_metrics k)\<lparr>m_writebacks := m_writebacks (k_metrics k) + 1\<rparr>\<rparr>,
                Inr (if \<not> IsAccountable (o_Status (wb_Outcome wb)) then '''' else wb_TurnID wb)))"

definition Writeback ::
  "instant \<Rightarrow> string \<Rightarrow> string \<Rightarrow> ValidatedWriteback \<Rightarrow> Kernel \<Rightarrow> Kernel \<times> string cp_result" where
  "Writeback now uidTurn uidReward wb k =
     (case Validate wb of Inl e \<Rightarrow> (k, Inl e) | Inr _ \<Rightarrow>
      if IsAccountable (o_Status (wb_Outcome wb)) \<and> wb_TurnID wb \<noteq> ''''
         \<and> isOk (DeliveryStore_Get (k_deliveries k) (wb_GoalID wb) (wb_TurnID wb))
        then (k, Inr (wb_TurnID wb))
      else (case TodoStore_Get (k_todos k) (wb_GoalID wb) (wb_TodoID wb) of
          Inl e \<Rightarrow> (k, Inl e)
        | Inr t \<Rightarrow> writebackTodo now uidTurn uidReward wb t k))"

section \<open>SpendSlot and Tick\<close>

text \<open>The goal's window, or an hour; step 2 of SpendSlot.\<close>

definition spendWindow :: "Kernel \<Rightarrow> string \<Rightarrow> duration" where
  "spendWindow k goalID =
     (case GoalStore_Get (k_goals k) goalID of
        Inr g \<Rightarrow> if f64_lt (Fin 0) (q_WindowHours (g_Quota g)) then quotaWindow (g_Quota g) else time_Hour
      | Inl _ \<Rightarrow> time_Hour)"

text \<open>The ticket check at the head of the transaction.\<close>

definition spendTicket :: "instant \<Rightarrow> string \<Rightarrow> string \<Rightarrow> SpendOpts \<Rightarrow> Kernel \<Rightarrow> Kernel \<times> unit cp_result" where
  "spendTicket now goalID turnID opts k =
     (if k_enforceTicket k then
        if so_Token opts = '''' then (k, Inl ErrTicketTokenMismatch)
        else let (k, probe) = shouldRun now '''' goalID '''' '''' k
             in if \<not> dec_ShouldRun probe then (k, Inl (ErrStaleTicket (dec_State probe)))
                else tickets_Consume goalID turnID (so_Token opts) k
      else (k, Inr ()))"

definition spendTx :: "instant \<Rightarrow> string \<Rightarrow> string \<Rightarrow> SpendOpts \<Rightarrow> Delivery \<Rightarrow> Kernel \<Rightarrow> Kernel \<times> unit cp_result" where
  "spendTx now goalID turnID opts del =
     andThen (spendTicket now goalID turnID opts) (\<lambda>_.
     andThen (deliveries_MarkSpent goalID turnID) (\<lambda>marked k.
     if \<not> marked then (k, Inl ErrAlreadySpent) else
     andThen (spend_Append now
       \<lparr>se_GoalID = goalID, se_TurnID = turnID, se_Slots = d_Slots del,
        se_Reason = so_Reason opts, se_SpentAt = now\<rparr>) (\<lambda>_.
     ledger_Append now ((newEvent EventAccounting ''quota_slot_spent'' goalID)
       \<lparr>ev_TurnID := turnID,
        ev_Detail := [(''slots'', AnyInt (d_Slots del)), (''reason'', AnyString (so_Reason opts))]\<rparr>)) k))"

definition SpendSlot :: "instant \<Rightarrow> string \<Rightarrow> string \<Rightarrow> SpendOpts \<Rightarrow> Kernel \<Rightarrow> Kernel \<times> int cp_result" where
  "SpendSlot now goalID turnID opts k =
     (case DeliveryStore_Get (k_deliveries k) goalID turnID of
        Inl _ \<Rightarrow> (k, Inl ErrNoValidatedWriteback)
      | Inr del \<Rightarrow>
          if d_Spent del then (k, Inl ErrAlreadySpent)
          else let window = spendWindow k goalID in
          if \<not> so_Execute opts then (k, Inr (SpentInWindow now goalID window (k_spend k) + d_Slots del))
          else (case runTx (spendTx now goalID turnID opts del) k of
              (k, Inl e) \<Rightarrow> (k, Inl e)
            | (k, Inr _) \<Rightarrow>
                (k\<lparr>k_metrics := (k_metrics k)\<lparr>m_spendExecuted := m_spendExecuted (k_metrics k) + 1\<rparr>\<rparr>,
                 Inr (SpentInWindow now goalID window (k_spend k)))))"

definition Tick :: "instant \<Rightarrow> string \<Rightarrow> string \<Rightarrow> string \<Rightarrow> string \<Rightarrow> Kernel \<Rightarrow> Kernel \<times> TickResult" where
  "Tick now uid goalID agentID turnID k =
     (let (k, dec) = ShouldRunTurn now uid goalID agentID turnID k;
          res = \<lparr>tr_Decision = dec, tr_ClaimedTodoID = ''''\<rparr>
      in if \<not> dec_ShouldRun dec then (k, res)
         else if dec_CurrentTodoID dec \<noteq> '''' then
           (case Claim now goalID (dec_CurrentTodoID dec) agentID k of
              (k, Inr _) \<Rightarrow> (k, res\<lparr>tr_ClaimedTodoID := dec_CurrentTodoID dec\<rparr>)
            | (k, Inl _) \<Rightarrow> (k, res))
         else (k, res))"

section \<open>Maintenance\<close>

definition ReapTickets :: "instant \<Rightarrow> duration \<Rightarrow> Kernel \<Rightarrow> Kernel" where
  "ReapTickets now olderThan k = k\<lparr>k_tickets := TicketStore_Reap now olderThan (k_tickets k)\<rparr>"

definition CompactHistory :: "instant \<Rightarrow> string \<Rightarrow> int \<Rightarrow> Kernel \<Rightarrow> Kernel" where
  "CompactHistory now goalID keepLastN k = k\<lparr>k_ledger := Ledger_Compact now goalID keepLastN (k_ledger k)\<rparr>"

definition ReapAll :: "(Goal list \<Rightarrow> Goal list) \<Rightarrow> instant \<Rightarrow> duration \<Rightarrow> duration \<Rightarrow> int \<Rightarrow> Kernel \<Rightarrow> Kernel" where
  "ReapAll ord now olderThan abandonTTL keepLastN k =
     (let k = k\<lparr>k_tickets := TicketStore_Reap now olderThan (k_tickets k)\<rparr>;
          k = k\<lparr>k_tickets := TicketStore_ReapUnconsumed now abandonTTL (k_tickets k)\<rparr>;
          k = k\<lparr>k_deliveries := DeliveryStore_Reap now olderThan (k_deliveries k)\<rparr>;
          k = k\<lparr>k_rewards := RewardStore_Reap now olderThan (k_rewards k)\<rparr>
      in foldl (\<lambda>k g. k\<lparr>k_ledger := Ledger_Compact now (g_ID g) keepLastN (k_ledger k)\<rparr>) k
           (GoalStore_List ord (k_goals k)))"

end
