(* ===== verification/CP_Decisions.thy ===== *)
theory CP_Decisions
  imports CP_Kernel
begin

text \<open>
  What ShouldRun decides.  \<open>turn_state\<close> is the specification, a table over five facts
  about the goal in their order of precedence; the lemmas show that \<open>shouldRun\<close> refines
  it, when the outcome is eligible, and that only an eligible turn with a turn id changes the
  state, by minting its ticket.
\<close>

section \<open>The specification\<close>

datatype goal_standing = NoGoal | TerminalGoal | ForeignAgent | PausedGoal | RunningGoal

text \<open>\<open>turn_state standing gated vetoed exhausted\<close>: quota comes last.\<close>

fun turn_state :: "goal_standing \<Rightarrow> bool \<Rightarrow> bool \<Rightarrow> bool \<Rightarrow> ComputeState" where
  "turn_state NoGoal gated vetoed exhausted = ComputeBlockedHealth"
| "turn_state TerminalGoal gated vetoed exhausted = ComputeBlockedHealth"
| "turn_state ForeignAgent gated vetoed exhausted = ComputeBlockedHealth"
| "turn_state PausedGoal gated vetoed exhausted = ComputePaused"
| "turn_state RunningGoal gated vetoed exhausted =
     (if gated then ComputeOperatorGate else if vetoed then ComputePolicyBlocked
      else if exhausted then ComputeThrottled else ComputeEligible)"

definition standing :: "string \<Rightarrow> Goal option \<Rightarrow> goal_standing" where
  "standing agentID g = (case g of None \<Rightarrow> NoGoal | Some g \<Rightarrow>
     if g_State g \<in> {GoalCompleted, GoalAbandoned} then TerminalGoal
     else if g_RegisteredAgents g \<noteq> [] \<and> agentID \<notin> set (g_RegisteredAgents g) then ForeignAgent
     else if g_State g = GoalPaused \<or> f64_le (q_Compute (g_Quota g)) (Fin 0) then PausedGoal
     else RunningGoal)"

definition gate_open :: "Kernel \<Rightarrow> string \<Rightarrow> bool" where
  "gate_open k goalID \<longleftrightarrow> (\<exists>i gt. get2 (k_gates k) goalID i = Some gt \<and> ug_Outcome gt = None)"

definition vetoed :: "Kernel \<Rightarrow> string \<Rightarrow> bool" where
  "vetoed k goalID \<longleftrightarrow> (\<exists>r \<in> set (mlist (k_rewards k) goalID).
     rr_Class r = AuthorityHardPolicy \<and> Reward_IsActive r \<and>
     ds_ScopeKey (rr_Scope r) \<in> {'''', goalID})"

definition quota_exhausted :: "instant \<Rightarrow> Kernel \<Rightarrow> string \<Rightarrow> bool" where
  "quota_exhausted now k goalID \<longleftrightarrow> (\<exists>g. mget (k_goals k) goalID = Some g \<and>
     0 < AllowedSlots (g_Quota g) \<and>
     AllowedSlots (g_Quota g) \<le> SpentInWindow now goalID (quotaWindow (g_Quota g)) (k_spend k))"

section \<open>The building blocks\<close>

lemma GoalStore_Get_cases:
  "GoalStore_Get s i = (case mget s i of None \<Rightarrow> Inl ErrGoalNotFound | Some g \<Rightarrow> Inr g)"
  by (simp add: GoalStore_Get_def)

lemma unresolved_Nil_iff:
  assumes "gates_wf (k_gates k)"
  shows "GateStore_ListUnresolved id (k_gates k) goalID = [] \<longleftrightarrow> \<not> gate_open k goalID"
proof -
  have "distinct (map snd (inner (k_gates k) goalID))"
    using gates_distinct(1) [OF assms] by (simp only: distinct_map)
  then have "visits id (map snd (inner (k_gates k) goalID))" by (simp add: visits_def)
  from set_listFiltered [OF assms this, of False]
  have "set (GateStore_ListUnresolved id (k_gates k) goalID) =
      {t. (\<exists>i. get2 (k_gates k) goalID i = Some t) \<and> \<not> Gate_IsResolved t}"
    by (simp add: GateStore_ListUnresolved_def)
  then have "GateStore_ListUnresolved id (k_gates k) goalID = [] \<longleftrightarrow>
      {t. (\<exists>i. get2 (k_gates k) goalID i = Some t) \<and> \<not> Gate_IsResolved t} = {}"
    by (simp only: flip: set_empty)
  then show ?thesis by (auto simp: gate_open_def Gate_IsResolved_def)
qed

lemma selects_goal_scope:
  "selects \<lparr>ds_Kind = kd, ds_Granularity = GranularityGoal, ds_ScopeKey = goalID\<rparr> r \<longleftrightarrow>
     Reward_IsActive r \<and> ds_ScopeKey (rr_Scope r) \<in> {'''', goalID}"
  by (auto simp: selects_def)

lemma policyVeto_None_iff: "policyVeto goalID k = None \<longleftrightarrow> \<not> vetoed k goalID"
proof -
  have "RewardStore_List (k_rewards k) goalID = [] \<longleftrightarrow> mlist (k_rewards k) goalID = []"
    by (metis set_RewardStore_List set_empty)
  then show ?thesis
    by (auto simp: policyVeto_def Let_def find_None_iff set_SelectByPrecedence selects_goal_scope vetoed_def)
qed

lemma find_SomeD: "find P xs = Some x \<Longrightarrow> x \<in> set xs \<and> P x"
  by (auto simp: find_Some_iff)

lemma policyVeto_Some:
  assumes "policyVeto goalID k = Some r"
  shows "r \<in> set (mlist (k_rewards k) goalID)" "rr_Class r = AuthorityHardPolicy" "Reward_IsActive r"
  using assms
  by (auto simp: policyVeto_def Let_def set_SelectByPrecedence selects_def
      dest!: find_SomeD split: if_splits)

lemma noRun_simps [simp]:
  "dec_ShouldRun (noRun st ro mo no sc re) = False"
  "dec_State (noRun st ro mo no sc re) = st"
  "dec_TurnToken (noRun st ro mo no sc re) = ''''"
  "dec_FallbackAuthorized (noRun st ro mo no sc re) = False"
  "dec_Fallback (noRun st ro mo no sc re) = None"
  by (simp_all add: noRun_def)

lemma gateDecision_simps [simp]:
  "dec_ShouldRun (gateDecision gt) = False"
  "dec_State (gateDecision gt) = ComputeOperatorGate"
  "dec_TurnToken (gateDecision gt) = ''''"
  "dec_GateID (gateDecision gt) = ug_GateID gt"
  "dec_FallbackAuthorized (gateDecision gt) = (ug_Fallback gt \<noteq> None)"
  "dec_Fallback (gateDecision gt) = ug_Fallback gt"
  by (simp_all add: gateDecision_def noRun_def Let_def split: option.splits)

lemma mintTicket_Nil [simp]: "mintTicket now uid goalID [] k = (k, [])"
  by (simp add: mintTicket_def)

section \<open>The decision refines the specification\<close>

lemma shouldRun_state:
  assumes "gates_wf (k_gates k)"
  shows "dec_State (snd (shouldRun now uid goalID agentID turnID k)) =
    turn_state (standing agentID (mget (k_goals k) goalID)) (gate_open k goalID) (vetoed k goalID)
      (quota_exhausted now k goalID)"
  using unresolved_Nil_iff [OF assms, of goalID] policyVeto_None_iff [of goalID k]
  by (auto simp: shouldRun_def GoalStore_Get_cases standing_def GoalState_IsTerminal_def
      quota_exhausted_def Let_def split: option.splits list.splits prod.splits)

lemma shouldRun_eligible_iff:
  "dec_ShouldRun (snd (shouldRun now uid goalID agentID turnID k)) \<longleftrightarrow>
   dec_State (snd (shouldRun now uid goalID agentID turnID k)) = ComputeEligible"
  by (simp add: shouldRun_def Let_def split: sum.splits list.splits option.splits prod.splits)

lemma shouldRun_state_eligible:
  assumes "gates_wf (k_gates k)"
  shows "dec_ShouldRun (snd (shouldRun now uid goalID agentID turnID k)) \<longleftrightarrow>
     standing agentID (mget (k_goals k) goalID) = RunningGoal \<and> \<not> gate_open k goalID
     \<and> \<not> vetoed k goalID \<and> \<not> quota_exhausted now k goalID"
  unfolding shouldRun_eligible_iff shouldRun_state [OF assms]
  by (cases "standing agentID (mget (k_goals k) goalID)") auto

text \<open>The state changes only by the ticket of an eligible turn, and the decision carries its token.\<close>

lemma shouldRun_fst:
  "fst (shouldRun now uid goalID agentID turnID k) =
     (if dec_ShouldRun (snd (shouldRun now uid goalID agentID turnID k))
      then fst (mintTicket now uid goalID turnID k) else k)"
  by (simp add: shouldRun_def Let_def split: sum.splits list.splits option.splits prod.splits)

lemma shouldRun_token:
  "dec_TurnToken (snd (shouldRun now uid goalID agentID turnID k)) =
     (if dec_ShouldRun (snd (shouldRun now uid goalID agentID turnID k))
      then snd (mintTicket now uid goalID turnID k) else '''')"
  by (simp add: shouldRun_def Let_def split: sum.splits list.splits option.splits prod.splits)

lemma shouldRun_inspect [simp]: "fst (shouldRun now uid goalID agentID [] k) = k"
  by (simp add: shouldRun_fst)

lemma shouldRunCounted_snd: "snd (shouldRunCounted now uid goalID agentID turnID k) =
    snd (shouldRun now uid goalID agentID turnID k)"
  by (simp add: shouldRunCounted_def Let_def split: prod.splits)

lemma shouldRunCounted_fst:
  "\<exists>m. fst (shouldRunCounted now uid goalID agentID turnID k) =
     fst (shouldRun now uid goalID agentID turnID k)\<lparr>k_metrics := m\<rparr>"
  by (auto simp: shouldRunCounted_def Let_def split: prod.splits)

lemma mintTicket_fst: "fst (mintTicket now uid goalID turnID k) =
    k\<lparr>k_tickets := (if turnID = '''' then k_tickets k
        else fst (TicketStore_Mint now uid goalID turnID (k_tickets k)))\<rparr>"
  by (simp add: mintTicket_def split: prod.splits)

lemma shouldRunCounted_frame:
  "\<exists>m. fst (shouldRunCounted now uid goalID agentID turnID k) =
     k\<lparr>k_tickets :=
        (if dec_ShouldRun (snd (shouldRun now uid goalID agentID turnID k)) \<and> turnID \<noteq> ''''
         then fst (TicketStore_Mint now uid goalID turnID (k_tickets k)) else k_tickets k),
       k_metrics := m\<rparr>"
  using shouldRunCounted_fst [of now uid goalID agentID turnID k]
  by (auto simp: shouldRun_fst mintTicket_fst)

text \<open>Quota is the last word only: it never opens what an earlier check closed.\<close>

lemma blocked_whatever_the_quota:
  assumes "gates_wf (k_gates k)"
    and "standing agentID (mget (k_goals k) goalID) \<noteq> RunningGoal \<or> gate_open k goalID \<or> vetoed k goalID"
  shows "\<not> dec_ShouldRun (snd (shouldRun now uid goalID agentID turnID (k\<lparr>k_spend := s\<rparr>)))"
proof -
  have "gates_wf (k_gates (k\<lparr>k_spend := s\<rparr>))" using assms(1) by simp
  from shouldRun_state_eligible [OF this] assms(2) show ?thesis
    by (auto simp: gate_open_def vetoed_def)
qed

end
