(* ===== verification/Go_Strings.thy ===== *)
theory Go_Strings
  imports Prelude
begin

text \<open>
  The functions of Go's package \<^verbatim>\<open>strings\<close> that the modelled code calls, on byte
  strings.  White space is Unicode's, recognised in its UTF-8 encoding.  Case mapping is exact
  for what the code does with it, which is to look for ASCII text in the result or to compare
  with ASCII text: besides \<open>A\<close> to \<open>Z\<close> it knows the non-ASCII runes that
  map to an ASCII letter, and leaves every other byte alone.
\<close>

section \<open>Prefixes, suffixes, substrings\<close>

definition HasPrefix :: "string \<Rightarrow> string \<Rightarrow> bool" where
  "HasPrefix s p \<longleftrightarrow> take (length p) s = p"

definition HasSuffix :: "string \<Rightarrow> string \<Rightarrow> bool" where
  "HasSuffix s p \<longleftrightarrow> length p \<le> length s \<and> drop (length s - length p) s = p"

fun Contains :: "string \<Rightarrow> string \<Rightarrow> bool" where
  "Contains [] sub \<longleftrightarrow> sub = []"
| "Contains (c # cs) sub \<longleftrightarrow> HasPrefix (c # cs) sub \<or> Contains cs sub"

definition TrimPrefix :: "string \<Rightarrow> string \<Rightarrow> string" where
  "TrimPrefix s p = (if HasPrefix s p then drop (length p) s else s)"

lemma HasPrefix_iff: "HasPrefix s p \<longleftrightarrow> (\<exists>r. s = p @ r)"
  unfolding HasPrefix_def by (metis append_eq_conv_conj append_take_drop_id)

lemma HasPrefix_Nil [simp]: "HasPrefix s []"
  by (simp add: HasPrefix_def)

lemma HasPrefix_self [simp]: "HasPrefix (p @ r) p"
  by (simp add: HasPrefix_def)

lemma Contains_iff: "Contains s sub \<longleftrightarrow> (\<exists>u v. s = u @ sub @ v)"
proof (induction s)
  case (Cons c cs)
  have "(\<exists>u v. c # cs = u @ sub @ v) \<longleftrightarrow> (\<exists>v. c # cs = sub @ v) \<or> (\<exists>u v. cs = u @ sub @ v)"
    by (auto simp: Cons_eq_append_conv)
  then show ?case using Cons.IH by (simp add: HasPrefix_iff)
qed simp

lemma Contains_append: "Contains s sub \<Longrightarrow> Contains (u @ s @ v) sub"
  unfolding Contains_iff by (metis append.assoc)

section \<open>White space\<close>

definition asciiSpace :: "char \<Rightarrow> bool" where
  "asciiSpace c \<longleftrightarrow> c = CHR 0x20 \<or> c = CHR 0x09 \<or> c = CHR 0x0A \<or> c = CHR 0x0B
     \<or> c = CHR 0x0C \<or> c = CHR 0x0D"

text \<open>The white-space runes of two and three bytes: U+0085, U+00A0; U+1680, U+2000 to U+200A,
  U+2028, U+2029, U+202F, U+205F, U+3000.\<close>

definition space2 :: "char \<Rightarrow> char \<Rightarrow> bool" where
  "space2 a b \<longleftrightarrow> a = CHR 0xC2 \<and> (b = CHR 0x85 \<or> b = CHR 0xA0)"

definition space3 :: "char \<Rightarrow> char \<Rightarrow> char \<Rightarrow> bool" where
  "space3 a b c \<longleftrightarrow>
     a = CHR 0xE1 \<and> b = CHR 0x9A \<and> c = CHR 0x80
   \<or> a = CHR 0xE2 \<and> b = CHR 0x80 \<and>
       (CHR 0x80 \<le> c \<and> c \<le> CHR 0x8A \<or> c = CHR 0xA8 \<or> c = CHR 0xA9 \<or> c = CHR 0xAF)
   \<or> a = CHR 0xE2 \<and> b = CHR 0x81 \<and> c = CHR 0x9F
   \<or> a = CHR 0xE3 \<and> b = CHR 0x80 \<and> c = CHR 0x80"

text \<open>The number of bytes of the white-space rune a string begins with, 0 if there is none;
  \<open>spaceLenR\<close> reads the last rune of a string given in reverse.\<close>

definition spaceLen :: "string \<Rightarrow> nat" where
  "spaceLen s = (case s of [] \<Rightarrow> 0 | a # r \<Rightarrow> if asciiSpace a then 1 else
     (case r of [] \<Rightarrow> 0 | b # r \<Rightarrow> if space2 a b then 2 else
       (case r of [] \<Rightarrow> 0 | c # _ \<Rightarrow> if space3 a b c then 3 else 0)))"

definition spaceLenR :: "string \<Rightarrow> nat" where
  "spaceLenR s = (case s of [] \<Rightarrow> 0 | a # r \<Rightarrow> if asciiSpace a then 1 else
     (case r of [] \<Rightarrow> 0 | b # r \<Rightarrow> if space2 b a then 2 else
       (case r of [] \<Rightarrow> 0 | c # _ \<Rightarrow> if space3 c b a then 3 else 0)))"

lemma spaceLen_le: "spaceLen s \<le> length s" "spaceLenR s \<le> length s"
  by (auto simp: spaceLen_def spaceLenR_def split: list.splits)

function trimStart :: "(string \<Rightarrow> nat) \<Rightarrow> string \<Rightarrow> string" where
  "trimStart f s = (if f s = 0 \<or> s = [] then s else trimStart f (drop (f s) s))"
  by pat_completeness auto
termination
  by (relation "measure (\<lambda>(f, s). length s)") auto

declare trimStart.simps [simp del]

definition TrimSpace :: "string \<Rightarrow> string" where
  "TrimSpace s = rev (trimStart spaceLenR (rev (trimStart spaceLen s)))"

lemma trimStart_length: "length (trimStart f s) \<le> length s"
proof (induction f s rule: trimStart.induct)
  case (1 f s)
  then show ?case by (subst trimStart.simps) (auto intro: le_trans)
qed

lemma trimStart_drop: "\<exists>k. trimStart f s = drop k s"
proof (induction f s rule: trimStart.induct)
  case (1 f s)
  show ?case
  proof (cases "f s = 0 \<or> s = []")
    case True
    then show ?thesis by (intro exI [of _ 0]) (simp add: trimStart.simps [of f s])
  next
    case False
    with 1 obtain k where "trimStart f (drop (f s) s) = drop k (drop (f s) s)" by blast
    with False show ?thesis
      by (intro exI [of _ "k + f s"]) (simp add: trimStart.simps [of f s])
  qed
qed

lemma trimStart_stop: "f (trimStart f s) = 0 \<or> trimStart f s = []"
proof (induction f s rule: trimStart.induct)
  case (1 f s)
  then show ?case by (cases "f s = 0 \<or> s = []") (simp_all add: trimStart.simps [of f s])
qed

lemma trimStart_fix: "f s = 0 \<Longrightarrow> trimStart f s = s"
  by (simp add: trimStart.simps)

lemma TrimSpace_length: "length (TrimSpace s) \<le> length s"
  unfolding TrimSpace_def by (metis length_rev trimStart_length le_trans)

lemma TrimSpace_Nil [simp]: "TrimSpace [] = []"
  by (simp add: TrimSpace_def trimStart.simps)

text \<open>A trimmed string is a segment of the original.\<close>

lemma TrimSpace_segment: "\<exists>u v. s = u @ TrimSpace s @ v"
proof -
  obtain k where k: "trimStart spaceLen s = drop k s" using trimStart_drop by blast
  obtain l where l: "trimStart spaceLenR (rev (drop k s)) = drop l (rev (drop k s))"
    using trimStart_drop by blast
  have "TrimSpace s = rev (drop l (rev (drop k s)))" by (simp only: TrimSpace_def k l)
  then have "TrimSpace s = take (length (drop k s) - l) (drop k s)"
    by (metis length_rev rev_drop rev_rev_ident)
  then show ?thesis by (metis append_take_drop_id)
qed

lemma Contains_TrimSpace: "Contains (TrimSpace s) sub \<Longrightarrow> Contains s sub"
  using TrimSpace_segment [of s] by (metis Contains_append)

text \<open>\<^verbatim>\<open>strings.Fields\<close>: the maximal segments free of white space.\<close>

function fieldsFrom :: "string \<Rightarrow> string \<Rightarrow> string list" where
  "fieldsFrom cur s =
     (if s = [] then (if cur = [] then [] else [cur])
      else if 0 < spaceLen s
        then (if cur = [] then [] else [cur]) @ fieldsFrom [] (drop (spaceLen s) s)
      else fieldsFrom (cur @ [hd s]) (tl s))"
  by pat_completeness auto
termination
  by (relation "measure (\<lambda>(cur, s). length s)") auto

declare fieldsFrom.simps [simp del]

definition Fields :: "string \<Rightarrow> string list" where
  "Fields s = fieldsFrom [] s"

lemma fieldsFrom_nonempty: "x \<in> set (fieldsFrom cur s) \<Longrightarrow> x \<noteq> []"
proof (induction cur s rule: fieldsFrom.induct)
  case (1 cur s)
  then show ?case by (auto simp: fieldsFrom.simps [of cur s] split: if_splits)
qed

section \<open>Splitting, joining, trimming\<close>

fun splitFrom :: "char \<Rightarrow> string \<Rightarrow> string \<Rightarrow> string list" where
  "splitFrom sep cur [] = [cur]"
| "splitFrom sep cur (c # cs) =
     (if c = sep then cur # splitFrom sep [] cs else splitFrom sep (cur @ [c]) cs)"

text \<open>\<^verbatim>\<open>strings.Split\<close> with a separator of one byte.\<close>

definition Split :: "string \<Rightarrow> char \<Rightarrow> string list" where
  "Split s sep = splitFrom sep [] s"

fun Join :: "string list \<Rightarrow> string \<Rightarrow> string" where
  "Join [] sep = []"
| "Join [x] sep = x"
| "Join (x # xs) sep = x @ sep @ Join xs sep"

definition TrimCutset :: "string \<Rightarrow> char list \<Rightarrow> string" where
  "TrimCutset s cs =
     rev (dropWhile (\<lambda>c. List.member cs c) (rev (dropWhile (\<lambda>c. List.member cs c) s)))"

lemma splitFrom_neq_Nil [simp]: "splitFrom sep cur s \<noteq> []"
  by (induction s arbitrary: cur) auto

lemma Join_Cons_neq_Nil: "xs \<noteq> [] \<Longrightarrow> Join (x # xs) sep = x @ sep @ Join xs sep"
  by (cases xs) auto

lemma Join_splitFrom: "Join (splitFrom sep cur s) [sep] = cur @ s"
  by (induction s arbitrary: cur) (auto simp: Join_Cons_neq_Nil)

lemma Join_Split: "Join (Split s sep) [sep] = s"
  by (simp add: Split_def Join_splitFrom)

definition TrimSuffix :: "string \<Rightarrow> string \<Rightarrow> string" where
  "TrimSuffix s p = (if HasSuffix s p then take (length s - length p) s else s)"

definition TrimRight :: "string \<Rightarrow> char list \<Rightarrow> string" where
  "TrimRight s cs = rev (dropWhile (\<lambda>c. c \<in> set cs) (rev s))"

text \<open>\<^verbatim>\<open>strings.ReplaceAll\<close> for a non-empty \<open>old\<close>.\<close>

function ReplaceAll :: "string \<Rightarrow> string \<Rightarrow> string \<Rightarrow> string" where
  "ReplaceAll s old new =
     (if s = [] then []
      else if old \<noteq> [] \<and> HasPrefix s old then new @ ReplaceAll (drop (length old) s) old new
      else hd s # ReplaceAll (tl s) old new)"
  by pat_completeness auto
termination
  by (relation "measure (\<lambda>(s, old, new). length s)") auto

declare ReplaceAll.simps [simp del]

lemma ReplaceAll_Nil [simp]: "ReplaceAll [] old new = []"
  by (simp add: ReplaceAll.simps)

lemma ReplaceAll_absent: "\<not> Contains s old \<Longrightarrow> ReplaceAll s old new = s"
  by (induction s) (simp_all add: ReplaceAll.simps)

section \<open>Case mapping\<close>

definition asciiLower :: "char \<Rightarrow> char" where
  "asciiLower c = (if CHR ''A'' \<le> c \<and> c \<le> CHR ''Z'' then char_of (of_char c + (32 :: nat)) else c)"

text \<open>U+0130 and U+212A are the runes above ASCII whose lower case is ASCII.\<close>

fun ToLower :: "string \<Rightarrow> string" where
  "ToLower [] = []"
| "ToLower (a # s) =
     (if a = CHR 0xC4 \<and> take 1 s = [CHR 0xB0] then CHR ''i'' # ToLower (drop 1 s)
      else if a = CHR 0xE2 \<and> take 2 s = [CHR 0x84, CHR 0xAA] then CHR ''k'' # ToLower (drop 2 s)
      else asciiLower a # ToLower s)"

text \<open>U+017F and U+212A are the runes above ASCII that fold together with an ASCII letter.\<close>

fun foldCase :: "string \<Rightarrow> string" where
  "foldCase [] = []"
| "foldCase (a # s) =
     (if a = CHR 0xC5 \<and> take 1 s = [CHR 0xBF] then CHR ''s'' # foldCase (drop 1 s)
      else if a = CHR 0xE2 \<and> take 2 s = [CHR 0x84, CHR 0xAA] then CHR ''k'' # foldCase (drop 2 s)
      else asciiLower a # foldCase s)"

definition EqualFold :: "string \<Rightarrow> string \<Rightarrow> bool" where
  "EqualFold a b \<longleftrightarrow> foldCase a = foldCase b"

end
