(* ===== verification/CP_Board.thy ===== *)
theory CP_Board
  imports CP_Kernel CP_Privacy
begin

text \<open>
  The operator surfaces: supersession and the board projection of kanban.go, the review packet
  of review.go.  SupersedeTodo is the one operation here that changes state; Kanban and
  ReviewPacket read the stores, redacting the evidence they show.
\<close>

section \<open>Supersession (kanban.go)\<close>

datatype RowLifecycle = RowCurrent | RowSuperseded | RowRetired

fun RowLifecycle_str :: "RowLifecycle \<Rightarrow> string" where
  "RowLifecycle_str RowCurrent = ''current''"
| "RowLifecycle_str RowSuperseded = ''superseded''"
| "RowLifecycle_str RowRetired = ''retired''"

definition successorTodo :: "string \<Rightarrow> string \<Rightarrow> string \<Rightarrow> Todo \<Rightarrow> Todo" where
  "successorTodo uid goalID newDesc old =
     \<lparr>t_ID = uid, t_GoalID = goalID, t_OwnerUserID = '''', t_Description = newDesc,
      t_TaskClass = t_TaskClass old, t_StageID = '''', t_State = TodoOpen,
      t_ClaimedBy = t_ClaimedBy old, t_Continuation = t_Continuation old, t_Order = t_Order old,
      t_Evidence = [], t_Supersedes = t_ID old, t_SupersededBy = '''',
      t_CreatedAt = 0, t_UpdatedAt = 0\<rparr>"

definition supersedeTx :: "instant \<Rightarrow> string \<Rightarrow> Todo \<Rightarrow> Todo \<Rightarrow> Kernel \<Rightarrow> Kernel \<times> unit cp_result" where
  "supersedeTx now goalID successor old =
     andThen (todos_Upsert now successor) (\<lambda>_.
     andThen (todos_Upsert now (old\<lparr>t_State := TodoDeferred, t_SupersededBy := t_ID successor\<rparr>)) (\<lambda>_ k.
     case GoalStore_Get (k_goals k) goalID of
       Inr g \<Rightarrow> if g_CurrentTodoID g = t_ID old
                then goals_Upsert now (g\<lparr>g_CurrentTodoID := t_ID successor\<rparr>) k else (k, Inr ())
     | Inl _ \<Rightarrow> (k, Inr ())))"

text \<open>The successor comes back with the times the store stamped on it.\<close>

definition SupersedeTodo :: "instant \<Rightarrow> string \<Rightarrow> string \<Rightarrow> string \<Rightarrow> string \<Rightarrow> string \<Rightarrow> string \<Rightarrow>
    Kernel \<Rightarrow> Kernel \<times> Todo cp_result" where
  "SupersedeTodo now uid goalID oldTodoID agentID newDesc reason k =
     (case TodoStore_Get (k_todos k) goalID oldTodoID of
        Inl e \<Rightarrow> (k, Inl e)
      | Inr old \<Rightarrow>
          if t_SupersededBy old \<noteq> '''' then (k, Inl (ErrAlreadySuperseded oldTodoID (t_SupersededBy old)))
          else if \<not> LegalTodoTransition (t_State old) TodoDeferred
            then (k, Inl (ErrCannotSupersede oldTodoID (t_State old)))
          else let successor = successorTodo uid goalID newDesc old
          in case runTx (supersedeTx now goalID successor old) k of
               (k, Inl e) \<Rightarrow> (k, Inl e)
             | (k, Inr _) \<Rightarrow>
                 let k = k\<lparr>k_metrics := (k_metrics k)\<lparr>m_supersedes := m_supersedes (k_metrics k) + 1\<rparr>\<rparr>
                 in (record_event now ((newEvent EventDecision ''todo_superseded'' goalID)
                       \<lparr>ev_TodoID := t_ID successor,
                        ev_Detail := [(''superseded'', AnyString (t_ID old)), (''by'', AnyString agentID),
                          (''reason'', AnyString reason),
                          (''row_lifecycle'', AnyString (RowLifecycle_str RowSuperseded))]\<rparr>) k,
                     Inr (stampTodo now successor)))"

definition rowLifecycleOf :: "Todo \<Rightarrow> RowLifecycle" where
  "rowLifecycleOf t =
     (if t_SupersededBy t \<noteq> '''' then RowSuperseded
      else if t_State t = TodoDeferred then RowRetired
      else RowCurrent)"

section \<open>The board (kanban.go)\<close>

record KanbanCard =
  kc_Todo :: Todo
  kc_Lifecycle :: RowLifecycle
  kc_Supersedes :: string
  kc_SupersededBy :: string
  kc_SourceID :: string
  kc_HasOpenGate :: bool

record LineageEdge =
  le_From :: string
  le_To :: string
  le_Reason :: string
  le_At :: instant

record KanbanBoard =
  kb_GoalID :: string
  kb_Objective :: string
  kb_Columns :: "(TodoState, KanbanCard list) gomap"
  kb_Lineage :: "LineageEdge list"

text \<open>The todos with an unresolved gate, as the map built by the first loop.\<close>

definition gateTodos :: "UserGate list \<Rightarrow> (string, bool) gomap" where
  "gateTodos gates =
     foldl (\<lambda>m gt. if ug_TodoID gt \<noteq> '''' then mput (ug_TodoID gt) True m else m) [] gates"

definition addCard :: "(string, bool) gomap \<Rightarrow> KanbanBoard \<Rightarrow> Todo \<Rightarrow> KanbanBoard" where
  "addCard gated board t =
     (let t = t\<lparr>t_Evidence := RedactEvidenceSlice (t_Evidence t)\<rparr>;
          card = \<lparr>kc_Todo = t, kc_Lifecycle = rowLifecycleOf t, kc_Supersedes = t_Supersedes t,
                  kc_SupersededBy = t_SupersededBy t, kc_SourceID = t_ID t,
                  kc_HasOpenGate = (mget gated (t_ID t) = Some True)\<rparr>;
          board = board\<lparr>kb_Columns := mpush (t_State t) card (kb_Columns board)\<rparr>
      in if t_SupersededBy t \<noteq> '''' then
           board\<lparr>kb_Lineage := kb_Lineage board @
             [\<lparr>le_From = t_ID t, le_To = t_SupersededBy t, le_Reason = '''', le_At = t_UpdatedAt t\<rparr>]\<rparr>
         else board)"

definition Kanban :: "(Todo list \<Rightarrow> Todo list) \<Rightarrow> Kernel \<Rightarrow> string \<Rightarrow> KanbanBoard cp_result" where
  "Kanban ord k goalID =
     (case GoalStore_Get (k_goals k) goalID of
        Inl e \<Rightarrow> Inl e
      | Inr g \<Rightarrow>
          let todos = TodoStore_List ord (k_todos k) goalID;
              gated = gateTodos (GateStore_ListUnresolved id (k_gates k) goalID);
              board = \<lparr>kb_GoalID = goalID, kb_Objective = g_Objective g, kb_Columns = [], kb_Lineage = []\<rparr>
          in Inr (foldl (addCard gated) board todos))"

section \<open>The review packet (review.go)\<close>

record ReviewQuota =
  rq_Spent :: int
  rq_Allowed :: int
  rq_Compute :: f64
  rq_WindowHours :: f64
  rq_SlotMinutes :: f64

record ReviewPkt =
  rp_Goal :: Goal
  rp_OpenTodos :: "Todo list"
  rp_PendingGates :: "UserGate list"
  rp_ActivePolicies :: "RewardRecord list"
  rp_RecentWork :: "Event list"
  rp_DecisionLineage :: "Event list"
  rp_Quota :: ReviewQuota

definition readRecent :: "Kernel \<Rightarrow> string \<Rightarrow> int \<Rightarrow> Event list" where
  "readRecent k goalID n = (if n \<le> 0 then [] else Ledger_Last (k_ledger k) goalID n)"

definition ReviewPacket :: "(Todo list \<Rightarrow> Todo list) \<Rightarrow> instant \<Rightarrow> Kernel \<Rightarrow> string \<Rightarrow> ReviewPkt cp_result" where
  "ReviewPacket ord now k goalID =
     (case GoalStore_Get (k_goals k) goalID of
        Inl e \<Rightarrow> Inl e
      | Inr g \<Rightarrow>
          let todos = TodoStore_List ord (k_todos k) goalID;
              recent = readRecent k goalID 20;
              window = quotaWindow (g_Quota g);
              window = (if window \<le> 0 then time_Hour else window);
              spent = SpentInWindow now goalID window (k_spend k)
          in Inr \<lparr>rp_Goal = g,
               rp_OpenTodos = map (\<lambda>t. t\<lparr>t_Evidence := RedactEvidenceSlice (t_Evidence t)\<rparr>)
                                (filter (\<lambda>t. \<not> TodoState_IsTerminal (t_State t)) todos),
               rp_PendingGates = GateStore_ListUnresolved id (k_gates k) goalID,
               rp_ActivePolicies = RewardStore_List (k_rewards k) goalID,
               rp_RecentWork = filter (\<lambda>e. ev_Kind e = EventWork) recent,
               rp_DecisionLineage = recent,
               rp_Quota = \<lparr>rq_Spent = spent, rq_Allowed = AllowedSlots (g_Quota g),
                 rq_Compute = q_Compute (g_Quota g), rq_WindowHours = q_WindowHours (g_Quota g),
                 rq_SlotMinutes = q_SlotMinutes (g_Quota g)\<rparr>\<rparr>)"

section \<open>What the board shows\<close>

text \<open>The cards of a board, column by column.\<close>

definition board_cards :: "KanbanBoard \<Rightarrow> TodoState \<Rightarrow> KanbanCard list" where
  "board_cards b st = mlist (kb_Columns b) st"

definition cardOf :: "(string, bool) gomap \<Rightarrow> Todo \<Rightarrow> KanbanCard" where
  "cardOf gates t =
     (let t = t\<lparr>t_Evidence := RedactEvidenceSlice (t_Evidence t)\<rparr>
      in \<lparr>kc_Todo = t, kc_Lifecycle = rowLifecycleOf t, kc_Supersedes = t_Supersedes t,
          kc_SupersededBy = t_SupersededBy t, kc_SourceID = t_ID t,
          kc_HasOpenGate = (mget gates (t_ID t) = Some True)\<rparr>)"

definition edgeOf :: "Todo \<Rightarrow> LineageEdge" where
  "edgeOf t = \<lparr>le_From = t_ID t, le_To = t_SupersededBy t, le_Reason = '''', le_At = t_UpdatedAt t\<rparr>"

lemma addCard_columns:
  "mlist (kb_Columns (addCard gates b t)) st =
     mlist (kb_Columns b) st @ (if t_State t = st then [cardOf gates t] else [])"
  by (simp add: addCard_def cardOf_def Let_def gomap_simps)

lemma addCard_lineage:
  "kb_Lineage (addCard gates b t) =
     kb_Lineage b @ (if t_SupersededBy t \<noteq> '''' then [edgeOf t] else [])"
  by (simp add: addCard_def edgeOf_def Let_def)

lemma fold_addCard_columns:
  "mlist (kb_Columns (foldl (addCard gates) b ts)) st =
     mlist (kb_Columns b) st @ map (cardOf gates) (filter (\<lambda>t. t_State t = st) ts)"
  by (induction ts arbitrary: b) (simp_all add: addCard_columns)

lemma fold_addCard_lineage:
  "kb_Lineage (foldl (addCard gates) b ts) =
     kb_Lineage b @ map edgeOf (filter (\<lambda>t. t_SupersededBy t \<noteq> '''') ts)"
  by (induction ts arbitrary: b) (simp_all add: addCard_lineage)

lemma mget_gateTodos:
  "mget (gateTodos gs) i = Some True \<longleftrightarrow> i \<noteq> '''' \<and> i \<in> ug_TodoID ` set gs"
proof -
  have "mget (foldl (\<lambda>m gt. if ug_TodoID gt \<noteq> '''' then mput (ug_TodoID gt) True m else m) m gs) i = Some True
      \<longleftrightarrow> mget m i = Some True \<or> i \<noteq> '''' \<and> i \<in> ug_TodoID ` set gs" for m
    by (induction gs arbitrary: m) (auto simp: gomap_simps)
  then show ?thesis by (simp add: gateTodos_def)
qed

end
