(* ===== verification/CP_Effects.thy ===== *)
theory CP_Effects
  imports CP_Decisions CP_Board
begin

text \<open>
  What each operator of the Kernel does to the state: nothing, or the update its lemma spells
  out.  In particular a call that returns an error leaves the durable stores as they were, also
  without a transaction wrapper.  The invariants are proved from these lemmas alone.
\<close>

section \<open>Claims and gates\<close>

lemma Claim_effect:
  obtains "fst (Claim now g i a k) = k"
  | t where "TodoStore_Get (k_todos k) g i = Inr t" "t_State t = TodoOpen"
      "t_ClaimedBy t = '''' \<or> t_ClaimedBy t = a"
      "fst (Claim now g i a k) =
         k\<lparr>k_todos := fst (TodoStore_Upsert now (t\<lparr>t_ClaimedBy := a\<rparr>) (k_todos k))\<rparr>"
proof (cases "\<exists>t. TodoStore_Get (k_todos k) g i = Inr t \<and> t_State t = TodoOpen
    \<and> (t_ClaimedBy t = '''' \<or> t_ClaimedBy t = a)")
  case True
  then obtain t where t: "TodoStore_Get (k_todos k) g i = Inr t" "t_State t = TodoOpen"
    "t_ClaimedBy t = '''' \<or> t_ClaimedBy t = a" by blast
  then have "fst (Claim now g i a k) =
      k\<lparr>k_todos := fst (TodoStore_Upsert now (t\<lparr>t_ClaimedBy := a\<rparr>) (k_todos k))\<rparr>"
    by (auto simp: Claim_def todos_Upsert_def split: prod.splits)
  with t show thesis by (rule that(2))
next
  case False
  then have "fst (Claim now g i a k) = k"
    by (auto simp: Claim_def split: sum.splits)
  then show thesis by (rule that(1))
qed

lemma Claim_ok_iff:
  assumes "todos_wf (k_todos k)"
  shows "isOk (snd (Claim now g i a k)) \<longleftrightarrow>
    (\<exists>t. TodoStore_Get (k_todos k) g i = Inr t \<and> t_State t = TodoOpen \<and> t_ClaimedBy t \<in> {'''', a})"
  using assms
  by (auto simp: Claim_def todos_Upsert_def TodoStore_Upsert_def TodoStore_Get_get2 todos_wf_def
      split: option.splits sum.splits)

definition withFreshID :: "string \<Rightarrow> UserGate \<Rightarrow> UserGate" where
  "withFreshID uid gate = (if ug_GateID gate = '''' then gate\<lparr>ug_GateID := uid\<rparr> else gate)"

lemma OpenGate_effect:
  obtains "fst (OpenGate now uid gate k) = k"
  | l m where "\<not> (\<exists>g. GateStore_Get (k_gates k) (ug_GoalID gate) (ug_GateID (withFreshID uid gate)) = Inr g
                  \<and> Gate_IsResolved g)"
      "gate_admissible (withFreshID uid gate)"
      "fst (OpenGate now uid gate k) = k\<lparr>k_gates := fst (GateStore_Upsert now (withFreshID uid gate) (k_gates k)),
         k_metrics := m, k_ledger := l\<rparr>"
proof -
  let ?g = "withFreshID uid gate"
  let ?dup = "\<exists>g. GateStore_Get (k_gates k) (ug_GoalID gate) (ug_GateID ?g) = Inr g \<and> Gate_IsResolved g"
  have gid: "ug_GoalID ?g = ug_GoalID gate" by (simp add: withFreshID_def)
  have dup: "(case GateStore_Get (k_gates k) (ug_GoalID ?g) (ug_GateID ?g) of
      Inr existing \<Rightarrow> Gate_IsResolved existing | Inl _ \<Rightarrow> False) \<longleftrightarrow> ?dup"
    by (simp add: gid split: sum.splits)
  consider "?dup" | "\<not> ?dup" "\<not> gate_admissible ?g" | "\<not> ?dup" "gate_admissible ?g" by blast
  then show thesis
  proof cases
    case 1
    then have "fst (OpenGate now uid gate k) = k"
      unfolding OpenGate_def Let_def withFreshID_def [symmetric] dup by simp
    then show thesis by (rule that(1))
  next
    case 2
    from gates.upsert_rejects [OF 2(2), of now "k_gates k"]
    obtain e where "GateStore_Upsert now ?g (k_gates k) = (k_gates k, Inl e)"
      by (cases "GateStore_Upsert now ?g (k_gates k)"; cases "snd (GateStore_Upsert now ?g (k_gates k))") auto
    then have "fst (OpenGate now uid gate k) = k"
      unfolding OpenGate_def Let_def withFreshID_def [symmetric] dup if_not_P [OF 2(1)]
      by (simp add: gates_Upsert_def)
    then show thesis by (rule that(1))
  next
    case 3
    obtain s where s: "GateStore_Upsert now ?g (k_gates k) = (s, Inr ())"
      using gates.upsert_accepts [OF 3(2), of now "k_gates k"] by (metis prod.collapse)
    then have "fst (OpenGate now uid gate k) = k\<lparr>k_gates := fst (GateStore_Upsert now ?g (k_gates k)),
         k_metrics := k_metrics (fst (OpenGate now uid gate k)),
         k_ledger := k_ledger (fst (OpenGate now uid gate k))\<rparr>"
      unfolding OpenGate_def Let_def withFreshID_def [symmetric] dup if_not_P [OF 3(1)]
      by (simp add: gates_Upsert_def record_event_def)
    with 3 show thesis by (intro that(2)) auto
  qed
qed

lemma ResolveGate_effect:
  obtains "fst (ResolveGate now g i oc k) = k" "\<not> isOk (snd (ResolveGate now g i oc k))"
  | gt l m where "GateStore_Get (k_gates k) g i = Inr gt" "\<not> Gate_IsResolved gt"
      "ug_Resolvers gt = [] \<or> go_By oc \<in> set (ug_Resolvers gt)"
      "snd (GateStore_Upsert now (gt\<lparr>ug_Outcome := Some oc, ug_ResolvedAt := now\<rparr>) (k_gates k)) = Inr ()"
      "fst (ResolveGate now g i oc k) =
         k\<lparr>k_gates := fst (GateStore_Upsert now (gt\<lparr>ug_Outcome := Some oc, ug_ResolvedAt := now\<rparr>) (k_gates k)),
           k_metrics := m, k_ledger := l\<rparr>"
      "isOk (snd (ResolveGate now g i oc k))"
proof (cases "GateStore_Get (k_gates k) g i")
  case (Inl e)
  then show thesis by (intro that(1)) (simp_all add: ResolveGate_def)
next
  case (Inr gt)
  let ?g = "gt\<lparr>ug_Outcome := Some oc, ug_ResolvedAt := now\<rparr>"
  show thesis
  proof (cases "Gate_IsResolved gt \<or> 0 < length (ug_Resolvers gt) \<and> \<not> containsString (ug_Resolvers gt) (go_By oc)")
    case True
    with Inr show thesis by (intro that(1)) (auto simp: ResolveGate_def)
  next
    case False
    show thesis
    proof (cases "gate_admissible ?g")
      case True
      from gates.upsert_accepts [OF True] have ok: "snd (GateStore_Upsert now ?g (k_gates k)) = Inr ()" .
      have "fst (ResolveGate now g i oc k) = k\<lparr>k_gates := fst (GateStore_Upsert now ?g (k_gates k)),
           k_metrics := k_metrics (fst (ResolveGate now g i oc k)),
           k_ledger := k_ledger (fst (ResolveGate now g i oc k))\<rparr>"
        and "isOk (snd (ResolveGate now g i oc k))"
        using Inr False ok
        by (auto simp: ResolveGate_def gates_Upsert_def record_event_def Let_def split: prod.splits)
      with False Inr ok show thesis using that(2) [of gt] by auto
    next
      case bad: False
      from gates.upsert_rejects [OF bad, of now "k_gates k"] show thesis
        using Inr False
        by (intro that(1)) (auto simp: ResolveGate_def gates_Upsert_def split: prod.splits sum.splits)
    qed
  qed
qed

section \<open>SpendSlot\<close>

text \<open>The state after the transaction of an executed spend.\<close>

definition spent_state :: "instant \<Rightarrow> string \<Rightarrow> string \<Rightarrow> SpendOpts \<Rightarrow> Delivery \<Rightarrow> Kernel \<Rightarrow> Kernel" where
  "spent_state now g t opts del k =
     k\<lparr>k_tickets := (if k_enforceTicket k then fst (TicketStore_Consume g t (so_Token opts) (k_tickets k))
                     else k_tickets k),
       k_deliveries := put2 g t (del\<lparr>d_Spent := True\<rparr>) (k_deliveries k),
       k_spend := fst (SpendLog_Append now \<lparr>se_GoalID = g, se_TurnID = t, se_Slots = d_Slots del,
          se_Reason = so_Reason opts, se_SpentAt = now\<rparr> (k_spend k)),
       k_ledger := fst (Ledger_Append now ((newEvent EventAccounting ''quota_slot_spent'' g)
         \<lparr>ev_TurnID := t, ev_Detail := [(''slots'', AnyInt (d_Slots del)),
             (''reason'', AnyString (so_Reason opts))]\<rparr>) (k_ledger k))\<rparr>"

text \<open>Whether the ticket check lets an execute-spend pass.\<close>

definition ticket_passes :: "instant \<Rightarrow> string \<Rightarrow> string \<Rightarrow> SpendOpts \<Rightarrow> Kernel \<Rightarrow> bool" where
  "ticket_passes now g t opts k \<longleftrightarrow> k_enforceTicket k \<longrightarrow>
     so_Token opts \<noteq> '''' \<and> dec_ShouldRun (snd (shouldRun now '''' g '''' '''' k)) \<and>
     isOk (snd (TicketStore_Consume g t (so_Token opts) (k_tickets k)))"

lemma spendTicket_unfold:
  "spendTicket now g t opts k =
     (if k_enforceTicket k then
        if so_Token opts = '''' then (k, Inl ErrTicketTokenMismatch)
        else if \<not> dec_ShouldRun (snd (shouldRun now '''' g '''' '''' k))
          then (k, Inl (ErrStaleTicket (dec_State (snd (shouldRun now '''' g '''' '''' k)))))
        else tickets_Consume g t (so_Token opts) k
      else (k, Inr ()))"
  by (simp add: spendTicket_def Let_def split_beta)

lemma spendTicket_pass:
  "ticket_passes now g t opts k \<Longrightarrow> spendTicket now g t opts k =
     (k\<lparr>k_tickets := (if k_enforceTicket k then fst (TicketStore_Consume g t (so_Token opts) (k_tickets k))
                      else k_tickets k)\<rparr>, Inr ())"
  by (simp add: spendTicket_unfold ticket_passes_def tickets_Consume_def split_beta isOk_iff)

lemma spendTicket_fail:
  "\<not> ticket_passes now g t opts k \<Longrightarrow> \<exists>e. spendTicket now g t opts k = (k, Inl e)"
  using Consume_fail_same [of g t "so_Token opts" "k_tickets k"]
  by (cases "snd (TicketStore_Consume g t (so_Token opts) (k_tickets k))")
    (auto simp: spendTicket_unfold ticket_passes_def tickets_Consume_def split_beta)

lemma spendTx_pass:
  assumes "get2 (k_deliveries k) g t = Some del" and "\<not> d_Spent del" and "ticket_passes now g t opts k"
  shows "spendTx now g t opts del k = (spent_state now g t opts del k, Inr ())"
proof -
  let ?k = "k\<lparr>k_tickets := (if k_enforceTicket k then fst (TicketStore_Consume g t (so_Token opts) (k_tickets k))
       else k_tickets k)\<rparr>"
  have mark: "deliveries_MarkSpent g t ?k =
      (?k\<lparr>k_deliveries := put2 g t (del\<lparr>d_Spent := True\<rparr>) (k_deliveries k)\<rparr>, Inr True)"
    using assms(1,2) by (simp add: deliveries_MarkSpent_def DeliveryStore_MarkSpent_def)
  show ?thesis
    unfolding spendTx_def andThen_def spendTicket_pass [OF assms(3)] prod.case sum.case mark
    by (simp add: spend_Append_def ledger_Append_def spent_state_def)
qed

lemma spendTx_fail:
  assumes "\<not> ticket_passes now g t opts k"
  shows "\<exists>e. spendTx now g t opts del k = (k, Inl e)"
proof -
  from spendTicket_fail [OF assms] obtain e where "spendTicket now g t opts k = (k, Inl e)" by blast
  then show ?thesis unfolding spendTx_def by (auto simp: andThen_simps(1))
qed

text \<open>SpendSlot either commits everything or changes nothing, with or without transactions.\<close>

lemma SpendSlot_effect:
  obtains "fst (SpendSlot now g t opts k) = k"
      "so_Execute opts \<Longrightarrow> \<not> isOk (snd (SpendSlot now g t opts k))"
  | del m where "get2 (k_deliveries k) g t = Some del" "\<not> d_Spent del" "so_Execute opts"
      "ticket_passes now g t opts k"
      "fst (SpendSlot now g t opts k) = (spent_state now g t opts del k)\<lparr>k_metrics := m\<rparr>"
      "isOk (snd (SpendSlot now g t opts k))"
proof (cases "get2 (k_deliveries k) g t")
  case None
  then show thesis by (intro that(1)) (simp_all add: SpendSlot_def DeliveryStore_Get_def)
next
  case (Some del)
  show thesis
  proof (cases "d_Spent del \<or> \<not> so_Execute opts")
    case True
    with Some show thesis by (intro that(1)) (auto simp: SpendSlot_def DeliveryStore_Get_def Let_def)
  next
    case False
    then have ns: "\<not> d_Spent del" and ex: "so_Execute opts" by simp_all
    show thesis
    proof (cases "ticket_passes now g t opts k")
      case True
      from spendTx_pass [OF Some ns True]
      have "fst (SpendSlot now g t opts k) = (spent_state now g t opts del k)
          \<lparr>k_metrics := k_metrics (fst (SpendSlot now g t opts k))\<rparr>"
        and "isOk (snd (SpendSlot now g t opts k))"
        using Some ns ex by (simp_all add: SpendSlot_def DeliveryStore_Get_def Let_def runTx_def)
      with that(2) [OF Some ns ex True] show thesis by blast
    next
      case np: False
      from spendTx_fail [OF np] obtain e where "spendTx now g t opts del k = (k, Inl e)" by blast
      with Some ns ex have "fst (SpendSlot now g t opts k) = k" "\<not> isOk (snd (SpendSlot now g t opts k))"
        by (simp_all add: SpendSlot_def DeliveryStore_Get_def Let_def runTx_def)
      with that(1) show thesis by blast
    qed
  qed
qed

section \<open>Writeback\<close>

text \<open>The todo as Writeback stores it and the delivery it records for turn \<open>turn\<close>.\<close>

definition wroteTodo :: "ValidatedWriteback \<Rightarrow> Todo \<Rightarrow> Todo" where
  "wroteTodo wb t =
     (let t = t\<lparr>t_Evidence := t_Evidence t @ wb_Evidence wb\<rparr>
      in if o_Status (wb_Outcome wb) = OutcomeCompletion then t\<lparr>t_State := TodoDone\<rparr> else t)"

definition wroteDelivery :: "ValidatedWriteback \<Rightarrow> string \<Rightarrow> Delivery" where
  "wroteDelivery wb turn = \<lparr>d_GoalID = wb_GoalID wb, d_TurnID = turn, d_TodoID = wb_TodoID wb,
     d_Outcome = o_Status (wb_Outcome wb), d_Slots = 1, d_Spent = False, d_CreatedAt = 0\<rparr>"

definition turnOf :: "string \<Rightarrow> ValidatedWriteback \<Rightarrow> string" where
  "turnOf uid wb = (if wb_TurnID wb = '''' then uid else wb_TurnID wb)"

definition accountable :: "ValidatedWriteback \<Rightarrow> bool" where
  "accountable wb = IsAccountable (o_Status (wb_Outcome wb))"

text \<open>The checks between the reading of the todo and the transaction.\<close>

definition writeback_allowed :: "Kernel \<Rightarrow> ValidatedWriteback \<Rightarrow> Todo \<Rightarrow> bool" where
  "writeback_allowed k wb t \<longleftrightarrow>
     (t_ClaimedBy t = '''' \<or> wb_AgentID wb = '''' \<or> t_ClaimedBy t = wb_AgentID wb) \<and>
     (o_Status (wb_Outcome wb) = OutcomeCompletion \<longrightarrow> LegalTodoTransition (t_State t) TodoDone \<and>
       (\<forall>g. mget (k_goals k) (wb_GoalID wb) = Some g \<and> laneStageGated k g t \<longrightarrow>
            hasApprovedGate k (wb_GoalID wb) (wb_TodoID wb)))"

lemma wroteTodo_simps [simp]:
  "t_ID (wroteTodo wb t) = t_ID t"
  "t_GoalID (wroteTodo wb t) = t_GoalID t"
  "t_Evidence (wroteTodo wb t) = t_Evidence t @ wb_Evidence wb"
  "t_ClaimedBy (wroteTodo wb t) = t_ClaimedBy t"
  "t_Supersedes (wroteTodo wb t) = t_Supersedes t"
  "t_SupersededBy (wroteTodo wb t) = t_SupersededBy t"
  "t_StageID (wroteTodo wb t) = t_StageID t"
  "t_State (wroteTodo wb t) =
     (if o_Status (wb_Outcome wb) = OutcomeCompletion then TodoDone else t_State t)"
  by (simp_all add: wroteTodo_def Let_def)

lemma laneStageGated_cong: "t_StageID t = t_StageID t' \<Longrightarrow> laneStageGated k g t = laneStageGated k g t'"
  by (cases "Registry_Get (k_capabilities k) (g_CapabilityID g)") (simp_all add: laneStageGated_def)

lemma lane_check_iff:
  "(case GoalStore_Get (k_goals k) i of Inr goal \<Rightarrow> laneStageGated k goal (t\<lparr>t_Evidence := e\<rparr>) | Inl _ \<Rightarrow> False)
     \<longleftrightarrow> (\<exists>g. mget (k_goals k) i = Some g \<and> laneStageGated k g t)"
  using laneStageGated_cong [of "t\<lparr>t_Evidence := e\<rparr>" t k]
  by (simp add: GoalStore_Get_def split: option.splits)

lemma writebackTx_pass:
  assumes "t_ID t \<noteq> ''''" "t_GoalID t \<noteq> ''''" "wb_GoalID wb \<noteq> ''''" "wb_TurnID wb \<noteq> ''''"
  obtains l r where "writebackTx now uid wb t k =
    (k\<lparr>k_todos := fst (TodoStore_Upsert now t (k_todos k)), k_ledger := l, k_rewards := r,
       k_deliveries := (if accountable wb
          then fst (DeliveryStore_Record now (wroteDelivery wb (wb_TurnID wb)) (k_deliveries k))
          else k_deliveries k)\<rparr>, Inr ())"
proof -
  have rec: "snd (DeliveryStore_Record now (wroteDelivery wb (wb_TurnID wb)) s) = Inr ()" for s
    using assms by (simp add: DeliveryStore_Record_def wroteDelivery_def Let_def split: option.splits)
  have "writebackTx now uid wb t k =
    (k\<lparr>k_todos := fst (TodoStore_Upsert now t (k_todos k)),
       k_ledger := k_ledger (fst (writebackTx now uid wb t k)),
       k_rewards := k_rewards (fst (writebackTx now uid wb t k)),
       k_deliveries := (if accountable wb
          then fst (DeliveryStore_Record now (wroteDelivery wb (wb_TurnID wb)) (k_deliveries k))
          else k_deliveries k)\<rparr>, Inr ())"
    using assms rec
    by (simp add: writebackTx_def andThen_def todos_Upsert_def TodoStore_Upsert_def ledger_Append_def
        rewards_Add_def RewardStore_Add_def deliveries_Record_def Let_def split_beta accountable_def
        wroteDelivery_def [symmetric])
  then show thesis by (rule that)
qed

lemma writebackTodo_effect:
  assumes "t_ID t \<noteq> ''''" "t_GoalID t \<noteq> ''''" "wb_GoalID wb \<noteq> ''''" "uidTurn \<noteq> ''''"
  obtains "\<not> writeback_allowed k wb t" "fst (writebackTodo now uidTurn uidReward wb t k) = k"
      "\<not> isOk (snd (writebackTodo now uidTurn uidReward wb t k))"
  | l r m where "writeback_allowed k wb t" "fst (writebackTodo now uidTurn uidReward wb t k) =
      k\<lparr>k_todos := fst (TodoStore_Upsert now (wroteTodo wb t) (k_todos k)), k_ledger := l, k_rewards := r,
        k_deliveries := (if accountable wb
          then fst (DeliveryStore_Record now (wroteDelivery wb (turnOf uidTurn wb)) (k_deliveries k))
          else k_deliveries k), k_metrics := m\<rparr>"
      "snd (writebackTodo now uidTurn uidReward wb t k) = Inr (if accountable wb then turnOf uidTurn wb else '''')"
proof (cases "writeback_allowed k wb t")
  case False
  then have "\<exists>e. writebackTodo now uidTurn uidReward wb t k = (k, Inl e)"
    unfolding writebackTodo_def writeback_allowed_def Let_def lane_check_iff by auto
  then show thesis using that(1) [OF False] by auto
next
  case True
  let ?wb = "if wb_TurnID wb = '''' then wb\<lparr>wb_TurnID := uidTurn\<rparr> else wb"
  let ?t = "wroteTodo wb t"
  have "t_ID ?t \<noteq> ''''" "t_GoalID ?t \<noteq> ''''" "wb_GoalID ?wb \<noteq> ''''" "wb_TurnID ?wb \<noteq> ''''"
    using assms by simp_all
  from writebackTx_pass [OF this, of now uidReward k] obtain l r where
    tx: "writebackTx now uidReward ?wb ?t k =
      (k\<lparr>k_todos := fst (TodoStore_Upsert now ?t (k_todos k)), k_ledger := l, k_rewards := r,
       k_deliveries := (if accountable ?wb
          then fst (DeliveryStore_Record now (wroteDelivery ?wb (wb_TurnID ?wb)) (k_deliveries k))
          else k_deliveries k)\<rparr>, Inr ())" .
  have eqs: "accountable ?wb = accountable wb" "wb_TurnID ?wb = turnOf uidTurn wb"
    "wroteDelivery ?wb u = wroteDelivery wb u" "o_Status (wb_Outcome ?wb) = o_Status (wb_Outcome wb)" for u
    by (simp_all add: accountable_def turnOf_def wroteDelivery_def)
  from tx have run: "runTx (writebackTx now uidReward ?wb ?t) k =
      (k\<lparr>k_todos := fst (TodoStore_Upsert now ?t (k_todos k)), k_ledger := l, k_rewards := r,
       k_deliveries := (if accountable wb
          then fst (DeliveryStore_Record now (wroteDelivery wb (turnOf uidTurn wb)) (k_deliveries k))
          else k_deliveries k)\<rparr>, Inr ())" (is "_ = (?k, _)")
    unfolding runTx_def eqs by simp
  have "writebackTodo now uidTurn uidReward wb t k =
      (case runTx (writebackTx now uidReward ?wb ?t) k of
         (k, Inl e) \<Rightarrow> (k, Inl e)
       | (k, Inr _) \<Rightarrow>
           (k\<lparr>k_metrics := (k_metrics k)\<lparr>m_writebacks := m_writebacks (k_metrics k) + 1\<rparr>\<rparr>,
            Inr (if \<not> IsAccountable (o_Status (wb_Outcome ?wb)) then '''' else wb_TurnID ?wb)))"
    using True unfolding writebackTodo_def writeback_allowed_def wroteTodo_def Let_def lane_check_iff
    by auto
  then have "writebackTodo now uidTurn uidReward wb t k =
      (?k\<lparr>k_metrics := (k_metrics k)\<lparr>m_writebacks := m_writebacks (k_metrics k) + 1\<rparr>\<rparr>,
       Inr (if accountable wb then turnOf uidTurn wb else ''''))"
    unfolding run eqs accountable_def by simp
  then show thesis using that(2) [OF True] by simp
qed

text \<open>The turn was already written back: an accountable writeback for it returns at once.\<close>

definition already_written :: "Kernel \<Rightarrow> ValidatedWriteback \<Rightarrow> bool" where
  "already_written k wb \<longleftrightarrow> accountable wb \<and> wb_TurnID wb \<noteq> '''' \<and>
     (\<exists>d. get2 (k_deliveries k) (wb_GoalID wb) (wb_TurnID wb) = Some d)"

lemma Validate_ids: "Validate wb = Inr () \<Longrightarrow> wb_GoalID wb \<noteq> '''' \<and> wb_TodoID wb \<noteq> ''''
    \<and> (accountable wb \<longrightarrow> wb_Evidence wb \<noteq> [])"
  by (auto simp: Validate_def accountable_def split: if_splits)

lemma Writeback_effect:
  assumes "todos_wf (k_todos k)" and "uidTurn \<noteq> ''''"
  obtains "fst (Writeback now uidTurn uidReward wb k) = k"
  | t l r m where "Validate wb = Inr ()" "\<not> already_written k wb"
      "get2 (k_todos k) (wb_GoalID wb) (wb_TodoID wb) = Some t" "writeback_allowed k wb t"
      "fst (Writeback now uidTurn uidReward wb k) =
        k\<lparr>k_todos := fst (TodoStore_Upsert now (wroteTodo wb t) (k_todos k)), k_ledger := l, k_rewards := r,
          k_deliveries := (if accountable wb
            then fst (DeliveryStore_Record now (wroteDelivery wb (turnOf uidTurn wb)) (k_deliveries k))
            else k_deliveries k), k_metrics := m\<rparr>"
      "snd (Writeback now uidTurn uidReward wb k) = Inr (if accountable wb then turnOf uidTurn wb else '''')"
proof -
  have aw: "(IsAccountable (o_Status (wb_Outcome wb)) \<and> wb_TurnID wb \<noteq> ''''
      \<and> isOk (DeliveryStore_Get (k_deliveries k) (wb_GoalID wb) (wb_TurnID wb))) \<longleftrightarrow> already_written k wb"
    by (auto simp: already_written_def accountable_def DeliveryStore_Get_def split: option.splits)
  note unf = Writeback_def [of now uidTurn uidReward wb k, unfolded aw]
  show thesis
  proof (cases "Validate wb")
    case (Inl e)
    then show thesis by (intro that(1)) (simp add: unf)
  next
    case (Inr u)
    then have v: "Validate wb = Inr ()" by simp
    show thesis
    proof (cases "already_written k wb")
      case True
      with v show thesis by (intro that(1)) (simp add: unf)
    next
      case False
      show thesis
      proof (cases "get2 (k_todos k) (wb_GoalID wb) (wb_TodoID wb)")
        case None
        with v False show thesis by (intro that(1)) (simp add: unf TodoStore_Get_get2)
      next
        case (Some t)
        with assms(1) have ids: "t_ID t \<noteq> ''''" "t_GoalID t \<noteq> ''''" by (auto simp: todos_wf_def)
        from v have g: "wb_GoalID wb \<noteq> ''''" by (simp add: Validate_ids)
        have eq: "Writeback now uidTurn uidReward wb k = writebackTodo now uidTurn uidReward wb t k"
          using v False Some by (simp add: unf TodoStore_Get_get2)
        show thesis
          by (rule writebackTodo_effect [OF ids g assms(2), of k now uidReward])
            (use that eq v False Some in auto)
      qed
    qed
  qed
qed

section \<open>Supersession\<close>

lemma SupersedeTodo_effect:
  assumes "todos_wf (k_todos k)" and "uid \<noteq> ''''"
    and keyed: "\<And>i g. mget (k_goals k) i = Some g \<Longrightarrow> g_ID g = i"
  obtains "fst (SupersedeTodo now uid g i a desc why k) = k" "\<not> isOk (snd (SupersedeTodo now uid g i a desc why k))"
  | old goals l m where "get2 (k_todos k) g i = Some old" "t_SupersededBy old = ''''"
      "LegalTodoTransition (t_State old) TodoDeferred"
      "fst (SupersedeTodo now uid g i a desc why k) =
         k\<lparr>k_todos := fst (TodoStore_Upsert now (old\<lparr>t_State := TodoDeferred, t_SupersededBy := uid\<rparr>)
             (fst (TodoStore_Upsert now (successorTodo uid g desc old) (k_todos k)))),
           k_goals := goals, k_metrics := m, k_ledger := l\<rparr>"
      "goals = (case mget (k_goals k) g of
          Some gl \<Rightarrow> if g_CurrentTodoID gl = i
            then fst (GoalStore_Upsert now (gl\<lparr>g_CurrentTodoID := uid\<rparr>) (k_goals k)) else k_goals k
        | None \<Rightarrow> k_goals k)"
      "snd (SupersedeTodo now uid g i a desc why k) = Inr (stampTodo now (successorTodo uid g desc old))"
proof (cases "get2 (k_todos k) g i")
  case None
  then show thesis by (intro that(1)) (simp_all add: SupersedeTodo_def TodoStore_Get_get2)
next
  case (Some old)
  with assms(1) have ids: "t_ID old = i" "t_GoalID old = g" "i \<noteq> ''''" "g \<noteq> ''''"
    by (auto simp: todos_wf_def)
  show thesis
  proof (cases "t_SupersededBy old = '''' \<and> LegalTodoTransition (t_State old) TodoDeferred")
    case False
    with Some show thesis by (intro that(1)) (auto simp: SupersedeTodo_def TodoStore_Get_get2)
  next
    case True
    let ?s = "successorTodo uid g desc old"
    have sid: "t_ID ?s = uid" "t_GoalID ?s = g" by (simp_all add: successorTodo_def)
    define goals where "goals = (case mget (k_goals k) g of
          Some gl \<Rightarrow> if g_CurrentTodoID gl = i
            then fst (GoalStore_Upsert now (gl\<lparr>g_CurrentTodoID := uid\<rparr>) (k_goals k)) else k_goals k
        | None \<Rightarrow> k_goals k)"
    have gok: "snd (GoalStore_Upsert now (gl\<lparr>g_CurrentTodoID := uid\<rparr>) (k_goals k)) = Inr ()"
      if "mget (k_goals k) g = Some gl" for gl
      using keyed [OF that] ids(4) by (simp add: GoalStore_Upsert_def)
    have tx: "supersedeTx now g ?s old k =
      (k\<lparr>k_todos := fst (TodoStore_Upsert now (old\<lparr>t_State := TodoDeferred, t_SupersededBy := uid\<rparr>)
             (fst (TodoStore_Upsert now ?s (k_todos k)))), k_goals := goals\<rparr>, Inr ())"
      using ids sid assms(2) gok
      by (cases "mget (k_goals k) g")
        (simp_all add: supersedeTx_def andThen_def todos_Upsert_def TodoStore_Upsert_def GoalStore_Get_def
          goals_Upsert_def goals_def split_beta)
    have "fst (SupersedeTodo now uid g i a desc why k) =
         k\<lparr>k_todos := fst (TodoStore_Upsert now (old\<lparr>t_State := TodoDeferred, t_SupersededBy := uid\<rparr>)
             (fst (TodoStore_Upsert now ?s (k_todos k)))), k_goals := goals,
           k_metrics := k_metrics (fst (SupersedeTodo now uid g i a desc why k)),
           k_ledger := k_ledger (fst (SupersedeTodo now uid g i a desc why k))\<rparr>"
      and "snd (SupersedeTodo now uid g i a desc why k) = Inr (stampTodo now ?s)"
      using Some True tx
      by (simp_all add: SupersedeTodo_def TodoStore_Get_get2 runTx_def Let_def record_event_def)
    with Some True goals_def show thesis by (intro that(2)) auto
  qed
qed

end
