(* ===== verification/CP_Invariants.thy ===== *)
theory CP_Invariants
  imports CP_Effects
begin

text \<open>
  The reachable states of the Kernel.  \<open>kstep\<close> has a rule per operator, plus the two
  writes the gateway makes through the exposed stores: a goal is created or patched, a todo is
  created open under a fresh id.  UUIDs are fresh: a step that draws one takes an id the store
  does not hold.  Reaping is left out of \<open>kstep\<close>: it forgets finished turns, and
  \<open>CP_Maintenance\<close> shows what that costs.

  The invariants, each proved from the effect lemmas: the stores are well formed; a turn's
  delivery is spent exactly when the spend log charges it, and no turn is charged twice; under
  ticket enforcement a charged turn has used up its ticket; a finished todo has evidence and a
  delivery of its completion; supersession links point both ways.
\<close>

section \<open>Steps\<close>

definition openTodo :: "Todo \<Rightarrow> bool" where
  "openTodo t \<longleftrightarrow> t_State t = TodoOpen \<and> t_Supersedes t = '''' \<and> t_SupersededBy t = ''''"

definition fresh_turn :: "Kernel \<Rightarrow> string \<Rightarrow> string \<Rightarrow> bool" where
  "fresh_turn k g uid \<longleftrightarrow> uid \<noteq> '''' \<and> get2 (k_deliveries k) g uid = None"

definition fresh_todo :: "Kernel \<Rightarrow> string \<Rightarrow> string \<Rightarrow> bool" where
  "fresh_todo k g uid \<longleftrightarrow> uid \<noteq> '''' \<and> get2 (k_todos k) g uid = None"

inductive kstep :: "Kernel \<Rightarrow> Kernel \<Rightarrow> bool" where
  put_goal: "kstep k (fst (goals_Upsert now g k))"
| new_todo: "openTodo t \<Longrightarrow> fresh_todo k (t_GoalID t) (t_ID t) \<Longrightarrow> kstep k (fst (todos_Upsert now t k))"
| should_run: "kstep k (fst (shouldRunCounted now uid g a turn k))"
| tick: "kstep k (fst (Tick now uid g a turn k))"
| claim: "kstep k (fst (Claim now g i a k))"
| open_gate: "kstep k (fst (OpenGate now uid gate k))"
| resolve_gate: "kstep k (fst (ResolveGate now g i oc k))"
| acquire_lease: "kstep k (fst (AcquireLease now g i ow ttl k))"
| release_lease: "kstep k (fst (ReleaseLease now g i ow k))"
| inspect_lease: "kstep k (fst (InspectLease now g i k))"
| record_reward: "kstep k (fst (RecordReward now uid g r k))"
| revoke_reward: "kstep k (fst (RevokeReward now g i k))"
| writeback: "fresh_turn k (wb_GoalID wb) uid \<Longrightarrow> kstep k (fst (Writeback now uid uidR wb k))"
| spend: "kstep k (fst (SpendSlot now g turn opts k))"
| supersede: "fresh_todo k g uid \<Longrightarrow> kstep k (fst (SupersedeTodo now uid g i a desc why k))"
| compact: "kstep k (CompactHistory now g n k)"

inductive kreach :: "Kernel \<Rightarrow> bool" where
  start: "kreach (NewKernel\<lparr>k_enforceTicket := enforce, k_txStarter := tx\<rparr>)"
| step: "kreach k \<Longrightarrow> kstep k k' \<Longrightarrow> kreach k'"

section \<open>What the small operators leave alone\<close>

text \<open>Operators outside Claim, Tick, Writeback, SpendSlot and SupersedeTodo touch none of the
  stores the invariants speak of, but for the tickets ShouldRun mints and the gates.\<close>

definition same_work :: "Kernel \<Rightarrow> Kernel \<Rightarrow> bool" where
  "same_work k k' \<longleftrightarrow> k_todos k' = k_todos k \<and> k_deliveries k' = k_deliveries k \<and> k_spend k' = k_spend k
     \<and> k_tickets k' = k_tickets k \<and> k_goals k' = k_goals k \<and> k_enforceTicket k' = k_enforceTicket k"

lemma record_event_same [simp]:
  "same_work k (record_event now e k')  = same_work k k'"
  "k_gates (record_event now e k') = k_gates k'"
  by (simp_all add: record_event_def same_work_def)

lemma lease_ops_same:
  "same_work k (fst (AcquireLease now g i ow ttl k))" "k_gates (fst (AcquireLease now g i ow ttl k)) = k_gates k"
  "same_work k (fst (ReleaseLease now g i ow k))" "k_gates (fst (ReleaseLease now g i ow k)) = k_gates k"
  "same_work k (fst (InspectLease now g i k))" "k_gates (fst (InspectLease now g i k)) = k_gates k"
  by (simp_all add: AcquireLease_def ReleaseLease_def InspectLease_def Let_def split_beta split: sum.splits)
    (simp_all add: same_work_def)

lemma reward_ops_same:
  "same_work k (fst (RecordReward now uid g r k))" "k_gates (fst (RecordReward now uid g r k)) = k_gates k"
  "same_work k (fst (RevokeReward now g i k))" "k_gates (fst (RevokeReward now g i k)) = k_gates k"
  by (simp_all add: RecordReward_def RevokeReward_def rewards_Add_def Let_def split_beta split: sum.splits)
    (simp_all add: same_work_def split: sum.splits)

lemma compact_same:
  "same_work k (CompactHistory now g n k)" "k_gates (CompactHistory now g n k) = k_gates k"
  by (simp_all add: CompactHistory_def same_work_def)

lemma gate_ops_same:
  "same_work k (fst (OpenGate now uid gate k))" "same_work k (fst (ResolveGate now g i oc k))"
  by (rule OpenGate_effect [of now uid gate k]; simp add: same_work_def)
    (rule ResolveGate_effect [of now g i oc k]; simp add: same_work_def)

text \<open>A ticket mint is all that ShouldRun does to the work stores.\<close>

definition minted :: "Kernel \<Rightarrow> Kernel \<Rightarrow> bool" where
  "minted k k' \<longleftrightarrow> (\<exists>m now uid g t. same_work (k\<lparr>k_tickets := fst (TicketStore_Mint now uid g t (k_tickets k)), k_metrics := m\<rparr>) k')
     \<or> same_work k k'"

lemma same_minted: "same_work k k' \<Longrightarrow> minted k k'"
  by (simp add: minted_def)

lemma shouldRunCounted_minted:
  "minted k (fst (shouldRunCounted now uid g a turn k))"
  "k_gates (fst (shouldRunCounted now uid g a turn k)) = k_gates k"
proof -
  obtain m where eq: "fst (shouldRunCounted now uid g a turn k) = k\<lparr>k_tickets :=
        (if dec_ShouldRun (snd (shouldRun now uid g a turn k)) \<and> turn \<noteq> ''''
         then fst (TicketStore_Mint now uid g turn (k_tickets k)) else k_tickets k),
       k_metrics := m\<rparr>"
    using shouldRunCounted_frame by blast
  show "minted k (fst (shouldRunCounted now uid g a turn k))"
    unfolding minted_def eq by (simp add: same_work_def) blast
  show "k_gates (fst (shouldRunCounted now uid g a turn k)) = k_gates k" unfolding eq by simp
qed

lemma Tick_split:
  "fst (Tick now uid g a turn k) = fst (shouldRunCounted now uid g a turn k) \<or>
   (\<exists>i. fst (Tick now uid g a turn k) = fst (Claim now g i a (fst (shouldRunCounted now uid g a turn k))))"
  by (auto simp: Tick_def ShouldRunTurn_def Let_def split_beta split: sum.splits)

text \<open>Every step is one of these.\<close>

inductive work_step :: "Kernel \<Rightarrow> Kernel \<Rightarrow> bool" where
  goal_write: "k_goals k' = fst (GoalStore_Upsert now g (k_goals k)) \<Longrightarrow>
     same_work (k\<lparr>k_goals := k_goals k'\<rparr>) k' \<Longrightarrow> work_step k k'"
| todo_new: "openTodo t \<Longrightarrow> fresh_todo k (t_GoalID t) (t_ID t) \<Longrightarrow>
     same_work (k\<lparr>k_todos := fst (TodoStore_Upsert now t (k_todos k))\<rparr>) k' \<Longrightarrow> work_step k k'"
| ticket: "minted k k' \<Longrightarrow> work_step k k'"
| claimed: "TodoStore_Get (k_todos k) g i = Inr t \<Longrightarrow> t_State t = TodoOpen \<Longrightarrow> t_ClaimedBy t \<in> {'''', a} \<Longrightarrow>
     same_work (k\<lparr>k_todos := fst (TodoStore_Upsert now (t\<lparr>t_ClaimedBy := a\<rparr>) (k_todos k))\<rparr>) k' \<Longrightarrow>
     work_step k k'"
| wrote: "Validate wb = Inr () \<Longrightarrow> \<not> already_written k wb \<Longrightarrow> fresh_turn k (wb_GoalID wb) uid \<Longrightarrow>
     get2 (k_todos k) (wb_GoalID wb) (wb_TodoID wb) = Some t \<Longrightarrow> writeback_allowed k wb t \<Longrightarrow>
     same_work (k\<lparr>k_todos := fst (TodoStore_Upsert now (wroteTodo wb t) (k_todos k)),
        k_deliveries := (if accountable wb
          then fst (DeliveryStore_Record now (wroteDelivery wb (turnOf uid wb)) (k_deliveries k))
          else k_deliveries k)\<rparr>) k' \<Longrightarrow> work_step k k'"
| spent: "get2 (k_deliveries k) g turn = Some del \<Longrightarrow> \<not> d_Spent del \<Longrightarrow> ticket_passes now g turn opts k \<Longrightarrow>
     same_work (spent_state now g turn opts del k) k' \<Longrightarrow> work_step k k'"
| superseded: "get2 (k_todos k) g i = Some old \<Longrightarrow> t_SupersededBy old = '''' \<Longrightarrow>
     LegalTodoTransition (t_State old) TodoDeferred \<Longrightarrow> fresh_todo k g uid \<Longrightarrow>
     k_goals k' = k_goals k \<or> (\<exists>gl now. k_goals k' = fst (GoalStore_Upsert now gl (k_goals k))) \<Longrightarrow>
     same_work (k\<lparr>k_todos := fst (TodoStore_Upsert now (old\<lparr>t_State := TodoDeferred, t_SupersededBy := uid\<rparr>)
             (fst (TodoStore_Upsert now (successorTodo uid g desc old) (k_todos k)))),
        k_goals := k_goals k'\<rparr>) k' \<Longrightarrow> work_step k k'"

lemma same_work_refl [simp]: "same_work k k"
  by (simp add: same_work_def)

text \<open>Goals are stored under their own id.\<close>

definition goals_wf :: "MemoryGoalStore \<Rightarrow> bool" where
  "goals_wf s \<longleftrightarrow> mwf s \<and> (\<forall>i g. mget s i = Some g \<longrightarrow> g_ID g = i \<and> i \<noteq> '''')"

lemma goals_wf_New [simp, wf_intros]: "goals_wf NewMemoryGoalStore"
  by (simp add: goals_wf_def NewMemoryGoalStore_def)

lemma goals_wf_Upsert [wf_intros]: "goals_wf s \<Longrightarrow> goals_wf (fst (GoalStore_Upsert now g s))"
  by (auto simp: goals_wf_def GoalStore_Upsert_def gomap_simps intro: wf_intros)

lemma Claim_work: "work_step k (fst (Claim now g i a k))"
proof (rule Claim_effect [of now g i a k])
  assume "fst (Claim now g i a k) = k"
  then show ?thesis by (simp add: ticket same_minted)
next
  fix t assume t: "TodoStore_Get (k_todos k) g i = Inr t" "t_State t = TodoOpen" "t_ClaimedBy t = '''' \<or> t_ClaimedBy t = a"
    "fst (Claim now g i a k) = k\<lparr>k_todos := fst (TodoStore_Upsert now (t\<lparr>t_ClaimedBy := a\<rparr>) (k_todos k))\<rparr>"
  then show ?thesis by (intro claimed [OF t(1,2)]) (auto simp: same_work_def)
qed

lemma kstep_work:
  assumes "kstep k k'" and "todos_wf (k_todos k)" and "goals_wf (k_goals k)"
  shows "work_step k k' \<or> (\<exists>k1. work_step k k1 \<and> work_step k1 k')"
  using assms(1)
proof cases
  case (put_goal now g)
  then have "work_step k k'"
    by (intro goal_write [of _ now g]) (simp_all add: goals_Upsert_def split_beta same_work_def)
  then show ?thesis ..
next
  case (new_todo t now)
  then have "work_step k k'"
    by (intro todo_new [of t]) (simp_all add: todos_Upsert_def split_beta same_work_def)
  then show ?thesis ..
next
  case (should_run now uid g a turn)
  then show ?thesis using shouldRunCounted_minted(1) by (blast intro: ticket)
next
  case (tick now uid g a turn)
  let ?k1 = "fst (shouldRunCounted now uid g a turn k)"
  have 1: "work_step k ?k1" by (intro ticket shouldRunCounted_minted(1))
  from Tick_split [of now uid g a turn k] show ?thesis
  proof
    assume "fst (Tick now uid g a turn k) = ?k1"
    with 1 tick show ?thesis by simp
  next
    assume "\<exists>i. fst (Tick now uid g a turn k) = fst (Claim now g i a ?k1)"
    then obtain i where i: "k' = fst (Claim now g i a ?k1)" using tick by blast
    with 1 Claim_work show ?thesis by blast
  qed
next
  case (claim now g i a)
  then show ?thesis by (simp add: Claim_work)
next
  case (writeback wb uid now uidR)
  then have u: "uid \<noteq> ''''" by (simp add: fresh_turn_def)
  have "work_step k (fst (Writeback now uid uidR wb k))"
  proof (rule Writeback_effect [OF assms(2) u, of now uidR wb])
    assume "fst (Writeback now uid uidR wb k) = k"
    then show ?thesis by (simp add: ticket same_minted)
  next
    fix t l r m
    assume t: "Validate wb = Inr ()" "\<not> already_written k wb"
        "get2 (k_todos k) (wb_GoalID wb) (wb_TodoID wb) = Some t" "writeback_allowed k wb t"
      and eq: "fst (Writeback now uid uidR wb k) =
        k\<lparr>k_todos := fst (TodoStore_Upsert now (wroteTodo wb t) (k_todos k)), k_ledger := l, k_rewards := r,
          k_deliveries := (if accountable wb
            then fst (DeliveryStore_Record now (wroteDelivery wb (turnOf uid wb)) (k_deliveries k))
            else k_deliveries k), k_metrics := m\<rparr>"
    show ?thesis unfolding eq
      by (rule wrote [OF t(1,2) writeback(2) t(3,4), of now]) (simp add: same_work_def)
  qed
  with writeback show ?thesis by simp
next
  case (spend now g turn opts)
  have "work_step k (fst (SpendSlot now g turn opts k))"
  proof (rule SpendSlot_effect [of now g turn opts k])
    assume "fst (SpendSlot now g turn opts k) = k"
    then show ?thesis by (simp add: ticket same_minted)
  next
    fix del m
    assume d: "get2 (k_deliveries k) g turn = Some del" "\<not> d_Spent del" "ticket_passes now g turn opts k"
      and eq: "fst (SpendSlot now g turn opts k) = (spent_state now g turn opts del k)\<lparr>k_metrics := m\<rparr>"
    show ?thesis unfolding eq by (rule spent [OF d]) (simp add: same_work_def)
  qed
  with spend show ?thesis by simp
next
  case (supersede g uid now i a desc why)
  then have u: "uid \<noteq> ''''" by (simp add: fresh_todo_def)
  have key: "\<And>j gl. mget (k_goals k) j = Some gl \<Longrightarrow> g_ID gl = j" using assms(3) by (simp add: goals_wf_def)
  have "work_step k (fst (SupersedeTodo now uid g i a desc why k))"
  proof (rule SupersedeTodo_effect [OF assms(2) u key, of now g i a desc why], assumption)
    assume "fst (SupersedeTodo now uid g i a desc why k) = k"
    then show ?thesis by (auto intro: ticket simp: same_minted)
  next
    fix old goals l m
    assume old: "get2 (k_todos k) g i = Some old" "t_SupersededBy old = ''''"
      "LegalTodoTransition (t_State old) TodoDeferred"
      and k': "fst (SupersedeTodo now uid g i a desc why k) =
         k\<lparr>k_todos := fst (TodoStore_Upsert now (old\<lparr>t_State := TodoDeferred, t_SupersededBy := uid\<rparr>)
             (fst (TodoStore_Upsert now (successorTodo uid g desc old) (k_todos k)))),
           k_goals := goals, k_metrics := m, k_ledger := l\<rparr>"
      and goals: "goals = (case mget (k_goals k) g of
          Some gl \<Rightarrow> if g_CurrentTodoID gl = i
            then fst (GoalStore_Upsert now (gl\<lparr>g_CurrentTodoID := uid\<rparr>) (k_goals k)) else k_goals k
        | None \<Rightarrow> k_goals k)"
    have "goals = k_goals k \<or> (\<exists>gl now. goals = fst (GoalStore_Upsert now gl (k_goals k)))"
      using goals by (auto split: option.splits if_splits)
    then show ?thesis unfolding k'
      by (intro superseded [OF old supersede(2), of _ now desc]) (simp_all add: same_work_def)
  qed
  with supersede show ?thesis by simp
qed (auto intro!: ticket same_minted simp: gate_ops_same lease_ops_same reward_ops_same compact_same)

section \<open>Lookups after a write\<close>

lemma get2_TodoUpsert [store_simps]:
  "t_ID t \<noteq> '''' \<Longrightarrow> t_GoalID t \<noteq> '''' \<Longrightarrow> get2 (fst (TodoStore_Upsert now t s)) g i =
     (if g = t_GoalID t \<and> i = t_ID t then Some (stampTodo now t) else get2 s g i)"
  by (simp add: TodoStore_Upsert_def gomap_simps)

lemma get2_Record_wrote [store_simps]:
  "wb_GoalID wb \<noteq> '''' \<Longrightarrow> turn \<noteq> '''' \<Longrightarrow>
   get2 (fst (DeliveryStore_Record now (wroteDelivery wb turn) s)) g t =
     (if g = wb_GoalID wb \<and> t = turn \<and> get2 s g t = None
      then Some ((wroteDelivery wb turn)\<lparr>d_CreatedAt := now\<rparr>) else get2 s g t)"
  by (auto simp: DeliveryStore_Record_def wroteDelivery_def gomap_simps Let_def time_IsZero_def
      split: option.splits)

lemma delivery_spent_Record:
  "delivery_spent (fst (DeliveryStore_Record now (wroteDelivery wb turn) s)) = delivery_spent s"
  by (rule ext) (auto simp: delivery_spent_def DeliveryStore_Record_def wroteDelivery_def gomap_simps Let_def
      split: option.splits)

lemma turnOf_fresh:
  assumes "\<not> already_written k wb" "fresh_turn k (wb_GoalID wb) uid" "accountable wb"
  shows "turnOf uid wb \<noteq> ''''" "get2 (k_deliveries k) (wb_GoalID wb) (turnOf uid wb) = None"
  using assms by (auto simp: turnOf_def already_written_def fresh_turn_def)

lemma mlist_spent_state:
  "mlist (k_spend (spent_state now g turn opts del k)) g' =
     mlist (k_spend k) g' @ (if g' = g then [\<lparr>se_GoalID = g, se_TurnID = turn, se_Slots = d_Slots del,
        se_Reason = so_Reason opts, se_SpentAt = now\<rparr>] else [])"
  by (auto simp: spent_state_def store_simps time_IsZero_def)

lemma ids_of_todo: "todos_wf s \<Longrightarrow> get2 s g i = Some t \<Longrightarrow> t_GoalID t = g \<and> t_ID t = i \<and> g \<noteq> '''' \<and> i \<noteq> ''''"
  by (simp add: todos_wf_def)

section \<open>The invariants\<close>

text \<open>The turns the spend log has charged to a goal, in order.\<close>

definition charged :: "Kernel \<Rightarrow> string \<Rightarrow> string list" where
  "charged k g = map se_TurnID (mlist (k_spend k) g)"

definition inv_spend :: "Kernel \<Rightarrow> bool" where
  "inv_spend k \<longleftrightarrow> (\<forall>g. distinct (charged k g) \<and>
     (\<forall>t. t \<in> set (charged k g) \<longleftrightarrow> delivery_spent (k_deliveries k) (g, t)))"

definition inv_ticket :: "Kernel \<Rightarrow> bool" where
  "inv_ticket k \<longleftrightarrow> (k_enforceTicket k \<longrightarrow>
     (\<forall>g t. delivery_spent (k_deliveries k) (g, t) \<longrightarrow> ticket_used (k_tickets k) (g, t)))"

definition inv_done :: "Kernel \<Rightarrow> bool" where
  "inv_done k \<longleftrightarrow> (\<forall>g i t. get2 (k_todos k) g i = Some t \<and> t_State t = TodoDone \<longrightarrow> t_Evidence t \<noteq> [] \<and>
     (\<exists>turn d. get2 (k_deliveries k) g turn = Some d \<and> d_TodoID d = i \<and> d_Outcome d = OutcomeCompletion))"

definition inv_lineage :: "Kernel \<Rightarrow> bool" where
  "inv_lineage k \<longleftrightarrow>
     (\<forall>g i t. get2 (k_todos k) g i = Some t \<and> t_SupersededBy t \<noteq> '''' \<longrightarrow> t_State t = TodoDeferred \<and>
        (\<exists>s. get2 (k_todos k) g (t_SupersededBy t) = Some s \<and> t_Supersedes s = i)) \<and>
     (\<forall>g i t. get2 (k_todos k) g i = Some t \<and> t_Supersedes t \<noteq> '''' \<longrightarrow>
        (\<exists>p. get2 (k_todos k) g (t_Supersedes t) = Some p \<and> t_SupersededBy p = i))"

definition stores_wf :: "Kernel \<Rightarrow> bool" where
  "stores_wf k \<longleftrightarrow> todos_wf (k_todos k) \<and> goals_wf (k_goals k)"

text \<open>Used tickets stay used, by the one-shot contract.\<close>

lemma ticket_used_Mint: "ticket_used s gt \<Longrightarrow> ticket_used (fst (TicketStore_Mint now uid g t s)) gt"
  using tickets.issue_keeps [of s gt "(now, uid, g, t)"] by simp

lemma ticket_used_Consume: "ticket_used s gt \<Longrightarrow> ticket_used (fst (TicketStore_Consume g t tok s)) gt"
  using tickets.redeem_keeps [of s gt "(g, t, tok)"] by simp

lemma ticket_used_Consumed:
  "isOk (snd (TicketStore_Consume g t tok s)) \<Longrightarrow> ticket_used (fst (TicketStore_Consume g t tok s)) (g, t)"
  using tickets.redeem_marks [of "(g, t, tok)" s] by simp

lemma minted_frame:
  assumes "minted k k'"
  shows "k_todos k' = k_todos k" "k_deliveries k' = k_deliveries k" "k_spend k' = k_spend k"
    "k_goals k' = k_goals k" "k_enforceTicket k' = k_enforceTicket k"
    "ticket_used (k_tickets k) gt \<Longrightarrow> ticket_used (k_tickets k') gt"
  using assms unfolding minted_def
  by (auto simp: same_work_def ticket_used_Mint)

lemma wf_step:
  assumes "work_step k k'" "stores_wf k"
  shows "stores_wf k'"
  using assms(1)
proof cases
  case ticket
  then show ?thesis using assms(2) by (simp add: stores_wf_def minted_frame)
next
  case (superseded g i old uid now desc)
  then show ?thesis using assms(2)
    by (auto simp: stores_wf_def simp: same_work_def intro!: wf_intros)
qed (use assms(2) in \<open>auto simp: stores_wf_def spent_state_def simp: same_work_def intro!: wf_intros\<close>)

text \<open>What a step may do to a todo: move along a legal transition, gather evidence, be superseded.\<close>

definition todo_grows :: "Todo \<Rightarrow> Todo \<Rightarrow> bool" where
  "todo_grows t t' \<longleftrightarrow> LegalTodoTransition (t_State t) (t_State t') \<and> t_Supersedes t' = t_Supersedes t \<and>
     (t_SupersededBy t \<noteq> '''' \<longrightarrow> t_SupersededBy t' = t_SupersededBy t) \<and>
     (\<exists>e. t_Evidence t' = t_Evidence t @ e)"

lemma todo_grows_refl [simp]: "todo_grows t t" "todo_grows t (stampTodo now t)"
  by (simp_all add: todo_grows_def LegalTodoTransition_def)

lemma todo_step:
  assumes "work_step k k'" "stores_wf k" "get2 (k_todos k) g i = Some t"
  shows "\<exists>t'. get2 (k_todos k') g i = Some t' \<and> todo_grows t t'"
  using assms(1)
proof cases
  case ticket
  then show ?thesis using assms(3) by (simp add: minted_frame)
next
  case (todo_new t1 now)
  then have "t_ID t1 \<noteq> '''' \<and> t_GoalID t1 \<noteq> '''' \<or> fst (TodoStore_Upsert now t1 (k_todos k)) = k_todos k"
    by (simp add: TodoStore_Upsert_def)
  then show ?thesis using todo_new assms(3)
    by (auto simp: same_work_def store_simps fresh_todo_def)
next
  case (claimed g1 i1 t1 a now)
  then have *: "get2 (k_todos k) g1 i1 = Some t1" by (simp add: TodoStore_Get_get2 split: option.splits)
  with assms(2) ids_of_todo have "t_GoalID t1 = g1 \<and> t_ID t1 = i1 \<and> g1 \<noteq> '''' \<and> i1 \<noteq> ''''"
    by (auto simp: stores_wf_def)
  then show ?thesis using claimed * assms(3)
    by (auto simp: same_work_def store_simps todo_grows_def LegalTodoTransition_def)
next
  case (wrote wb uid t1 now)
  with assms(2) ids_of_todo have ids: "t_GoalID t1 = wb_GoalID wb \<and> t_ID t1 = wb_TodoID wb
      \<and> wb_GoalID wb \<noteq> '''' \<and> wb_TodoID wb \<noteq> ''''"
    by (auto simp: stores_wf_def)
  have "todo_grows t1 (stampTodo now (wroteTodo wb t1))"
    using wrote(5) by (auto simp: todo_grows_def writeback_allowed_def LegalTodoTransition_def)
  then show ?thesis using wrote ids assms(3)
    by (auto simp: same_work_def store_simps)
next
  case (superseded g1 i1 old uid now desc)
  with assms(2) ids_of_todo have ids: "t_GoalID old = g1 \<and> t_ID old = i1 \<and> g1 \<noteq> '''' \<and> i1 \<noteq> ''''"
    by (auto simp: stores_wf_def)
  have sid: "t_ID (successorTodo uid g1 desc old) = uid" "t_GoalID (successorTodo uid g1 desc old) = g1"
    by (simp_all add: successorTodo_def)
  have "todo_grows old (stampTodo now (old\<lparr>t_State := TodoDeferred, t_SupersededBy := uid\<rparr>))"
    using superseded by (simp add: todo_grows_def)
  then show ?thesis using superseded ids sid assms(3)
    by (auto simp: same_work_def store_simps fresh_todo_def)
qed (use assms(3) in \<open>auto simp: same_work_def spent_state_def\<close>)

text \<open>What a step may do to a delivery: nothing but mark it spent.\<close>

lemma delivery_step:
  assumes "work_step k k'" "get2 (k_deliveries k) g t = Some d"
  shows "\<exists>d'. get2 (k_deliveries k') g t = Some d' \<and> d_TodoID d' = d_TodoID d \<and> d_Outcome d' = d_Outcome d
     \<and> (d_Spent d \<longrightarrow> d_Spent d')"
  using assms(1)
proof cases
  case ticket
  then show ?thesis using assms(2) by (simp add: minted_frame)
next
  case (wrote wb uid t1 now)
  then show ?thesis using assms(2) by (auto simp: same_work_def Record_keeps)
next
  case (spent g1 turn del now opts)
  then show ?thesis using assms(2) by (auto simp: same_work_def spent_state_def gomap_simps)
qed (use assms(2) in \<open>auto simp: same_work_def\<close>)

section \<open>Preservation\<close>

lemma inv_spend_step:
  assumes "work_step k k'" "inv_spend k"
  shows "inv_spend k'"
  using assms(1)
proof cases
  case ticket
  then show ?thesis using assms(2) by (simp add: inv_spend_def charged_def minted_frame)
next
  case (wrote wb uid t1 now)
  then show ?thesis using assms(2)
    by (auto simp: inv_spend_def charged_def same_work_def delivery_spent_Record)
next
  case (spent g turn del now opts)
  have "\<not> delivery_spent (k_deliveries k) (g, turn)" using spent(1,2) by (simp add: delivery_spent_def)
  then have "turn \<notin> set (charged k g)" using assms(2) by (simp add: inv_spend_def)
  moreover have "charged k' g' = charged k g' @ (if g' = g then [turn] else [])" for g'
    using spent(4) by (simp add: charged_def same_work_def mlist_spent_state)
  moreover have "delivery_spent (k_deliveries k') (g', t) \<longleftrightarrow>
      g' = g \<and> t = turn \<or> delivery_spent (k_deliveries k) (g', t)" for g' t
    using spent(4)
    by (cases "g' = g \<and> t = turn") (auto simp: same_work_def spent_state_def delivery_spent_def gomap_simps)
  ultimately show ?thesis using assms(2) by (auto simp: inv_spend_def)
qed (use assms(2) in \<open>auto simp: same_work_def inv_spend_def charged_def\<close>)

lemma inv_ticket_step:
  assumes "work_step k k'" "inv_ticket k"
  shows "inv_ticket k'"
  using assms(1)
proof cases
  case ticket
  then show ?thesis using assms(2) by (auto simp: inv_ticket_def minted_frame)
next
  case (wrote wb uid t1 now)
  then show ?thesis using assms(2)
    by (auto simp: inv_ticket_def same_work_def delivery_spent_Record)
next
  case (spent g turn del now opts)
  show ?thesis unfolding inv_ticket_def
  proof (intro impI allI)
    fix g' t
    assume "k_enforceTicket k'" and sp: "delivery_spent (k_deliveries k') (g', t)"
    then have en: "k_enforceTicket k" using spent(4) by (simp add: same_work_def spent_state_def)
    with spent(3) have ok: "isOk (snd (TicketStore_Consume g turn (so_Token opts) (k_tickets k)))"
      by (simp add: ticket_passes_def)
    have tk: "k_tickets k' = fst (TicketStore_Consume g turn (so_Token opts) (k_tickets k))"
      using spent(4) en by (simp add: same_work_def spent_state_def)
    from sp have "g' = g \<and> t = turn \<or> delivery_spent (k_deliveries k) (g', t)"
      using spent(4) by (simp add: same_work_def spent_state_def delivery_spent_def gomap_simps split: if_splits)
    then show "ticket_used (k_tickets k') (g', t)"
      using assms(2) en ticket_used_Consumed [OF ok] ticket_used_Consume
      by (auto simp: tk inv_ticket_def)
  qed
qed (use assms(2) in \<open>auto simp: same_work_def inv_ticket_def\<close>)

text \<open>A todo that is done after a step was done before, or the step wrote its completion.\<close>

lemma done_step:
  assumes "work_step k k'" "stores_wf k" "get2 (k_todos k') g i = Some t'" "t_State t' = TodoDone"
  shows "(\<exists>t. get2 (k_todos k) g i = Some t \<and> t_State t = TodoDone \<and> todo_grows t t') \<or>
    t_Evidence t' \<noteq> [] \<and> (\<exists>turn d. get2 (k_deliveries k') g turn = Some d \<and> d_TodoID d = i
      \<and> d_Outcome d = OutcomeCompletion)"
  using assms(1)
proof cases
  case ticket
  then show ?thesis using assms(3,4) by (simp add: minted_frame)
next
  case (todo_new t1 now)
  then have "t_ID t1 \<noteq> '''' \<and> t_GoalID t1 \<noteq> '''' \<or> fst (TodoStore_Upsert now t1 (k_todos k)) = k_todos k"
    by (simp add: TodoStore_Upsert_def)
  then show ?thesis using todo_new assms(3,4)
    by (auto simp: same_work_def store_simps openTodo_def split: if_splits)
next
  case (claimed g1 i1 t1 a now)
  then have "get2 (k_todos k) g1 i1 = Some t1" by (simp add: TodoStore_Get_get2 split: option.splits)
  with assms(2) ids_of_todo have "t_GoalID t1 = g1 \<and> t_ID t1 = i1 \<and> g1 \<noteq> '''' \<and> i1 \<noteq> ''''"
    by (auto simp: stores_wf_def)
  then show ?thesis using claimed assms(3,4)
    by (auto simp: same_work_def store_simps split: if_splits)
next
  case (wrote wb uid t1 now)
  with assms(2) ids_of_todo have ids: "t_GoalID t1 = wb_GoalID wb \<and> t_ID t1 = wb_TodoID wb
      \<and> wb_GoalID wb \<noteq> '''' \<and> wb_TodoID wb \<noteq> ''''"
    by (auto simp: stores_wf_def)
  have t': "get2 (k_todos k') g i = (if g = wb_GoalID wb \<and> i = wb_TodoID wb
      then Some (stampTodo now (wroteTodo wb t1)) else get2 (k_todos k) g i)"
    using wrote(6) ids by (simp add: same_work_def store_simps)
  show ?thesis
  proof (cases "g = wb_GoalID wb \<and> i = wb_TodoID wb \<and> o_Status (wb_Outcome wb) = OutcomeCompletion")
    case True
    then have acc: "accountable wb" by (simp add: accountable_def IsAccountable_def)
    with Validate_ids [OF wrote(1)] have ev: "wb_Evidence wb \<noteq> []" by simp
    note fresh = turnOf_fresh [OF wrote(2,3) acc]
    have "get2 (k_deliveries k') g (turnOf uid wb) = Some ((wroteDelivery wb (turnOf uid wb))\<lparr>d_CreatedAt := now\<rparr>)"
      using wrote(6) acc fresh ids True by (simp add: same_work_def store_simps)
    moreover have "t_Evidence t' \<noteq> []" using t' True assms(3) ev by auto
    ultimately show ?thesis using True
      by (intro disjI2 conjI exI [of _ "turnOf uid wb"] exI [of _ "(wroteDelivery wb (turnOf uid wb))\<lparr>d_CreatedAt := now\<rparr>"])
        (simp_all add: wroteDelivery_def)
  next
    case False
    have "\<exists>t. get2 (k_todos k) g i = Some t \<and> t_State t = TodoDone \<and> todo_grows t t'"
    proof (cases "g = wb_GoalID wb \<and> i = wb_TodoID wb")
      case True
      with False t' assms(3,4) wrote(4) show ?thesis
        by (auto simp: todo_grows_def LegalTodoTransition_def)
    next
      case False
      with t' assms(3,4) show ?thesis by (intro exI [of _ t']) auto
    qed
    then show ?thesis ..
  qed
next
  case (superseded g1 i1 old uid now desc)
  with assms(2) ids_of_todo have ids: "t_GoalID old = g1 \<and> t_ID old = i1 \<and> g1 \<noteq> '''' \<and> i1 \<noteq> ''''"
    by (auto simp: stores_wf_def)
  have sid: "t_ID (successorTodo uid g1 desc old) = uid" "t_GoalID (successorTodo uid g1 desc old) = g1"
    "t_State (successorTodo uid g1 desc old) = TodoOpen"
    by (simp_all add: successorTodo_def)
  then show ?thesis using superseded ids assms(3,4)
    by (auto simp: same_work_def store_simps fresh_todo_def split: if_splits)
qed (use assms(3,4) in \<open>auto simp: same_work_def spent_state_def\<close>)

lemma inv_done_step:
  assumes "work_step k k'" "stores_wf k" "inv_done k"
  shows "inv_done k'"
  unfolding inv_done_def
proof (intro allI impI)
  fix g i t'
  assume t': "get2 (k_todos k') g i = Some t' \<and> t_State t' = TodoDone"
  from done_step [OF assms(1,2)] t' consider
      t where "get2 (k_todos k) g i = Some t" "t_State t = TodoDone" "todo_grows t t'"
    | "t_Evidence t' \<noteq> [] \<and> (\<exists>turn d. get2 (k_deliveries k') g turn = Some d \<and> d_TodoID d = i
      \<and> d_Outcome d = OutcomeCompletion)" by blast
  then show "t_Evidence t' \<noteq> [] \<and> (\<exists>turn d. get2 (k_deliveries k') g turn = Some d \<and> d_TodoID d = i
      \<and> d_Outcome d = OutcomeCompletion)"
  proof cases
    case 1
    with assms(3) obtain turn d where ev: "t_Evidence t \<noteq> []" and
      d: "get2 (k_deliveries k) g turn = Some d" "d_TodoID d = i" "d_Outcome d = OutcomeCompletion"
      unfolding inv_done_def by blast
    from delivery_step [OF assms(1) d(1)] d(2,3) ev 1(3) show ?thesis
      by (auto simp: todo_grows_def)
  qed
qed

text \<open>Links: a step leaves each todo's links alone, or it is the supersession that draws one.\<close>

lemma link_step:
  assumes "work_step k k'" "stores_wf k"
  shows "(\<forall>g i. map_option (\<lambda>t. (t_Supersedes t, t_SupersededBy t)) (get2 (k_todos k) g i) =
            map_option (\<lambda>t. (t_Supersedes t, t_SupersededBy t)) (get2 (k_todos k') g i))
    \<or> (\<exists>g i t. openTodo t \<and> get2 (k_todos k) g i = None \<and> get2 (k_todos k') g i = Some t \<and>
         (\<forall>g' i'. (g', i') \<noteq> (g, i) \<longrightarrow> get2 (k_todos k') g' i' = get2 (k_todos k) g' i'))
    \<or> (\<exists>g i uid old old' s. uid \<noteq> '''' \<and> i \<noteq> '''' \<and> get2 (k_todos k) g i = Some old \<and> t_SupersededBy old = '''' \<and>
         get2 (k_todos k) g uid = None \<and>
         get2 (k_todos k') g i = Some old' \<and> t_SupersededBy old' = uid \<and> t_Supersedes old' = t_Supersedes old \<and>
         t_State old' = TodoDeferred \<and>
         get2 (k_todos k') g uid = Some s \<and> t_Supersedes s = i \<and> t_SupersededBy s = '''' \<and>
         (\<forall>g' i'. (g', i') \<noteq> (g, i) \<and> (g', i') \<noteq> (g, uid) \<longrightarrow> get2 (k_todos k') g' i' = get2 (k_todos k) g' i'))"
    (is "?same \<or> ?new \<or> ?link")
  using assms(1)
proof cases
  case ticket
  then have ?same by (simp add: minted_frame)
  then show ?thesis ..
next
  case (todo_new t1 now)
  show ?thesis
  proof (cases "t_ID t1 \<noteq> '''' \<and> t_GoalID t1 \<noteq> ''''")
    case True
    have "openTodo (stampTodo now t1)" using todo_new(1) by (simp add: openTodo_def)
    moreover have "get2 (k_todos k') g i = (if g = t_GoalID t1 \<and> i = t_ID t1 then Some (stampTodo now t1)
        else get2 (k_todos k) g i)" for g i
      using todo_new(3) True by (simp add: same_work_def store_simps)
    ultimately have ?new using todo_new(2) unfolding fresh_todo_def
      by (intro exI [of _ "t_GoalID t1"] exI [of _ "t_ID t1"] exI [of _ "stampTodo now t1"]) auto
    then show ?thesis by blast
  next
    case False
    then have ?same using todo_new(3) by (simp add: same_work_def TodoStore_Upsert_def)
    then show ?thesis ..
  qed
next
  case (claimed g1 i1 t1 a now)
  then have *: "get2 (k_todos k) g1 i1 = Some t1" by (simp add: TodoStore_Get_get2 split: option.splits)
  with assms(2) ids_of_todo have "t_GoalID t1 = g1 \<and> t_ID t1 = i1 \<and> g1 \<noteq> '''' \<and> i1 \<noteq> ''''"
    by (auto simp: stores_wf_def)
  then have ?same using claimed(4) * by (auto simp: same_work_def store_simps)
  then show ?thesis ..
next
  case (wrote wb uid t1 now)
  with assms(2) ids_of_todo have ids: "t_GoalID t1 = wb_GoalID wb \<and> t_ID t1 = wb_TodoID wb
      \<and> wb_GoalID wb \<noteq> '''' \<and> wb_TodoID wb \<noteq> ''''"
    by (auto simp: stores_wf_def)
  then have ?same using wrote(4,6) by (auto simp: same_work_def store_simps)
  then show ?thesis ..
next
  case (superseded g1 i1 old uid now desc)
  with assms(2) ids_of_todo have ids: "t_GoalID old = g1 \<and> t_ID old = i1 \<and> g1 \<noteq> '''' \<and> i1 \<noteq> ''''"
    by (auto simp: stores_wf_def)
  let ?s = "successorTodo uid g1 desc old"
  let ?o = "old\<lparr>t_State := TodoDeferred, t_SupersededBy := uid\<rparr>"
  have sid: "t_ID ?s = uid" "t_GoalID ?s = g1" "t_Supersedes ?s = i1" "t_SupersededBy ?s = ''''"
    using ids by (simp_all add: successorTodo_def)
  have uid: "uid \<noteq> ''''" "get2 (k_todos k) g1 uid = None" using superseded(4) by (simp_all add: fresh_todo_def)
  have look: "get2 (k_todos k') g i = (if g = g1 \<and> i = i1 then Some (stampTodo now ?o)
      else if g = g1 \<and> i = uid then Some (stampTodo now ?s) else get2 (k_todos k) g i)" for g i
    using superseded(6) ids sid uid by (simp add: same_work_def store_simps)
  have "uid \<noteq> i1" using uid(2) superseded(1) by auto
  with look uid ids superseded(1,2) sid have ?link
    by (intro exI [of _ g1] exI [of _ i1] exI [of _ uid] exI [of _ old] exI [of _ "stampTodo now ?o"]
        exI [of _ "stampTodo now ?s"]) simp
  then show ?thesis by blast
qed (simp_all add: same_work_def spent_state_def)

text \<open>A superseded todo is deferred, so no step moves its state again.\<close>

lemma deferred_step:
  assumes "work_step k k'" "stores_wf k" "get2 (k_todos k) g i = Some t" "t_State t = TodoDeferred"
    "get2 (k_todos k') g i = Some t'"
  shows "t_State t' = TodoDeferred"
proof -
  from todo_step [OF assms(1-3)] assms(5) have "LegalTodoTransition (t_State t) (t_State t')"
    by (auto simp: todo_grows_def)
  then show ?thesis using assms(4) by (simp add: LegalTodoTransition_iff)
qed

lemma inv_lineageD:
  assumes "inv_lineage k"
  shows "get2 (k_todos k) g i = Some t \<Longrightarrow> t_SupersededBy t \<noteq> '''' \<Longrightarrow> t_State t = TodoDeferred"
    and "get2 (k_todos k) g i = Some t \<Longrightarrow> t_SupersededBy t \<noteq> '''' \<Longrightarrow>
      \<exists>s. get2 (k_todos k) g (t_SupersededBy t) = Some s \<and> t_Supersedes s = i"
    and "get2 (k_todos k) g i = Some t \<Longrightarrow> t_Supersedes t \<noteq> '''' \<Longrightarrow>
      \<exists>p. get2 (k_todos k) g (t_Supersedes t) = Some p \<and> t_SupersededBy p = i"
  using assms unfolding inv_lineage_def by blast+

lemma inv_lineageI:
  assumes "\<And>g i t. get2 (k_todos k) g i = Some t \<Longrightarrow> t_SupersededBy t \<noteq> '''' \<Longrightarrow> t_State t = TodoDeferred
      \<and> (\<exists>s. get2 (k_todos k) g (t_SupersededBy t) = Some s \<and> t_Supersedes s = i)"
    and "\<And>g i t. get2 (k_todos k) g i = Some t \<Longrightarrow> t_Supersedes t \<noteq> '''' \<Longrightarrow>
      \<exists>p. get2 (k_todos k) g (t_Supersedes t) = Some p \<and> t_SupersededBy p = i"
  shows "inv_lineage k"
  using assms unfolding inv_lineage_def by blast

text \<open>Two states with the same links have the same lineage, if deferred todos stay deferred.\<close>

lemma lineage_same_links:
  assumes inv: "inv_lineage k"
    and links: "\<And>g i. map_option (\<lambda>t. (t_Supersedes t, t_SupersededBy t)) (get2 (k_todos k) g i) =
            map_option (\<lambda>t. (t_Supersedes t, t_SupersededBy t)) (get2 (k_todos k') g i)"
    and stay: "\<And>g i t t'. get2 (k_todos k) g i = Some t \<Longrightarrow> t_State t = TodoDeferred \<Longrightarrow>
      get2 (k_todos k') g i = Some t' \<Longrightarrow> t_State t' = TodoDeferred"
  shows "inv_lineage k'"
proof -
  have earlier: "\<exists>t. get2 (k_todos k) g i = Some t \<and> t_Supersedes t = t_Supersedes t' \<and> t_SupersededBy t = t_SupersededBy t'"
    if "get2 (k_todos k') g i = Some t'" for g i t'
    using links [of g i] that by auto
  have forth: "\<exists>t'. get2 (k_todos k') g i = Some t' \<and> t_Supersedes t' = t_Supersedes t \<and> t_SupersededBy t' = t_SupersededBy t"
    if "get2 (k_todos k) g i = Some t" for g i t
    using links [of g i] that by (metis (no_types, lifting) fst_conv map_option_eq_Some option.map(2) snd_conv)
  show ?thesis
  proof (rule inv_lineageI)
    fix g i t' assume t': "get2 (k_todos k') g i = Some t'" and ne: "t_SupersededBy t' \<noteq> ''''"
    from earlier [OF t'] obtain t where t: "get2 (k_todos k) g i = Some t" "t_SupersededBy t = t_SupersededBy t'" by blast
    with ne have ne': "t_SupersededBy t \<noteq> ''''" by simp
    from inv_lineageD(1) [OF inv t(1) ne'] stay t(1) t' have "t_State t' = TodoDeferred" by blast
    moreover from inv_lineageD(2) [OF inv t(1) ne'] forth t(2)
    have "\<exists>s. get2 (k_todos k') g (t_SupersededBy t') = Some s \<and> t_Supersedes s = i" by metis
    ultimately show "t_State t' = TodoDeferred \<and>
        (\<exists>s. get2 (k_todos k') g (t_SupersededBy t') = Some s \<and> t_Supersedes s = i)" ..
  next
    fix g i t' assume t': "get2 (k_todos k') g i = Some t'" and ne: "t_Supersedes t' \<noteq> ''''"
    from earlier [OF t'] obtain t where t: "get2 (k_todos k) g i = Some t" "t_Supersedes t = t_Supersedes t'" by blast
    with inv_lineageD(3) [OF inv t(1)] ne forth
    show "\<exists>p. get2 (k_todos k') g (t_Supersedes t') = Some p \<and> t_SupersededBy p = i" by metis
  qed
qed

lemma lineage_new_todo:
  assumes inv: "inv_lineage k" and "openTodo t" and none: "get2 (k_todos k) g i = None"
    and new: "get2 (k_todos k') g i = Some t"
    and rest: "\<And>g' i'. (g', i') \<noteq> (g, i) \<Longrightarrow> get2 (k_todos k') g' i' = get2 (k_todos k) g' i'"
  shows "inv_lineage k'"
proof (rule inv_lineageI)
  have nolink: "t_SupersededBy t = ''''" "t_Supersedes t = ''''" using assms(2) by (simp_all add: openTodo_def)
  have old: "get2 (k_todos k) g' i' = Some t'"
    if "get2 (k_todos k') g' i' = Some t'" "t_SupersededBy t' \<noteq> '''' \<or> t_Supersedes t' \<noteq> ''''" for g' i' t'
    using that rest [of g' i'] new nolink by (cases "(g', i') = (g, i)") auto
  have keep: "get2 (k_todos k') g' i' = Some s" if "get2 (k_todos k) g' i' = Some s" for g' i' s
    using that rest [of g' i'] none by (cases "(g', i') = (g, i)") auto
  fix g' i' t' assume t': "get2 (k_todos k') g' i' = Some t'"
  show "t_State t' = TodoDeferred \<and>
      (\<exists>s. get2 (k_todos k') g' (t_SupersededBy t') = Some s \<and> t_Supersedes s = i')" if "t_SupersededBy t' \<noteq> ''''"
    using inv_lineageD(1,2) [OF inv old that] t' that keep by blast
  show "\<exists>p. get2 (k_todos k') g' (t_Supersedes t') = Some p \<and> t_SupersededBy p = i'" if "t_Supersedes t' \<noteq> ''''"
    using inv_lineageD(3) [OF inv old that] t' that keep by blast
qed

lemma lineage_supersession:
  assumes inv: "inv_lineage k" and wf: "stores_wf k" and uid: "uid \<noteq> ''''" "i \<noteq> ''''"
    and old: "get2 (k_todos k) g i = Some old" "t_SupersededBy old = ''''"
    and none: "get2 (k_todos k) g uid = None"
    and old': "get2 (k_todos k') g i = Some old'" "t_SupersededBy old' = uid" "t_Supersedes old' = t_Supersedes old"
      "t_State old' = TodoDeferred"
    and s: "get2 (k_todos k') g uid = Some s" "t_Supersedes s = i" "t_SupersededBy s = ''''"
    and rest: "\<And>g' i'. (g', i') \<noteq> (g, i) \<Longrightarrow> (g', i') \<noteq> (g, uid) \<Longrightarrow>
      get2 (k_todos k') g' i' = get2 (k_todos k) g' i'"
  shows "inv_lineage k'"
proof (rule inv_lineageI)
  have ne: "uid \<noteq> i" using none old(1) by auto
  have keep: "\<exists>p'. get2 (k_todos k') g' i' = Some p' \<and> t_Supersedes p' = t_Supersedes p \<and>
      (t_SupersededBy p \<noteq> '''' \<longrightarrow> t_SupersededBy p' = t_SupersededBy p)"
    if "get2 (k_todos k) g' i' = Some p" for g' i' p
    using that rest [of g' i'] none old old' by (cases "(g', i') = (g, i)"; cases "(g', i') = (g, uid)") auto
  fix g' i' t' assume t': "get2 (k_todos k') g' i' = Some t'"
  consider "g' = g" "i' = i" "t' = old'" | "g' = g" "i' = uid" "t' = s" | "get2 (k_todos k) g' i' = Some t'"
    using t' rest [of g' i'] old'(1) s(1) by fastforce
  note cs = this
  show "t_State t' = TodoDeferred \<and>
      (\<exists>s. get2 (k_todos k') g' (t_SupersededBy t') = Some s \<and> t_Supersedes s = i')" if by': "t_SupersededBy t' \<noteq> ''''"
    using cs
  proof cases
    case 3
    with inv_lineageD(1,2) [OF inv 3 by'] keep show ?thesis by metis
  qed (use old' s by' in auto)
  show "\<exists>p. get2 (k_todos k') g' (t_Supersedes t') = Some p \<and> t_SupersededBy p = i'" if su: "t_Supersedes t' \<noteq> ''''"
    using cs
  proof cases
    case 1
    have "i \<noteq> ''''" by (rule uid(2))
    with inv_lineageD(3) [OF inv old(1)] su old'(3) 1 keep show ?thesis by metis
  next
    case 2
    with s old' show ?thesis by auto
  next
    case 3
    have "i' \<noteq> ''''" using wf 3 by (simp add: stores_wf_def todos_wf_def)
    with inv_lineageD(3) [OF inv 3 su] keep show ?thesis by metis
  qed
qed

lemma inv_lineage_step:
  assumes "work_step k k'" "stores_wf k" "inv_lineage k"
  shows "inv_lineage k'"
  using link_step [OF assms(1,2)]
proof (elim disjE exE conjE)
  assume "\<forall>g i. map_option (\<lambda>t. (t_Supersedes t, t_SupersededBy t)) (get2 (k_todos k) g i) =
            map_option (\<lambda>t. (t_Supersedes t, t_SupersededBy t)) (get2 (k_todos k') g i)"
  then have links: "map_option (\<lambda>t. (t_Supersedes t, t_SupersededBy t)) (get2 (k_todos k) g i) =
      map_option (\<lambda>t. (t_Supersedes t, t_SupersededBy t)) (get2 (k_todos k') g i)" for g i
    by blast
  show ?thesis
    by (rule lineage_same_links [OF assms(3) links]) (rule deferred_step [OF assms(1,2)])
next
  fix g i t
  assume "openTodo t" "get2 (k_todos k) g i = None" "get2 (k_todos k') g i = Some t"
    "\<forall>g' i'. (g', i') \<noteq> (g, i) \<longrightarrow> get2 (k_todos k') g' i' = get2 (k_todos k) g' i'"
  then show ?thesis by (intro lineage_new_todo [OF assms(3), of t g i]) simp_all
next
  fix g i uid old old' s
  assume "uid \<noteq> ''''" "i \<noteq> ''''" "get2 (k_todos k) g i = Some old" "t_SupersededBy old = ''''"
    "get2 (k_todos k) g uid = None" "get2 (k_todos k') g i = Some old'" "t_SupersededBy old' = uid"
    "t_Supersedes old' = t_Supersedes old" "t_State old' = TodoDeferred"
    "get2 (k_todos k') g uid = Some s" "t_Supersedes s = i" "t_SupersededBy s = ''''"
    "\<forall>g' i'. (g', i') \<noteq> (g, i) \<and> (g', i') \<noteq> (g, uid) \<longrightarrow> get2 (k_todos k') g' i' = get2 (k_todos k) g' i'"
  then show ?thesis by (intro lineage_supersession [OF assms(3,2), of uid i g old k' old' s]) simp_all
qed

section \<open>Reachable states\<close>

definition kernel_inv :: "Kernel \<Rightarrow> bool" where
  "kernel_inv k \<longleftrightarrow> stores_wf k \<and> inv_spend k \<and> inv_ticket k \<and> inv_done k \<and> inv_lineage k"

lemma kernel_inv_work: "work_step k k' \<Longrightarrow> kernel_inv k \<Longrightarrow> kernel_inv k'"
  by (auto simp: kernel_inv_def intro: wf_step inv_spend_step inv_ticket_step inv_done_step inv_lineage_step)

lemma kernel_inv_step: "kstep k k' \<Longrightarrow> kernel_inv k \<Longrightarrow> kernel_inv k'"
  using kstep_work [of k k'] kernel_inv_work unfolding kernel_inv_def stores_wf_def by metis

lemma kernel_inv_start: "kernel_inv (NewKernel\<lparr>k_enforceTicket := enforce, k_txStarter := tx\<rparr>)"
  by (simp add: kernel_inv_def stores_wf_def NewKernel_def inv_spend_def inv_ticket_def inv_done_def
      inv_lineage_def charged_def delivery_spent_def NewMemorySpendLog_def NewMemoryDeliveryStore_def)
    (simp add: NewMemoryTodoStore_def)

lemma kreach_inv: "kreach k \<Longrightarrow> kernel_inv k"
  by (induction rule: kreach.induct) (auto intro: kernel_inv_start kernel_inv_step)

lemma kreach_wf: "kreach k \<Longrightarrow> stores_wf k"
  by (drule kreach_inv) (simp add: kernel_inv_def)

text \<open>From any todo of a reachable state on: it never disappears, a terminal state is final,
  evidence is only added, links are only drawn once.\<close>

definition todo_later :: "Todo \<Rightarrow> Todo \<Rightarrow> bool" where
  "todo_later a c \<longleftrightarrow> (\<exists>e. t_Evidence c = t_Evidence a @ e) \<and> t_Supersedes c = t_Supersedes a \<and>
    (TodoState_IsTerminal (t_State a) \<longrightarrow> t_State c = t_State a) \<and>
    (t_SupersededBy a \<noteq> '''' \<longrightarrow> t_SupersededBy c = t_SupersededBy a)"

lemma todo_later_refl [simp]: "todo_later a a"
  by (simp add: todo_later_def)

lemma todo_later_trans: "todo_later a b \<Longrightarrow> todo_later b c \<Longrightarrow> todo_later a c"
  by (auto simp: todo_later_def)

lemma todo_grows_later: "todo_grows a b \<Longrightarrow> todo_later a b"
  by (auto simp: todo_grows_def todo_later_def terminal_todo_frozen)

lemma todo_later_work:
  assumes "work_step k k'" "stores_wf k" "get2 (k_todos k) g i = Some t"
  shows "\<exists>t'. get2 (k_todos k') g i = Some t' \<and> todo_later t t'"
  using todo_step [OF assms] todo_grows_later by blast

lemma todo_later_step:
  assumes "kstep k k'" "stores_wf k" "get2 (k_todos k) g i = Some t"
  shows "\<exists>t'. get2 (k_todos k') g i = Some t' \<and> todo_later t t'"
proof -
  from kstep_work [OF assms(1)] assms(2)
  consider "work_step k k'" | k1 where "work_step k k1" "work_step k1 k'" by (auto simp: stores_wf_def)
  then show ?thesis
  proof cases
    case 1
    then show ?thesis using todo_later_work assms(2,3) by blast
  next
    case 2
    from todo_later_work [OF 2(1) assms(2,3)] obtain t1 where
      t1: "get2 (k_todos k1) g i = Some t1" "todo_later t t1" by blast
    from todo_later_work [OF 2(2) wf_step [OF 2(1) assms(2)] t1(1)] t1(2) show ?thesis
      by (blast intro: todo_later_trans)
  qed
qed

inductive ksteps :: "Kernel \<Rightarrow> Kernel \<Rightarrow> bool" where
  none: "ksteps k k"
| more: "ksteps k k1 \<Longrightarrow> kstep k1 k2 \<Longrightarrow> ksteps k k2"

lemma ksteps_reach: "ksteps k k' \<Longrightarrow> kreach k \<Longrightarrow> kreach k'"
  by (induction rule: ksteps.induct) (auto intro: kreach.step)

lemma todo_later_steps:
  assumes "ksteps k k'" "kreach k" "get2 (k_todos k) g i = Some t"
  shows "\<exists>t'. get2 (k_todos k') g i = Some t' \<and> todo_later t t'"
  using assms
proof (induction rule: ksteps.induct)
  case (more k k1 k2)
  then obtain t1 where t1: "get2 (k_todos k1) g i = Some t1" "todo_later t t1" by blast
  have "kreach k1" using more ksteps_reach by blast
  from todo_later_step [OF more(2) kreach_wf [OF this] t1(1)] t1(2) show ?case
    by (blast intro: todo_later_trans)
qed auto

text \<open>The gates of a reachable state are well formed, so listings do not depend on map order.\<close>

lemma kstep_gates:
  assumes "kstep k k'" "stores_wf k" "gates_wf (k_gates k)"
  shows "gates_wf (k_gates k')"
  using assms(1)
proof cases
  case (open_gate now uid gate)
  show ?thesis unfolding open_gate
    by (rule OpenGate_effect [of now uid gate k]) (use assms(3) in \<open>auto intro: wf_intros\<close>)
next
  case (resolve_gate now g i oc)
  show ?thesis unfolding resolve_gate
    by (rule ResolveGate_effect [of now g i oc k]) (use assms(3) in \<open>auto intro: wf_intros\<close>)
next
  case (claim now g i a)
  show ?thesis unfolding claim
    by (rule Claim_effect [of now g i a k]) (use assms(3) in auto)
next
  case (tick now uid g a turn)
  have "k_gates (fst (Claim now g i a k1)) = k_gates k1" for i k1
    by (rule Claim_effect [of now g i a k1]) auto
  with Tick_split [of now uid g a turn k] show ?thesis
    using assms(3) tick by (auto simp: shouldRunCounted_minted(2))
next
  case (writeback wb uid now uidR)
  then have u: "uid \<noteq> ''''" and t: "todos_wf (k_todos k)"
    using assms(2) by (simp_all add: fresh_turn_def stores_wf_def)
  show ?thesis unfolding writeback(1)
    by (rule Writeback_effect [OF t u, of now uidR wb]) (use assms(3) in auto)
next
  case (spend now g turn opts)
  show ?thesis unfolding spend
    by (rule SpendSlot_effect [of now g turn opts k]) (use assms(3) in \<open>auto simp: spent_state_def\<close>)
next
  case (supersede g uid now i a desc why)
  then have u: "uid \<noteq> ''''" and t: "todos_wf (k_todos k)"
    and key: "\<And>j gl. mget (k_goals k) j = Some gl \<Longrightarrow> g_ID gl = j"
    using assms(2) by (simp_all add: fresh_todo_def stores_wf_def goals_wf_def)
  show ?thesis unfolding supersede(1)
    by (rule SupersedeTodo_effect [OF t u key, of now g i a desc why], assumption) (use assms(3) in auto)
qed (use assms(3) in \<open>auto simp: lease_ops_same reward_ops_same compact_same shouldRunCounted_minted
      goals_Upsert_def todos_Upsert_def split_beta\<close>)

lemma kreach_gates: "kreach k \<Longrightarrow> gates_wf (k_gates k)"
proof (induction rule: kreach.induct)
  case (start enforce tx)
  then show ?case by (simp add: NewKernel_def)
qed (auto intro: kstep_gates kreach_wf)
end
