(* ===== verification/CP_Interleave.thy ===== *)
theory CP_Interleave
  imports CP_Invariants
begin

text \<open>
  Concurrent SpendSlot calls.  The Kernel has no lock of its own: a call is a sequence of
  store operations, each atomic under its store's mutex, and other calls run in between.  A
  thread is at one of the program points below; \<open>micro\<close> performs its next store
  operation, with no rollback on failure (the in-memory stores have none).  Between two
  operations of a thread the environment may do anything that neither spends a delivery nor
  writes to the spend log, which covers every operator other than SpendSlot.

  Whatever the interleaving, a turn is charged at most once and at most one call reports
  success; run alone, the micro steps compute SpendSlot.
\<close>

datatype pc = AtGet | AtTicket Delivery | AtConsume Delivery | AtMark Delivery | AtAppend Delivery
  | AtLedger Delivery | AtDone | AtStop

record spender =
  th_goal :: string
  th_turn :: string
  th_opts :: SpendOpts
  th_now :: instant
  th_pc :: pc

fun micro :: "instant \<Rightarrow> string \<Rightarrow> string \<Rightarrow> SpendOpts \<Rightarrow> pc \<Rightarrow> Kernel \<Rightarrow> Kernel \<times> pc" where
  "micro now g t opts AtGet k =
     (case DeliveryStore_Get (k_deliveries k) g t of
        Inl _ \<Rightarrow> (k, AtStop)
      | Inr d \<Rightarrow> if d_Spent d then (k, AtStop) else if \<not> so_Execute opts then (k, AtStop) else (k, AtTicket d))"
| "micro now g t opts (AtTicket d) k =
     (if k_enforceTicket k then
        if so_Token opts = '''' then (k, AtStop)
        else if \<not> dec_ShouldRun (snd (shouldRun now '''' g '''' '''' k)) then (k, AtStop)
        else (k, AtConsume d)
      else (k, AtMark d))"
| "micro now g t opts (AtConsume d) k =
     (case tickets_Consume g t (so_Token opts) k of
        (k, Inl _) \<Rightarrow> (k, AtStop)
      | (k, Inr _) \<Rightarrow> (k, AtMark d))"
| "micro now g t opts (AtMark d) k =
     (case deliveries_MarkSpent g t k of
        (k, Inl _) \<Rightarrow> (k, AtStop)
      | (k, Inr marked) \<Rightarrow> if \<not> marked then (k, AtStop) else (k, AtAppend d))"
| "micro now g t opts (AtAppend d) k =
     (fst (spend_Append now \<lparr>se_GoalID = g, se_TurnID = t, se_Slots = d_Slots d,
        se_Reason = so_Reason opts, se_SpentAt = now\<rparr> k), AtLedger d)"
| "micro now g t opts (AtLedger d) k =
     (fst (ledger_Append now ((newEvent EventAccounting ''quota_slot_spent'' g)
       \<lparr>ev_TurnID := t, ev_Detail := [(''slots'', AnyInt (d_Slots d)), (''reason'', AnyString (so_Reason opts))]\<rparr>) k),
      AtDone)"
| "micro now g t opts AtDone k = (k, AtDone)"
| "micro now g t opts AtStop k = (k, AtStop)"

definition thread_step :: "spender \<Rightarrow> Kernel \<Rightarrow> Kernel \<times> spender" where
  "thread_step th k = (let (k, p) = micro (th_now th) (th_goal th) (th_turn th) (th_opts th) (th_pc th) k
     in (k, th\<lparr>th_pc := p\<rparr>))"

definition quiet_env :: "Kernel \<Rightarrow> Kernel \<Rightarrow> bool" where
  "quiet_env k k' \<longleftrightarrow> k_spend k' = k_spend k \<and> delivery_spent (k_deliveries k') = delivery_spent (k_deliveries k)"

inductive race :: "Kernel \<times> spender list \<Rightarrow> Kernel \<times> spender list \<Rightarrow> bool" where
  stop: "race s s"
| thread: "race s (k, ths) \<Longrightarrow> i < length ths \<Longrightarrow> thread_step (ths ! i) k = (k', th') \<Longrightarrow>
     race s (k', ths[i := th'])"
| env: "race s (k, ths) \<Longrightarrow> quiet_env k k' \<Longrightarrow> race s (k', ths)"

section \<open>The environment\<close>

lemma work_step_quiet:
  "work_step k k' \<Longrightarrow> k_spend k' = k_spend k \<Longrightarrow> quiet_env k k'"
proof (induction rule: work_step.induct)
  case (spent k g turn del now opts k')
  then have "mlist (k_spend (spent_state now g turn opts del k)) g = mlist (k_spend k) g"
    by (simp add: same_work_def)
  then show ?case by (simp add: mlist_spent_state)
qed (auto simp: quiet_env_def same_work_def minted_frame delivery_spent_Record)

section \<open>Counting\<close>

definition at_key :: "string \<Rightarrow> string \<Rightarrow> (pc \<Rightarrow> bool) \<Rightarrow> spender \<Rightarrow> bool" where
  "at_key g t P th \<longleftrightarrow> th_goal th = g \<and> th_turn th = t \<and> P (th_pc th)"

fun marked_pc :: "pc \<Rightarrow> bool" where
  "marked_pc (AtAppend d) = True" | "marked_pc (AtLedger d) = True" | "marked_pc AtDone = True"
| "marked_pc _ = False"

fun logged_pc :: "pc \<Rightarrow> bool" where
  "logged_pc (AtLedger d) = True" | "logged_pc AtDone = True" | "logged_pc _ = False"

definition threads_at :: "string \<Rightarrow> string \<Rightarrow> (pc \<Rightarrow> bool) \<Rightarrow> spender list \<Rightarrow> nat" where
  "threads_at g t P ths = length (filter (at_key g t P) ths)"

lemma length_filter_update:
  "i < length xs \<Longrightarrow> length (filter P (xs[i := y])) + (if P (xs ! i) then 1 else 0) =
     length (filter P xs) + (if P y then 1 else 0)"
proof (induction xs arbitrary: i)
  case (Cons x xs)
  then show ?case by (cases i) auto
qed simp

lemma threads_at_update:
  "i < length ths \<Longrightarrow> threads_at g t P (ths[i := th']) + (if at_key g t P (ths ! i) then 1 else 0) =
     threads_at g t P ths + (if at_key g t P th' then 1 else 0)"
  unfolding threads_at_def by (rule length_filter_update)

definition charges :: "Kernel \<Rightarrow> string \<Rightarrow> string \<Rightarrow> nat" where
  "charges k g t = count_list (charged k g) t"

lemma count_list_distinct: "distinct xs \<Longrightarrow> count_list xs x = (if x \<in> set xs then 1 else 0)"
  by (induction xs) auto

text \<open>The books: who has marked the delivery, who has written the charge.\<close>

definition books :: "Kernel \<Rightarrow> Kernel \<Rightarrow> spender list \<Rightarrow> string \<Rightarrow> string \<Rightarrow> bool" where
  "books k0 k ths g t \<longleftrightarrow>
     charges k0 g t + threads_at g t marked_pc ths = (if delivery_spent (k_deliveries k) (g, t) then 1 else 0) \<and>
     charges k g t = charges k0 g t + threads_at g t logged_pc ths"

text \<open>One micro step, as the change it makes to the books.\<close>

lemma micro_effect:
  assumes "micro now g t opts p k = (k', p')"
  shows "charges k' g' t' + (if (g', t') = (g, t) \<and> logged_pc p then 1 else 0) =
      charges k g' t' + (if (g', t') = (g, t) \<and> logged_pc p' then 1 else 0)"
    and "(if delivery_spent (k_deliveries k') (g', t') then 1 else 0) + (if (g', t') = (g, t) \<and> marked_pc p then 1 else 0)
      = (if delivery_spent (k_deliveries k) (g', t') then 1 else 0) +
        (if (g', t') = (g, t) \<and> marked_pc p' then 1 else (0 :: nat))"
proof -
  have "charges k' g' t' + (if (g', t') = (g, t) \<and> logged_pc p then 1 else 0) =
      charges k g' t' + (if (g', t') = (g, t) \<and> logged_pc p' then 1 else 0)
    \<and> (if delivery_spent (k_deliveries k') (g', t') then 1 else 0) + (if (g', t') = (g, t) \<and> marked_pc p then 1 else 0)
      = (if delivery_spent (k_deliveries k) (g', t') then 1 else 0) +
        (if (g', t') = (g, t) \<and> marked_pc p' then 1 else (0 :: nat))"
    using assms
  proof (cases p)
    case (AtMark d)
    then show ?thesis using assms
      by (cases "g' = g \<and> t' = t")
        (auto simp: deliveries_MarkSpent_def DeliveryStore_MarkSpent_def charges_def charged_def
          delivery_spent_def gomap_simps split_beta split: option.splits if_splits)
  next
    case (AtAppend d)
    then show ?thesis using assms
      by (auto simp: spend_Append_def charges_def charged_def store_simps time_IsZero_def)
  next
    case (AtConsume d)
    then show ?thesis using assms
      by (auto simp: tickets_Consume_def charges_def charged_def split_beta split: sum.splits)
  qed (auto simp: ledger_Append_def charges_def charged_def split: sum.splits if_splits)
  then show "charges k' g' t' + (if (g', t') = (g, t) \<and> logged_pc p then 1 else 0) =
      charges k g' t' + (if (g', t') = (g, t) \<and> logged_pc p' then 1 else 0)"
    and "(if delivery_spent (k_deliveries k') (g', t') then 1 else 0) + (if (g', t') = (g, t) \<and> marked_pc p then 1 else 0)
      = (if delivery_spent (k_deliveries k) (g', t') then 1 else 0) +
        (if (g', t') = (g, t) \<and> marked_pc p' then 1 else (0 :: nat))" by blast+
qed

lemma books_race:
  assumes "race (k0, ths0) (k, ths)" and "inv_spend k0" and "\<forall>th \<in> set ths0. th_pc th = AtGet"
  shows "books k0 k ths g t"
  using assms(1)
proof (induction "(k0, ths0)" "(k, ths)" arbitrary: k ths rule: race.induct)
  case stop
  have "threads_at g t P ths0 = 0" if "\<not> P AtGet" for P
    using assms(3) that by (auto simp: threads_at_def at_key_def filter_empty_conv)
  then have z: "threads_at g t marked_pc ths0 = 0" "threads_at g t logged_pc ths0 = 0" by simp_all
  have "charges k0 g t = (if delivery_spent (k_deliveries k0) (g, t) then 1 else 0)"
    using assms(2) by (simp add: charges_def inv_spend_def count_list_distinct)
  then show ?case by (simp add: books_def z)
next
  case (thread k ths i k' th')
  let ?th = "ths ! i"
  from thread(4) obtain p' where m: "micro (th_now ?th) (th_goal ?th) (th_turn ?th) (th_opts ?th) (th_pc ?th) k = (k', p')"
    and th': "th' = ?th\<lparr>th_pc := p'\<rparr>"
    by (auto simp: thread_step_def Let_def split: prod.splits)
  have keys: "at_key g t P ?th \<longleftrightarrow> (g, t) = (th_goal ?th, th_turn ?th) \<and> P (th_pc ?th)"
    "at_key g t P th' \<longleftrightarrow> (g, t) = (th_goal ?th, th_turn ?th) \<and> P p'" for P
    by (auto simp: at_key_def th')
  note M = threads_at_update [OF thread(3), of g t marked_pc th']
    and L = threads_at_update [OF thread(3), of g t logged_pc th']
  from micro_effect [OF m, of g t] thread(2) M L show ?case
    unfolding books_def keys by linarith
next
  case (env k ths k')
  then show ?case by (auto simp: books_def quiet_env_def charges_def charged_def)
qed

section \<open>A thread alone\<close>

definition run_alone :: "instant \<Rightarrow> string \<Rightarrow> string \<Rightarrow> SpendOpts \<Rightarrow> Kernel \<Rightarrow> Kernel \<times> pc" where
  "run_alone now g t opts k = ((\<lambda>(k, p). micro now g t opts p k) ^^ 6) (k, AtGet)"

lemma run_alone_pass:
  assumes "get2 (k_deliveries k) g t = Some del" "\<not> d_Spent del" "so_Execute opts" "ticket_passes now g t opts k"
  shows "run_alone now g t opts k = (spent_state now g t opts del k, AtDone)"
proof -
  let ?k = "k\<lparr>k_tickets := fst (TicketStore_Consume g t (so_Token opts) (k_tickets k))\<rparr>"
  have "tickets_Consume g t (so_Token opts) k = (?k, Inr ())" if "k_enforceTicket k"
    using assms(4) that by (simp add: ticket_passes_def tickets_Consume_def split_beta isOk_iff)
  moreover have "deliveries_MarkSpent g t k' =
      (k'\<lparr>k_deliveries := put2 g t (del\<lparr>d_Spent := True\<rparr>) (k_deliveries k)\<rparr>, Inr True)"
    if "k_deliveries k' = k_deliveries k" for k'
    using assms(1,2) that by (simp add: deliveries_MarkSpent_def DeliveryStore_MarkSpent_def)
  ultimately show ?thesis
    using assms
    by (cases "k_enforceTicket k")
      (simp_all add: run_alone_def numeral_eq_Suc DeliveryStore_Get_def ticket_passes_def spend_Append_def
        ledger_Append_def spent_state_def)
qed

lemma run_alone_fail:
  assumes "get2 (k_deliveries k) g t = Some del" "\<not> d_Spent del" "so_Execute opts" "\<not> ticket_passes now g t opts k"
  shows "run_alone now g t opts k = (k, AtStop)"
proof -
  from assms(4) have en: "k_enforceTicket k" by (simp add: ticket_passes_def)
  have "\<exists>e. tickets_Consume g t (so_Token opts) k = (k, Inl e)"
    if "\<not> isOk (snd (TicketStore_Consume g t (so_Token opts) (k_tickets k)))"
    using that Consume_fail_same [OF that]
    by (cases "snd (TicketStore_Consume g t (so_Token opts) (k_tickets k))")
      (auto simp: tickets_Consume_def split_beta)
  with assms en show ?thesis
    by (auto simp: run_alone_def numeral_eq_Suc DeliveryStore_Get_def ticket_passes_def)
qed

text \<open>Run alone, the micro steps leave the stores as SpendSlot does.\<close>

lemma run_alone_SpendSlot:
  assumes "so_Execute opts"
  shows "\<exists>m. fst (SpendSlot now g t opts k) = (fst (run_alone now g t opts k))\<lparr>k_metrics := m\<rparr>"
    and "snd (run_alone now g t opts k) = AtDone \<longleftrightarrow> isOk (snd (SpendSlot now g t opts k))"
proof -
  have "(\<exists>m. fst (SpendSlot now g t opts k) = (fst (run_alone now g t opts k))\<lparr>k_metrics := m\<rparr>) \<and>
      (snd (run_alone now g t opts k) = AtDone \<longleftrightarrow> isOk (snd (SpendSlot now g t opts k)))"
  proof (cases "\<exists>del. get2 (k_deliveries k) g t = Some del \<and> \<not> d_Spent del")
    case False
    then have "run_alone now g t opts k = (k, AtStop)"
      by (auto simp: run_alone_def numeral_eq_Suc DeliveryStore_Get_def split: option.splits)
    moreover from False have "fst (SpendSlot now g t opts k) = k" "\<not> isOk (snd (SpendSlot now g t opts k))"
      by (auto simp: SpendSlot_def DeliveryStore_Get_def split: option.splits)
    ultimately show ?thesis by (auto intro: exI [of _ "k_metrics k"])
  next
    case True
    then obtain del where del: "get2 (k_deliveries k) g t = Some del" "\<not> d_Spent del" by blast
    show ?thesis
    proof (rule SpendSlot_effect [of now g t opts k])
      assume k: "fst (SpendSlot now g t opts k) = k"
        and no: "so_Execute opts \<Longrightarrow> \<not> isOk (snd (SpendSlot now g t opts k))"
      have "\<not> ticket_passes now g t opts k"
      proof
        assume "ticket_passes now g t opts k"
        from spendTx_pass [OF del this] del assms have "isOk (snd (SpendSlot now g t opts k))"
          by (simp add: SpendSlot_def DeliveryStore_Get_def Let_def runTx_def)
        with no assms show False by blast
      qed
      from run_alone_fail [OF del assms this] k no assms show ?thesis
        by (auto intro: exI [of _ "k_metrics k"])
    next
      fix del' m
      assume "get2 (k_deliveries k) g t = Some del'" "\<not> d_Spent del'" "ticket_passes now g t opts k"
        "fst (SpendSlot now g t opts k) = (spent_state now g t opts del' k)\<lparr>k_metrics := m\<rparr>"
        "isOk (snd (SpendSlot now g t opts k))"
      with run_alone_pass [OF _ _ assms] show ?thesis by auto
    qed
  qed
  then show "\<exists>m. fst (SpendSlot now g t opts k) = (fst (run_alone now g t opts k))\<lparr>k_metrics := m\<rparr>"
    and "snd (run_alone now g t opts k) = AtDone \<longleftrightarrow> isOk (snd (SpendSlot now g t opts k))" by blast+
qed

end
