(* ===== verification/CP_Maintenance.thy ===== *)
theory CP_Maintenance
  imports CP_Invariants
begin

text \<open>
  The maintenance entry points of kernel.go: what reaping and compaction keep, and that no
  decision depends on them.  The last section proves where the operators fall short of what
  they announce: spending under enforcement on goals with registered agents, the stage a
  successor loses, ledger indices after a compaction, failed writebacks.
\<close>

section \<open>ReapAll\<close>

lemma ReapAll_fold:
  "\<exists>l. foldl (\<lambda>k g. k\<lparr>k_ledger := Ledger_Compact now (g_ID g) n (k_ledger k)\<rparr>) k gs = k\<lparr>k_ledger := l\<rparr>"
proof (induction gs arbitrary: k)
  case Nil
  then show ?case by (auto intro: exI [of _ "k_ledger k"])
next
  case (Cons g gs)
  from Cons [of "k\<lparr>k_ledger := Ledger_Compact now (g_ID g) n (k_ledger k)\<rparr>"] show ?case by auto
qed

lemma ReapAll_effect:
  obtains l where "ReapAll ord now olderThan abandonTTL n k =
    k\<lparr>k_tickets := TicketStore_ReapUnconsumed now abandonTTL (TicketStore_Reap now olderThan (k_tickets k)),
      k_deliveries := DeliveryStore_Reap now olderThan (k_deliveries k),
      k_rewards := RewardStore_Reap now olderThan (k_rewards k), k_ledger := l\<rparr>"
proof -
  let ?k = "k\<lparr>k_tickets := TicketStore_ReapUnconsumed now abandonTTL (TicketStore_Reap now olderThan (k_tickets k)),
      k_deliveries := DeliveryStore_Reap now olderThan (k_deliveries k),
      k_rewards := RewardStore_Reap now olderThan (k_rewards k)\<rparr>"
  have "ReapAll ord now olderThan abandonTTL n k =
      foldl (\<lambda>k g. k\<lparr>k_ledger := Ledger_Compact now (g_ID g) n (k_ledger k)\<rparr>) ?k (GoalStore_List ord (k_goals k))"
    by (simp add: ReapAll_def Let_def)
  with ReapAll_fold [of now n ?k "GoalStore_List ord (k_goals k)"] that show thesis by auto
qed

text \<open>Decisions before and after are the same, word for word.\<close>

lemma policyVeto_Reap:
  "policyVeto g (k\<lparr>k_rewards := RewardStore_Reap now d (k_rewards k)\<rparr>) = policyVeto g k"
proof -
  have empty: "SelectByPrecedence [] s = []" for s by (simp add: SelectByPrecedence_def)
  have "policyVeto g k = find (\<lambda>r. rr_Class r = AuthorityHardPolicy)
      (SelectByPrecedence (RewardStore_List (k_rewards k) g)
        \<lparr>ds_Kind = ScopeDirection, ds_Granularity = GranularityGoal, ds_ScopeKey = g\<rparr>)" for k
    by (simp add: policyVeto_def Let_def empty)
  then show ?thesis by (simp add: SelectByPrecedence_Reap)
qed

lemma policyVeto_cong: "k_rewards k = k_rewards k' \<Longrightarrow> policyVeto g k = policyVeto g k'"
  by (simp add: policyVeto_def)

lemma ShouldRun_ReapAll:
  "snd (ShouldRun now g a (ReapAll ord t olderThan abandonTTL n k)) = snd (ShouldRun now g a k)"
proof (rule ReapAll_effect [of ord t olderThan abandonTTL n k])
  fix l
  let ?k = "k\<lparr>k_tickets := TicketStore_ReapUnconsumed t abandonTTL (TicketStore_Reap t olderThan (k_tickets k)),
      k_deliveries := DeliveryStore_Reap t olderThan (k_deliveries k),
      k_rewards := RewardStore_Reap t olderThan (k_rewards k), k_ledger := l\<rparr>"
  assume eq: "ReapAll ord t olderThan abandonTTL n k = ?k"
  have "policyVeto g ?k = policyVeto g (k\<lparr>k_rewards := RewardStore_Reap t olderThan (k_rewards k)\<rparr>)"
    by (rule policyVeto_cong) simp
  then have "policyVeto g ?k = policyVeto g k" by (simp only: policyVeto_Reap)
  then show ?thesis unfolding eq
    by (simp add: ShouldRun_def shouldRunCounted_snd shouldRun_def Let_def
        split: sum.splits list.splits option.splits)
qed

lemma ReapAll_keeps:
  assumes "mwf2 (k_tickets k)" "mwf2 (k_deliveries k)"
  shows "get2 (k_deliveries k) g t = Some d \<Longrightarrow> \<not> d_Spent d \<Longrightarrow>
      get2 (k_deliveries (ReapAll ord now olderThan abandonTTL n k)) g t = Some d"
    and "get2 (k_tickets k) g t = Some tk \<Longrightarrow> \<not> tk_consumed tk \<Longrightarrow> now - abandonTTL \<le> tk_mintedAt tk \<Longrightarrow>
      get2 (k_tickets (ReapAll ord now olderThan abandonTTL n k)) g t = Some tk"
    and "r \<in> set (mlist (k_rewards k) g) \<Longrightarrow> Reward_IsActive r \<Longrightarrow>
      r \<in> set (mlist (k_rewards (ReapAll ord now olderThan abandonTTL n k)) g)"
proof -
  have wf: "mwf2 (TicketStore_Reap now olderThan (k_tickets k))"
    using assms(1) by (simp add: TicketStore_Reap_def Let_def wf_intros)
  show "get2 (k_deliveries k) g t = Some d \<Longrightarrow> \<not> d_Spent d \<Longrightarrow>
      get2 (k_deliveries (ReapAll ord now olderThan abandonTTL n k)) g t = Some d"
    by (rule ReapAll_effect [of ord now olderThan abandonTTL n k]) (simp add: get2_DeliveryReap assms(2))
  show "get2 (k_tickets k) g t = Some tk \<Longrightarrow> \<not> tk_consumed tk \<Longrightarrow> now - abandonTTL \<le> tk_mintedAt tk \<Longrightarrow>
      get2 (k_tickets (ReapAll ord now olderThan abandonTTL n k)) g t = Some tk"
    by (rule ReapAll_effect [of ord now olderThan abandonTTL n k])
      (simp add: get2_ReapUnconsumed [OF wf] get2_Reap [OF assms(1)])
  show "r \<in> set (mlist (k_rewards k) g) \<Longrightarrow> Reward_IsActive r \<Longrightarrow>
      r \<in> set (mlist (k_rewards (ReapAll ord now olderThan abandonTTL n k)) g)"
    by (rule ReapAll_effect [of ord now olderThan abandonTTL n k]) (simp add: mlist_RewardReap)
qed

section \<open>Where the operators fall short\<close>

text \<open>
  The eligibility probe of SpendSlot asks on behalf of the agent with the empty name.  A goal
  that names its agents does not register that one, so the probe always says no.
\<close>

lemma enforced_spend_with_agents_fails:
  assumes "mget (k_goals k) g = Some gl" "g_RegisteredAgents gl \<noteq> []" "'''' \<notin> set (g_RegisteredAgents gl)"
    and "k_enforceTicket k" "so_Execute opts"
  shows "fst (SpendSlot now g t opts k) = k" "\<not> isOk (snd (SpendSlot now g t opts k))"
proof -
  have "\<not> dec_ShouldRun (snd (shouldRun now '''' g '''' '''' k))"
    using assms(1-3) by (simp add: shouldRun_def GoalStore_Get_def)
  then have np: "\<not> ticket_passes now g t opts k" using assms(4) by (simp add: ticket_passes_def)
  show "fst (SpendSlot now g t opts k) = k"
    by (rule SpendSlot_effect [of now g t opts k]) (use np in auto)
  show "\<not> isOk (snd (SpendSlot now g t opts k))"
    by (rule SpendSlot_effect [of now g t opts k]) (use np assms(5) in auto)
qed

text \<open>A successor carries no stage: its completion asks for no gate, whatever the old todo's stage.\<close>

lemma successor_not_gated: "\<not> laneStageGated k gl (successorTodo uid g desc old)"
  by (simp add: laneStageGated_def successorTodo_def)

text \<open>After a compaction the next index is the length of what was kept, plus one for the marker.\<close>

lemma index_after_compact:
  assumes "0 \<le> n" "n < int (length (mlist l g))" "ev_GoalID e = g"
  shows "snd (Ledger_Append now e (Ledger_Compact now' g n l)) = n + 1"
proof -
  have "length (mlist (Ledger_Compact now' g n l) g) = Suc (nat n)"
    using assms(1,2) by (simp add: mlist_Compact)
  then show ?thesis using assms(1,3) by (simp add: Ledger_Append_def Let_def)
qed

text \<open>A failed writeback stores its evidence and a ledger event.\<close>

lemma failed_writeback_changes:
  assumes "todos_wf (k_todos k)" "uid \<noteq> ''''" "get2 (k_todos k) (wb_GoalID wb) (wb_TodoID wb) = Some t"
    and "o_Status (wb_Outcome wb) = OutcomeFailed" "t_ClaimedBy t = ''''"
  shows "\<exists>t'. get2 (k_todos (fst (Writeback now uid uidR wb k))) (wb_GoalID wb) (wb_TodoID wb) = Some t' \<and>
     t_Evidence t' = t_Evidence t @ wb_Evidence wb"
proof -
  from ids_of_todo [OF assms(1,3)] have ids: "t_GoalID t = wb_GoalID wb" "t_ID t = wb_TodoID wb"
    "wb_GoalID wb \<noteq> ''''" "wb_TodoID wb \<noteq> ''''" by simp_all
  have na: "\<not> accountable wb" using assms(4) by (simp add: accountable_def IsAccountable_def)
  have v: "Validate wb = Inr ()" using ids assms(4) by (simp add: Validate_def IsAccountable_def)
  have al: "writeback_allowed k wb t" using assms(4,5) by (simp add: writeback_allowed_def)
  have w: "Writeback now uid uidR wb k = writebackTodo now uid uidR wb t k"
    using v na assms(3) by (simp add: Writeback_def TodoStore_Get_get2 accountable_def)
  show ?thesis unfolding w
    by (rule writebackTodo_effect [of t wb uid k now uidR])
      (use ids assms(2) al in \<open>auto simp: store_simps\<close>)
qed

end
