(* ===== verification/CP_Peer.thy ===== *)
theory CP_Peer
  imports CP_Types Go_Strings "HOL-Library.Word"
begin

text \<open>
  The peer assignment of peer.go: a 64-bit FNV-1a hash of the work key over the sorted set of
  registered agents picks the owner.  The lemmas show that a registered agent is picked and
  that the order and the duplicates of the registration do not matter.
\<close>

unbundle bit_operations_syntax

text \<open>The loop of canonicalAgents: \<open>seen\<close> and \<open>out\<close> hold the same strings.\<close>

fun dedupAgents :: "string list \<Rightarrow> string list \<Rightarrow> string list" where
  "dedupAgents out [] = out"
| "dedupAgents out (a # as) =
     (if a = '''' then dedupAgents out as
      else if List.member out a then dedupAgents out as
      else dedupAgents (out @ [a]) as)"

definition canonicalAgents :: "string list \<Rightarrow> string list" where
  "canonicalAgents agents = (if agents = [] then [] else sort (dedupAgents [] agents))"

text \<open>\<^verbatim>\<open>hash/fnv\<close>, New64a: xor the byte, then multiply by the prime.\<close>

definition fnv64_offset :: "64 word" where "fnv64_offset = 14695981039346656037"
definition fnv64_prime :: "64 word" where "fnv64_prime = 1099511628211"

definition fnv64a :: "64 word \<Rightarrow> string \<Rightarrow> 64 word" where
  "fnv64a h s = foldl (\<lambda>h c. (h XOR of_char c) * fnv64_prime) h s"

definition AssignPeer :: "string \<Rightarrow> string list \<Rightarrow> string cp_result" where
  "AssignPeer workKey agents =
     (let canonical = canonicalAgents agents
      in if length canonical = 0 then Inl ErrNoRegisteredAgents
         else if length canonical = 1 then Inr (canonical ! 0)
         else let h = fnv64a fnv64_offset workKey;
                  h = fnv64a h [CHR 0x00];
                  h = fnv64a h (Join canonical [CHR 0x00]);
                  idx = nat (sint (h mod of_nat (length canonical)))
              in Inr (canonical ! idx))"

lemma dedupAgents_spec:
  "distinct out \<Longrightarrow> distinct (dedupAgents out as) \<and> set (dedupAgents out as) = set out \<union> (set as - {''''})"
  by (induction out as rule: dedupAgents.induct) (auto simp: )

lemma set_canonicalAgents: "set (canonicalAgents as) = set as - {''''}"
  and distinct_canonicalAgents: "distinct (canonicalAgents as)"
  and sorted_canonicalAgents: "sorted (canonicalAgents as)"
  using dedupAgents_spec [of "[]" as] by (auto simp: canonicalAgents_def)

lemma canonicalAgents_cong: "set as - {''''} = set bs - {''''} \<Longrightarrow> canonicalAgents as = canonicalAgents bs"
  by (rule sorted_distinct_set_unique)
    (simp_all add: sorted_canonicalAgents distinct_canonicalAgents set_canonicalAgents)

text \<open>The remainder is below the number of agents, so the conversion to \<^verbatim>\<open>int\<close>
  keeps it; a slice has fewer than \<open>2 ^ 63\<close> elements.\<close>

lemma sint_small: "int (unat (r :: 64 word)) < 2 ^ 63 \<Longrightarrow> sint r = int (unat r)"
proof -
  assume "int (unat r) < 2 ^ 63"
  then have "signed_take_bit 63 (uint r) = uint r"
    by (intro signed_take_bit_int_eq_self) (simp_all add: order_trans [OF _ uint_ge_0])
  then show ?thesis by (simp add: sint_uint)
qed

lemma peer_index_bound:
  assumes "0 < n" and "n < 2 ^ 63"
  shows "nat (sint ((h :: 64 word) mod of_nat n)) < n"
proof -
  let ?r = "h mod of_nat n"
  have "unat (of_nat n :: 64 word) = n"
    unfolding unat_of_nat by (rule mod_less) (use assms(2) in simp)
  then have "unat ?r = unat h mod n" by (simp only: unat_mod)
  then have lt: "unat ?r < n" using assms(1) by (simp only: mod_less_divisor)
  then have "unat ?r < 2 ^ 63" using assms(2) by (rule less_trans)
  then have "int (unat ?r) < int (2 ^ 63)" by (simp only: of_nat_less_iff)
  then have "int (unat ?r) < 2 ^ 63" by (simp only: of_nat_power of_nat_numeral)
  then have "sint ?r = int (unat ?r)" by (rule sint_small)
  with lt show ?thesis by (simp only: nat_int)
qed

lemma AssignPeer_picks_registered:
  assumes "set as - {''''} \<noteq> {}" and "length as < 2 ^ 63"
  shows "\<exists>a \<in> set as. a \<noteq> '''' \<and> AssignPeer key as = Inr a"
proof -
  let ?c = "canonicalAgents as"
  have c: "set ?c = set as - {''''}" by (rule set_canonicalAgents)
  then have pos: "0 < length ?c" using assms(1) by (metis length_greater_0_conv list.set(1))
  have "length ?c = card (set ?c)" by (simp add: distinct_canonicalAgents distinct_card)
  also have "\<dots> \<le> card (set as)" unfolding c by (simp add: card_mono)
  also have "\<dots> \<le> length as" by (rule card_length)
  finally have "length ?c < 2 ^ 63" using assms(2) by simp
  note bound = peer_index_bound [OF pos this]
  have "\<exists>i < length ?c. AssignPeer key as = Inr (?c ! i)"
  proof (cases "length ?c = 1")
    case True
    then have "AssignPeer key as = Inr (?c ! 0)" unfolding AssignPeer_def Let_def by simp
    with pos show ?thesis by blast
  next
    case False
    have nz: "length ?c \<noteq> 0" using pos by simp
    have "\<exists>h. AssignPeer key as = Inr (?c ! nat (sint ((h :: 64 word) mod of_nat (length ?c))))"
      unfolding AssignPeer_def Let_def if_not_P [OF nz] if_not_P [OF False] by (intro exI) (rule refl)
    with bound show ?thesis by blast
  qed
  then obtain i where i: "i < length ?c" and eq: "AssignPeer key as = Inr (?c ! i)" by blast
  from i have "?c ! i \<in> set ?c" by (rule nth_mem)
  then have "?c ! i \<in> set as" "?c ! i \<noteq> ''''" unfolding c by simp_all
  with eq show ?thesis by (intro bexI [of _ "?c ! i"] conjI)
qed

end
