(* ===== verification/Go_Paths.thy ===== *)
theory Go_Paths
  imports Go_Strings
begin

text \<open>
  The functions of Go's packages \<^verbatim>\<open>unicode/utf8\<close>, \<^verbatim>\<open>path\<close>
  and \<^verbatim>\<open>path/filepath\<close> (on Unix) that the modelled code calls: decoding one rune,
  lexical cleaning of a path, its directory and base name, its absolute form, and shell
  patterns.  The runes above ASCII that are letters or digits are a parameter of the
  definitions that ask for them.
\<close>

section \<open>Runes\<close>

definition contByte :: "char \<Rightarrow> bool" where
  "contByte c \<longleftrightarrow> CHR 0x80 \<le> c \<and> c \<le> CHR 0xBF"

abbreviation RuneError :: nat where "RuneError \<equiv> 65533"

abbreviation sixBits :: "char \<Rightarrow> nat" where "sixBits c \<equiv> of_char c mod 64"

text \<open>\<^verbatim>\<open>utf8.DecodeRuneInString\<close>: the first rune and its width; an encoding
  that is not UTF-8 is one byte of \<open>RuneError\<close>.\<close>

definition second3 :: "char \<Rightarrow> char \<Rightarrow> bool" where
  "second3 a b \<longleftrightarrow> CHR 0xE0 \<le> a \<and> a \<le> CHR 0xEF \<and> contByte b \<and>
     (a = CHR 0xE0 \<longrightarrow> CHR 0xA0 \<le> b) \<and> (a = CHR 0xED \<longrightarrow> b \<le> CHR 0x9F)"

definition second4 :: "char \<Rightarrow> char \<Rightarrow> bool" where
  "second4 a b \<longleftrightarrow> CHR 0xF0 \<le> a \<and> a \<le> CHR 0xF4 \<and> contByte b \<and>
     (a = CHR 0xF0 \<longrightarrow> CHR 0x90 \<le> b) \<and> (a = CHR 0xF4 \<longrightarrow> b \<le> CHR 0x8F)"

definition DecodeRune :: "string \<Rightarrow> nat \<times> nat" where
  "DecodeRune s = (case s of [] \<Rightarrow> (RuneError, 0) | a # s \<Rightarrow>
     if a < CHR 0x80 then (of_char a, 1) else
     (case s of [] \<Rightarrow> (RuneError, 1) | b # s \<Rightarrow>
       if CHR 0xC2 \<le> a \<and> a \<le> CHR 0xDF \<and> contByte b
         then ((of_char a mod 32) * 64 + sixBits b, 2) else
       (case s of [] \<Rightarrow> (RuneError, 1) | c # s \<Rightarrow>
         if second3 a b \<and> contByte c
           then ((of_char a mod 16) * 4096 + sixBits b * 64 + sixBits c, 3) else
         (case s of [] \<Rightarrow> (RuneError, 1) | d # s \<Rightarrow>
           if second4 a b \<and> contByte c \<and> contByte d
             then ((of_char a mod 8) * 262144 + sixBits b * 4096 + sixBits c * 64 + sixBits d, 4)
           else (RuneError, 1)))))"

lemma DecodeRune_width: "s \<noteq> [] \<Longrightarrow> 0 < snd (DecodeRune s)"
  by (auto simp: DecodeRune_def split: list.splits)

lemma DecodeRune_ascii [simp]: "a < CHR 0x80 \<Longrightarrow> DecodeRune (a # s) = (of_char a, 1)"
  by (simp add: DecodeRune_def)

text \<open>The runes a \<^verbatim>\<open>range\<close> loop over a string visits.\<close>

function runes :: "string \<Rightarrow> nat list" where
  "runes s = (if s = [] then [] else fst (DecodeRune s) # runes (drop (snd (DecodeRune s)) s))"
  by pat_completeness auto
termination
  by (relation "measure length") (auto simp: DecodeRune_width)

declare runes.simps [simp del]

lemma runes_Nil [simp]: "runes [] = []"
  by (simp add: runes.simps)

lemma runes_ascii: "a < CHR 0x80 \<Longrightarrow> runes (a # s) = of_char a # runes s"
  by (subst runes.simps) simp

section \<open>Lexical paths\<close>

text \<open>\<open>cleanComps\<close> works through the elements of a path, the ones kept so far in
  reverse: empty elements and dots go, a double dot takes back the element before it.\<close>

fun cleanComps :: "bool \<Rightarrow> string list \<Rightarrow> string list \<Rightarrow> string list" where
  "cleanComps rooted out [] = rev out"
| "cleanComps rooted out (c # cs) =
     (if c = [] \<or> c = ''.'' then cleanComps rooted out cs
      else if c = ''..'' then
        (case out of
           [] \<Rightarrow> cleanComps rooted (if rooted then [] else [''..'']) cs
         | prev # rest \<Rightarrow> if prev = ''..'' then cleanComps rooted (''..'' # out) cs
             else cleanComps rooted rest cs)
      else cleanComps rooted (c # out) cs)"

definition path_Clean :: "string \<Rightarrow> string" where
  "path_Clean p =
     (if p = [] then ''.'' else
      let rooted = (hd p = CHR ''/'');
          q = (if rooted then ''/'' else []) @ Join (cleanComps rooted [] (Split p (CHR ''/''))) ''/''
      in if q = [] then ''.'' else q)"

text \<open>Up to and including the last slash.\<close>

definition uptoSlash :: "string \<Rightarrow> string" where
  "uptoSlash p = rev (dropWhile (\<lambda>c. c \<noteq> CHR ''/'') (rev p))"

definition path_Dir :: "string \<Rightarrow> string" where
  "path_Dir p = path_Clean (uptoSlash p)"

definition path_Base :: "string \<Rightarrow> string" where
  "path_Base p =
     (if p = [] then ''.'' else
      let q = rev (dropWhile (\<lambda>c. c = CHR ''/'') (rev p));
          b = rev (takeWhile (\<lambda>c. c \<noteq> CHR ''/'') (rev q))
      in if b = [] then ''/'' else b)"

text \<open>\<^verbatim>\<open>filepath.Abs\<close>, given what \<^verbatim>\<open>os.Getwd\<close> returns.\<close>

definition path_Abs :: "string option \<Rightarrow> string \<Rightarrow> string option" where
  "path_Abs cwd p =
     (if HasPrefix p ''/'' then Some (path_Clean p)
      else map_option (\<lambda>wd. if wd = [] then (if p = [] then [] else path_Clean p)
                             else path_Clean (wd @ ''/'' @ p)) cwd)"

section \<open>Shell patterns\<close>

text \<open>\<^verbatim>\<open>filepath.Match\<close>; the error \<^verbatim>\<open>ErrBadPattern\<close> is None.\<close>

definition getEsc :: "string \<Rightarrow> (nat \<times> string) option" where
  "getEsc chunk =
     (if chunk = [] \<or> hd chunk = CHR ''-'' \<or> hd chunk = CHR '']'' then None
      else let chunk = (if hd chunk = CHR 0x5C then tl chunk else chunk) in
        if chunk = [] then None
        else let (r, n) = DecodeRune chunk; nchunk = drop n chunk in
          if r = RuneError \<and> n = 1 \<or> nchunk = [] then None else Some (r, nchunk))"

lemma getEsc_shorter: "getEsc chunk = Some (r, rest) \<Longrightarrow> length rest < length chunk"
proof -
  assume a: "getEsc chunk = Some (r, rest)"
  define c where "c = (if hd chunk = CHR 0x5C then tl chunk else chunk)"
  from a have "c \<noteq> []" and "rest = drop (snd (DecodeRune c)) c"
    by (auto simp: getEsc_def c_def Let_def split: if_splits prod.splits)
  moreover have "length c \<le> length chunk" by (simp add: c_def)
  ultimately show ?thesis using DecodeRune_width [of c] by (cases c) auto
qed

function matchRanges :: "nat \<Rightarrow> bool \<Rightarrow> bool \<Rightarrow> string \<Rightarrow> (bool \<times> string) option" where
  "matchRanges r some_range matched chunk =
     (if chunk \<noteq> [] \<and> hd chunk = CHR '']'' \<and> some_range then Some (matched, tl chunk)
      else case getEsc chunk of None \<Rightarrow> None
        | Some (lo, rest) \<Rightarrow>
            if hd rest = CHR ''-'' then
              (case getEsc (tl rest) of None \<Rightarrow> None
               | Some (hi, rest') \<Rightarrow> matchRanges r True (matched \<or> lo \<le> r \<and> r \<le> hi) rest')
            else matchRanges r True (matched \<or> lo \<le> r \<and> r \<le> lo) rest)"
  by pat_completeness auto
termination
  by (relation "measure (\<lambda>(r, some_range, matched, chunk). length chunk)")
     (auto dest!: getEsc_shorter)

declare matchRanges.simps [simp del]

lemma matchRanges_shorter:
  "matchRanges r some_range matched chunk = Some (b, rest) \<Longrightarrow> length rest < length chunk"
proof (induction r some_range matched chunk rule: matchRanges.induct)
  case (1 r some_range matched chunk)
  show ?case
  proof (cases "chunk \<noteq> [] \<and> hd chunk = CHR '']'' \<and> some_range")
    case True
    then have "matchRanges r some_range matched chunk = Some (matched, tl chunk)"
      by (subst matchRanges.simps) simp
    with "1.prems" True show ?thesis by simp
  next
    case False
    with "1.prems" obtain lo rest1 where g: "getEsc chunk = Some (lo, rest1)"
      by (auto simp: matchRanges.simps [of r some_range matched chunk] split: option.splits)
    note sh = getEsc_shorter [OF g]
    show ?thesis
    proof (cases "hd rest1 = CHR ''-''")
      case True
      with False g "1.prems" obtain hi rest2 where h: "getEsc (tl rest1) = Some (hi, rest2)"
        and m: "matchRanges r True (matched \<or> lo \<le> r \<and> r \<le> hi) rest2 = Some (b, rest)"
        by (auto simp: matchRanges.simps [of r some_range matched chunk] split: option.splits)
      from "1.IH"(1) [OF False g refl True h refl m] getEsc_shorter [OF h] sh
      show ?thesis by simp
    next
      case neq: False
      with False g "1.prems" have m: "matchRanges r True (matched \<or> lo \<le> r \<and> r \<le> lo) rest1 = Some (b, rest)"
        by (auto simp: matchRanges.simps [of r some_range matched chunk] split: option.splits)
      from "1.IH"(2) [OF False g refl neq m] sh show ?thesis by simp
    qed
  qed
qed

text \<open>One star-free chunk against the front of the name: what is left of the name, if it
  matches.  After a mismatch the rest of the chunk is still checked for syntax.\<close>

function matchChunk :: "bool \<Rightarrow> string \<Rightarrow> string \<Rightarrow> string option option" where
  "matchChunk failed [] s = Some (if failed then None else Some s)"
| "matchChunk failed (c # chunk) s =
     (let failed = (failed \<or> s = []) in
      if c = CHR ''['' then
        (let (r, n) = (if failed then (0, 0) else DecodeRune s);
             negated = (chunk \<noteq> [] \<and> hd chunk = CHR ''^'') in
         case matchRanges r False False (if negated then tl chunk else chunk) of None \<Rightarrow> None
         | Some (m, rest) \<Rightarrow> matchChunk (failed \<or> m = negated) rest (drop n s))
      else if c = CHR ''?'' then
        (if failed then matchChunk True chunk s
         else matchChunk (hd s = CHR ''/'') chunk (drop (snd (DecodeRune s)) s))
      else if c = CHR 0x5C then
        (case chunk of [] \<Rightarrow> None
         | c' # chunk' \<Rightarrow> if failed then matchChunk True chunk' s
             else matchChunk (c' \<noteq> hd s) chunk' (tl s))
      else if failed then matchChunk True chunk s
      else matchChunk (c \<noteq> hd s) chunk (tl s))"
  by pat_completeness auto
termination
proof (relation "measure (\<lambda>(failed, chunk, s). length chunk)", goal_cases)
  case (2 failed c chunk s f x r n neg y m rest)
  from 2(6,7) have "matchRanges r False False (if neg then tl chunk else chunk) = Some (m, rest)"
    by simp
  then have "length rest < length (if neg then tl chunk else chunk)"
    by (rule matchRanges_shorter)
  moreover have "length (if neg then tl chunk else chunk) \<le> length chunk" by simp
  ultimately have "length rest < length (c # chunk)" by (simp only: length_Cons)
  then show ?case by simp
qed simp_all

fun scanLen :: "bool \<Rightarrow> string \<Rightarrow> nat" where
  "scanLen inrange [] = 0"
| "scanLen inrange (c # cs) =
     (if c = CHR 0x5C then (case cs of [] \<Rightarrow> 1 | _ # cs' \<Rightarrow> 2 + scanLen inrange cs')
      else if c = CHR ''['' then 1 + scanLen True cs
      else if c = CHR '']'' then 1 + scanLen False cs
      else if c = CHR ''*'' \<and> \<not> inrange then 0
      else 1 + scanLen inrange cs)"

definition scanChunk :: "string \<Rightarrow> bool \<times> string \<times> string" where
  "scanChunk pattern =
     (let p = dropWhile (\<lambda>c. c = CHR ''*'') pattern; n = scanLen False p
      in (p \<noteq> pattern, take n p, drop n p))"

lemma scanLen_pos: "p \<noteq> [] \<Longrightarrow> hd p \<noteq> CHR ''*'' \<Longrightarrow> 0 < scanLen False p"
  by (cases p) (auto split: list.splits)

lemma scanChunk_shorter:
  assumes "pattern \<noteq> []" and "scanChunk pattern = (star, chunk, rest)"
  shows "length rest < length pattern"
proof -
  define p where "p = dropWhile (\<lambda>c. c = CHR ''*'') pattern"
  have le: "length p \<le> length pattern" by (simp add: p_def length_dropWhile_le)
  from assms(2) have rest: "rest = drop (scanLen False p) p"
    by (simp add: scanChunk_def p_def Let_def)
  show ?thesis
  proof (cases "p = pattern")
    case True
    with assms(1) have "hd p \<noteq> CHR ''*''"
      using hd_dropWhile [of "\<lambda>c. c = CHR ''*''" pattern] by (simp add: p_def [symmetric])
    with True assms(1) have "0 < scanLen False p" by (simp add: scanLen_pos)
    with rest True assms(1) show ?thesis by simp
  next
    case False
    have split: "takeWhile (\<lambda>c. c = CHR ''*'') pattern @ p = pattern"
      by (simp add: p_def)
    with False have "takeWhile (\<lambda>c. c = CHR ''*'') pattern \<noteq> []" by auto
    moreover from split have
      "length (takeWhile (\<lambda>c. c = CHR ''*'') pattern) + length p = length pattern"
      by (simp only: length_append [symmetric])
    ultimately have "length p < length pattern" by (cases "takeWhile (\<lambda>c. c = CHR ''*'') pattern") simp_all
    with rest show ?thesis by simp
  qed
qed

text \<open>After a star: try the chunk behind ever longer skips that contain no slash.\<close>

fun starTry :: "string \<Rightarrow> bool \<Rightarrow> string \<Rightarrow> string option option" where
  "starTry chunk final [] = Some None"
| "starTry chunk final (c # name) =
     (if c = CHR ''/'' then Some None
      else case matchChunk False chunk name of None \<Rightarrow> None
        | Some None \<Rightarrow> starTry chunk final name
        | Some (Some t) \<Rightarrow> if final \<and> t \<noteq> [] then starTry chunk final name else Some (Some t))"

text \<open>The chunks behind a mismatch are checked for syntax.\<close>

function chunksOk :: "string \<Rightarrow> bool" where
  "chunksOk pattern =
     (if pattern = [] then True
      else let (star, chunk, rest) = scanChunk pattern in
        matchChunk False chunk [] \<noteq> None \<and> chunksOk rest)"
  by pat_completeness auto
termination
  by (relation "measure length") (auto dest: scanChunk_shorter [OF _ sym])

declare chunksOk.simps [simp del]

function path_Match :: "string \<Rightarrow> string \<Rightarrow> bool option" where
  "path_Match pattern name =
     (if pattern = [] then Some (name = [])
      else let (star, chunk, rest) = scanChunk pattern in
        if star \<and> chunk = [] then Some (\<not> Contains name ''/'')
        else case matchChunk False chunk name of
          None \<Rightarrow> None
        | Some (Some t) \<Rightarrow>
            if t = [] \<or> rest \<noteq> [] then path_Match rest t
            else if star then
              (case starTry chunk (rest = []) name of None \<Rightarrow> None
               | Some (Some t) \<Rightarrow> path_Match rest t
               | Some None \<Rightarrow> if chunksOk rest then Some False else None)
            else if chunksOk rest then Some False else None
        | Some None \<Rightarrow>
            if star then
              (case starTry chunk (rest = []) name of None \<Rightarrow> None
               | Some (Some t) \<Rightarrow> path_Match rest t
               | Some None \<Rightarrow> if chunksOk rest then Some False else None)
            else if chunksOk rest then Some False else None)"
  by pat_completeness auto
termination
  by (relation "measure (\<lambda>(pattern, name). length pattern)") (auto dest: scanChunk_shorter [OF _ sym])

declare path_Match.simps [simp del]

end
