(* ===== verification/Perm_Shell.thy ===== *)
theory Perm_Shell
  imports Go_Paths
begin

text \<open>
  The shell reader of \<^verbatim>\<open>permission/bash_parser.go\<close> (with
  \<^verbatim>\<open>bash_split.go\<close> and \<^verbatim>\<open>bash_split_default.go\<close>): the quote
  and parenthesis state of a scan, the splitting of a compound command, the bodies of command
  substitutions, output redirection, words, and the prefix of a command.

  A loop \<^verbatim>\<open>for i := 0; i < len(cmd); i++\<close> is a recursion over the rest of
  the string from \<open>i\<close>; \<open>prev\<close> is \<^verbatim>\<open>cmd[i-1]\<close>, None at the
  start.  The package is modelled without the build tag \<^verbatim>\<open>treesitter\<close>, the
  default build.
\<close>

abbreviation squote :: char where "squote \<equiv> CHR 0x27"
abbreviation dquote :: char where "dquote \<equiv> CHR 0x22"
abbreviation backtick :: char where "backtick \<equiv> CHR 0x60"
abbreviation bslash :: char where "bslash \<equiv> CHR 0x5C"

section \<open>Scanning\<close>

record shellScanState =
  inSingle :: bool
  inDouble :: bool
  inBacktick :: bool
  parenDepth :: int

definition scanStart :: shellScanState where
  "scanStart = \<lparr>inSingle = False, inDouble = False, inBacktick = False, parenDepth = 0\<rparr>"

definition atTopLevel :: "shellScanState \<Rightarrow> bool" where
  "atTopLevel s \<longleftrightarrow> \<not> inSingle s \<and> \<not> inDouble s \<and> \<not> inBacktick s \<and> parenDepth s = 0"

definition advance :: "shellScanState \<Rightarrow> char option \<Rightarrow> char \<Rightarrow> string \<Rightarrow> shellScanState" where
  "advance s prev c rest =
     (if inSingle s then (if c = squote then s\<lparr>inSingle := False\<rparr> else s)
      else if inDouble s then
        (if c = bslash \<and> rest \<noteq> [] then s
         else if c = dquote then s\<lparr>inDouble := False\<rparr> else s)
      else if inBacktick s then (if c = backtick then s\<lparr>inBacktick := False\<rparr> else s)
      else if c = squote then s\<lparr>inSingle := True\<rparr>
      else if c = dquote then s\<lparr>inDouble := True\<rparr>
      else if c = backtick then s\<lparr>inBacktick := True\<rparr>
      else if c = CHR ''('' then
        (if prev = Some (CHR ''$'') then s\<lparr>parenDepth := parenDepth s + 1\<rparr> else s)
      else if c = CHR '')'' then
        (if parenDepth s > 0 then s\<lparr>parenDepth := parenDepth s - 1\<rparr> else s)
      else s)"

section \<open>Compound commands\<close>

definition flushPart :: "string \<Rightarrow> string list \<Rightarrow> string list" where
  "flushPart cur parts = (let s = TrimSpace cur in if s \<noteq> [] then parts @ [s] else parts)"

fun splitLoop :: "shellScanState \<Rightarrow> char option \<Rightarrow> string \<Rightarrow> string list \<Rightarrow> string \<Rightarrow> string list" where
  "splitLoop st prev cur parts [] = flushPart cur parts"
| "splitLoop st prev cur parts (c # cs) =
     (let st = advance st prev c cs in
      if \<not> atTopLevel st then splitLoop st (Some c) (cur @ [c]) parts cs
      else if c = CHR '';'' then splitLoop st (Some c) [] (flushPart cur parts) cs
      else if c = CHR ''&'' \<and> take 1 cs = ''&'' then
        splitLoop st (Some (CHR ''&'')) [] (flushPart cur parts) (drop 1 cs)
      else if c = CHR ''|'' then
        (if take 1 cs = ''|'' then
           splitLoop st (Some (CHR ''|'')) [] (flushPart cur parts) (drop 1 cs)
         else splitLoop st (Some c) [] (flushPart cur parts) cs)
      else splitLoop st (Some c) (cur @ [c]) parts cs)"

definition splitCompoundCommandHeuristic :: "string \<Rightarrow> string list" where
  "splitCompoundCommandHeuristic cmd =
     (let cmd = TrimSpace cmd in
      if cmd = [] then []
      else let parts = splitLoop scanStart None [] [] cmd in if parts = [] then [cmd] else parts)"

definition SplitCompoundCommand :: "string \<Rightarrow> string list" where
  "SplitCompoundCommand cmd =
     (let cmd = TrimSpace cmd in
      if cmd = [] then []
      else let parts = splitCompoundCommandHeuristic cmd in if parts = [] then [cmd] else parts)"

section \<open>Command substitutions\<close>

text \<open>\<^verbatim>\<open>readUntil\<close>: the body up to the closing byte and what follows that
  byte; None where the Go function returns "" with the index unchanged.  The variable
  \<^verbatim>\<open>depth\<close> is 1 until the function returns.\<close>

fun readLoop :: "char \<Rightarrow> shellScanState \<Rightarrow> char option \<Rightarrow> string \<Rightarrow> string \<Rightarrow> (string \<times> string) option" where
  "readLoop end_byte st prev body [] = None"
| "readLoop end_byte st prev body (c # cs) =
     (if end_byte = CHR '')'' then
        let st = advance st prev c cs in
        if atTopLevel st \<and> c = CHR '')'' then Some (body, cs)
        else readLoop end_byte st (Some c) (body @ [c]) cs
      else if c = end_byte \<and> atTopLevel st then Some (body, cs)
      else readLoop end_byte (advance st prev c cs) (Some c) (body @ [c]) cs)"

definition readUntil :: "char \<Rightarrow> char \<Rightarrow> string \<Rightarrow> (string \<times> string) option" where
  "readUntil opener end_byte rest = readLoop end_byte scanStart (Some opener) [] rest"

lemma readLoop_splits:
  "readLoop e st prev body cs = Some (b, rest) \<Longrightarrow> body @ cs = b @ e # rest"
  by (induction e st prev body cs rule: readLoop.induct)
     (auto simp: Let_def split: if_splits)

lemma readUntil_splits: "readUntil c e cs = Some (b, rest) \<Longrightarrow> cs = b @ e # rest"
  using readLoop_splits [of e scanStart "Some c" "[]" cs b rest] by (simp add: readUntil_def)

definition addBody :: "string \<Rightarrow> string list \<Rightarrow> string list" where
  "addBody body out = (if body \<noteq> [] then out @ [body] else out)"

function extractLoop :: "shellScanState \<Rightarrow> char option \<Rightarrow> string list \<Rightarrow> string \<Rightarrow> string list" where
  "extractLoop prev_st prev out [] = out"
| "extractLoop prev_st prev out (c # cs) =
     (let st = advance prev_st prev c cs in
      if \<not> inBacktick prev_st \<and> inBacktick st then
        (case readUntil c backtick cs of
           None \<Rightarrow> extractLoop st (Some c) out cs
         | Some (body, rest) \<Rightarrow> extractLoop st (Some backtick) (addBody body out) rest)
      else if parenDepth prev_st = 0 \<and> parenDepth st = 1 \<and> c = CHR ''('' \<and> prev = Some (CHR ''$'') then
        (case readUntil c (CHR '')'') cs of
           None \<Rightarrow> extractLoop (st\<lparr>parenDepth := 0\<rparr>) (Some c) out cs
         | Some (body, rest) \<Rightarrow>
             extractLoop (st\<lparr>parenDepth := 0\<rparr>) (Some (CHR '')'')) (addBody body out) rest)
      else extractLoop st (Some c) out cs)"
  by pat_completeness auto
termination
  by (relation "measure (\<lambda>(st, prev, out, cs). length cs)") (auto dest: readUntil_splits)

definition ExtractSubshellBodies :: "string \<Rightarrow> string list" where
  "ExtractSubshellBodies cmd =
     (let cmd = TrimSpace cmd in if cmd = [] then [] else extractLoop scanStart None [] cmd)"

text \<open>A body is a segment of the command that leaves at least its two delimiters out.\<close>

lemma extractLoop_shorter:
  "b \<in> set (extractLoop st prev out cs) \<Longrightarrow> b \<in> set out \<or> length b + 2 \<le> length cs"
proof (induction st prev out cs rule: extractLoop.induct)
  case (2 prev_st prev out c cs)
  define st where "st = advance prev_st prev c cs"
  note eq = extractLoop.simps(2) [of prev_st prev out c cs, unfolded Let_def, folded st_def]
  have consumed: "b \<in> set out \<or> length b + 2 \<le> length (c # cs)"
    if "readUntil c' e cs = Some (body, rest)"
      and "b \<in> set (addBody body out) \<or> length b + 2 \<le> length rest" for c' e body rest
    using that readUntil_splits [OF that(1)] by (auto simp: addBody_def split: if_splits)
  show ?case
  proof (cases "\<not> inBacktick prev_st \<and> inBacktick st")
    case True
    show ?thesis
    proof (cases "readUntil c backtick cs")
      case None
      then have "b \<in> set (extractLoop st (Some c) out cs)"
        using "2.prems" by (simp only: eq if_P [OF True] option.case)
      from "2.IH"(1) [OF st_def True None this] show ?thesis by auto
    next
      case (Some p)
      obtain body rest where p: "p = (body, rest)" by fastforce
      have "b \<in> set (extractLoop st (Some backtick) (addBody body out) rest)"
        using "2.prems" by (simp only: eq if_P [OF True] Some p option.case prod.case)
      from "2.IH"(2) [OF st_def True Some p [symmetric] this] consumed Some p show ?thesis by simp
    qed
  next
    case nb: False
    show ?thesis
    proof (cases "parenDepth prev_st = 0 \<and> parenDepth st = 1 \<and> c = CHR ''('' \<and> prev = Some (CHR ''$'')")
      case True
      show ?thesis
      proof (cases "readUntil c (CHR '')'') cs")
        case None
        have "b \<in> set (extractLoop (st\<lparr>parenDepth := 0\<rparr>) (Some c) out cs)"
          using "2.prems" by (simp only: eq if_not_P [OF nb] if_P [OF True] None option.case)
        from "2.IH"(3) [OF st_def nb True None this] show ?thesis by auto
      next
        case (Some p)
        obtain body rest where p: "p = (body, rest)" by fastforce
        have "b \<in> set (extractLoop (st\<lparr>parenDepth := 0\<rparr>) (Some (CHR '')'')) (addBody body out) rest)"
          using "2.prems" by (simp only: eq if_not_P [OF nb] if_P [OF True] Some p option.case prod.case)
        from "2.IH"(4) [OF st_def nb True Some p [symmetric] this] consumed Some p show ?thesis by simp
      qed
    next
      case False
      have "b \<in> set (extractLoop st (Some c) out cs)"
        using "2.prems" by (simp only: eq if_not_P [OF nb] if_not_P [OF False])
      from "2.IH"(5) [OF st_def nb False this] show ?thesis by auto
    qed
  qed
qed simp

lemma ExtractSubshellBodies_shorter:
  assumes "b \<in> set (ExtractSubshellBodies cmd)"
  shows "length b + 2 \<le> length cmd"
proof -
  from assms have "b \<in> set (extractLoop scanStart None [] (TrimSpace cmd))"
    by (simp add: ExtractSubshellBodies_def Let_def split: if_splits)
  then have "length b + 2 \<le> length (TrimSpace cmd)" by (auto dest: extractLoop_shorter)
  with TrimSpace_length [of cmd] show ?thesis by simp
qed

section \<open>Redirections\<close>

fun redirectLoop :: "shellScanState \<Rightarrow> char option \<Rightarrow> string \<Rightarrow> bool" where
  "redirectLoop st prev [] = False"
| "redirectLoop st prev (c # cs) =
     (let st = advance st prev c cs in
      if atTopLevel st \<and> c = CHR ''>'' \<and> prev \<noteq> Some (CHR ''2'') then True
      else redirectLoop st (Some c) cs)"

definition HasOutputRedirection :: "string \<Rightarrow> bool" where
  "HasOutputRedirection cmd = redirectLoop scanStart None cmd"

section \<open>Words\<close>

text \<open>\<^verbatim>\<open>unicode.IsSpace(rune(ch))\<close> for a byte \<^verbatim>\<open>ch\<close>.\<close>

definition byteIsSpace :: "char \<Rightarrow> bool" where
  "byteIsSpace c \<longleftrightarrow> asciiSpace c \<or> c = CHR 0x85 \<or> c = CHR 0xA0"

definition unquoteToken :: "string \<Rightarrow> string" where
  "unquoteToken s =
     (if 2 \<le> length s \<and> (hd s = squote \<and> last s = squote \<or> hd s = dquote \<and> last s = dquote)
      then butlast (tl s) else TrimCutset s [dquote, squote])"

definition flushToken :: "string \<Rightarrow> string list \<Rightarrow> string list" where
  "flushToken cur tokens =
     (let s = TrimSpace cur in if s \<noteq> [] then tokens @ [unquoteToken s] else tokens)"

fun tokenLoop :: "shellScanState \<Rightarrow> bool \<Rightarrow> char option \<Rightarrow> string \<Rightarrow> string list \<Rightarrow> string \<Rightarrow> string list" where
  "tokenLoop st escaped prev cur tokens [] = flushToken cur tokens"
| "tokenLoop st escaped prev cur tokens (c # cs) =
     (if escaped then tokenLoop st False (Some c) (cur @ [c]) tokens cs
      else if \<not> inSingle st \<and> \<not> inDouble st \<and> \<not> inBacktick st \<and> c = bslash then
        tokenLoop st True (Some c) cur tokens cs
      else let st = advance st prev c cs in
        if atTopLevel st \<and> byteIsSpace c then
          tokenLoop st False (Some c) [] (flushToken cur tokens) cs
        else tokenLoop st False (Some c) (cur @ [c]) tokens cs)"

definition ShellTokenize :: "string \<Rightarrow> string list" where
  "ShellTokenize cmd =
     (let cmd = TrimSpace cmd in
      if cmd = [] then [] else tokenLoop scanStart False None [] [] cmd)"

text \<open>\<open>uni r\<close>: the rune \<open>r\<close>, not ASCII, is a letter or a digit.\<close>

definition isLetterOrDigit :: "(nat \<Rightarrow> bool) \<Rightarrow> nat \<Rightarrow> bool" where
  "isLetterOrDigit uni r \<longleftrightarrow>
     (if r < 128 then 65 \<le> r \<and> r \<le> 90 \<or> 97 \<le> r \<and> r \<le> 122 \<or> 48 \<le> r \<and> r \<le> 57 else uni r)"

definition isEnvAssignment :: "(nat \<Rightarrow> bool) \<Rightarrow> string \<Rightarrow> bool" where
  "isEnvAssignment uni tok =
     (let name = takeWhile (\<lambda>c. c \<noteq> CHR ''='') tok in
      CHR ''='' \<in> set tok \<and> name \<noteq> [] \<and>
      list_all (\<lambda>r. isLetterOrDigit uni r \<or> r = 95) (runes name))"

definition ExtractCommandPrefix :: "(nat \<Rightarrow> bool) \<Rightarrow> string \<Rightarrow> string" where
  "ExtractCommandPrefix uni cmd =
     (case dropWhile (isEnvAssignment uni) (ShellTokenize (TrimSpace cmd)) of
        [] \<Rightarrow> []
      | [t0] \<Rightarrow> t0
      | t0 # t1 # _ \<Rightarrow> if HasPrefix t1 ''-'' then t0 else t0 @ '' '' @ t1)"

definition pathCommands :: "string list" where
  "pathCommands = [''rm'', ''rmdir'', ''cp'', ''mv'', ''touch'', ''mkdir'', ''chmod'', ''chown'',
     ''cat'', ''head'', ''tail'']"

definition ExtractFilePaths :: "string \<Rightarrow> string list" where
  "ExtractFilePaths cmd =
     (case ShellTokenize (TrimSpace cmd) of [] \<Rightarrow> []
      | t0 # toks \<Rightarrow>
          if ToLower t0 \<notin> set pathCommands then []
          else takeWhile (\<lambda>t. t \<noteq> ''>'' \<and> t \<noteq> ''>>'' \<and> t \<noteq> ''|'')
                 (filter (\<lambda>t. \<not> HasPrefix t ''-'') toks))"

end
