(* ===== verification/Perm_Safety.thy ===== *)
theory Perm_Safety
  imports Perm_Shell
begin

text \<open>
  The command and path checks of package \<^verbatim>\<open>permission\<close>: the built-in lists
  (\<^verbatim>\<open>defaults.go\<close>), the checks on one command segment and their walk over
  segments and command substitutions (\<^verbatim>\<open>bash_parser.go\<close>), sensitive paths
  and removals (\<^verbatim>\<open>safety.go\<close>), and the unwrapping of command wrappers
  (\<^verbatim>\<open>normalize.go\<close>).

  The walks call themselves on command substitutions; their recursion depth is the argument
  \<open>fuel\<close>, and None is a recursion deeper than that.  \<open>walk_returns\<close> and
  \<open>readOnly_returns\<close> show that the length of the command is always enough.
\<close>

section \<open>Built-in lists\<close>

definition DefaultDangerousFiles :: "string list" where
  "DefaultDangerousFiles = [''.gitconfig'', ''.gitmodules'', ''.bashrc'', ''.bash_profile'',
     ''.zshrc'', ''.zprofile'', ''.profile'', ''.ssh/config'', ''.ssh/authorized_keys'',
     ''.netrc'', ''.npmrc'', ''.pypirc'', ''.env'', ''.envrc'', ''.env.local'',
     ''.env.development'', ''.env.development.local'', ''.env.test'', ''.env.test.local'',
     ''.env.staging'', ''.env.production'', ''.env.production.local'']"

definition DefaultDangerousDirs :: "string list" where
  "DefaultDangerousDirs = [''.git'', ''.vscode'', ''.idea'', ''.ssh'']"

definition DefaultDangerousCommands :: "string list" where
  "DefaultDangerousCommands = [''rm -rf'', ''sudo rm'', ''dd'', ''mkfs'', ''fdisk'', ''format'',
     ''chmod 777'', ''chmod -R 777'', ''chown -R'', ''kill -9'', ''> /dev/'']"

definition DefaultReadOnlyCommands :: "string list" where
  "DefaultReadOnlyCommands = [''ls'', ''cat'', ''pwd'', ''echo'', ''find'', ''grep'', ''head'',
     ''tail'', ''wc'', ''which'', ''whoami'', ''uname'', ''df'', ''du'', ''stat'', ''file'',
     ''date'', ''env'', ''printenv'', ''git status'', ''git log'', ''git diff'', ''git show'',
     ''git branch'']"

definition DefaultMutatingArguments :: "(string, string list) gomap" where
  "DefaultMutatingArguments =
     [(''find'', [''-delete'', ''-exec'', ''-execdir'', ''-ok'', ''-okdir'', ''-fls'', ''-fprint'',
                  ''-fprint0'', ''-fprintf'']),
      (''git branch'', [''-d'', ''-D'', ''-m'', ''-M'', ''-c'', ''-C'', ''-u'', ''--delete'',
                        ''--move'', ''--copy'', ''--edit-description'', ''--set-upstream-to'',
                        ''--unset-upstream''])]"

section \<open>Sensitive paths and removals\<close>

definition stringsEqualFold :: "string \<Rightarrow> string \<Rightarrow> bool" where
  "stringsEqualFold a b = EqualFold a b"

definition IsDangerousPath :: "string \<Rightarrow> string list \<Rightarrow> string list \<Rightarrow> bool" where
  "IsDangerousPath path files dirs =
     (if path = [] then False
      else let path = path_Clean path; base = path_Base path in
        list_ex (\<lambda>f. stringsEqualFold base f) files \<or>
        list_ex (\<lambda>part. list_ex (\<lambda>d. stringsEqualFold part d) dirs) (Split path (CHR ''/'')))"

definition isCriticalSystemPath :: "string \<Rightarrow> bool" where
  "isCriticalSystemPath path =
     (if path = [] then False
      else if path = ''*'' \<or> path = ''./*'' \<or> path = ''/'' \<or> path = ''~'' then True
      else if HasSuffix path ''/*'' \<or> HasSuffix path [bslash, CHR ''*''] then True
      else if HasPrefix path ''~'' then True
      else let abs = path_Clean path in
        if abs = ''/'' \<or> abs = ''.'' \<or> abs = ''..'' then True
        else path_Dir abs = ''/'' \<and> abs \<noteq> ''/'')"

definition IsDangerousRemoval :: "string \<Rightarrow> bool" where
  "IsDangerousRemoval cmd =
     (case Fields (TrimSpace cmd) of [] \<Rightarrow> False
      | base # toks \<Rightarrow>
          if base \<noteq> ''rm'' \<and> base \<noteq> ''rmdir'' then False
          else list_ex (\<lambda>tok. \<not> HasPrefix tok ''-'' \<and>
                         isCriticalSystemPath (TrimCutset tok [dquote, squote])) toks)"

section \<open>One segment\<close>

definition IsDangerousCommandSingle :: "string \<Rightarrow> bool" where
  "IsDangerousCommandSingle cmd =
     list_ex (\<lambda>pattern. Contains (TrimSpace cmd) pattern) DefaultDangerousCommands"

definition hasMutatingArguments :: "string \<Rightarrow> bool" where
  "hasMutatingArguments cmd =
     (let normalized = filter (\<lambda>c. c \<noteq> dquote \<and> c \<noteq> squote) cmd in
      list_ex (\<lambda>(command, flags).
          HasPrefix normalized (command @ '' '') \<and>
          list_ex (\<lambda>tok. list_ex (\<lambda>f. tok = f \<or> HasPrefix f ''--'' \<and> HasPrefix tok (f @ ''='')) flags)
            (Fields (TrimSpace (TrimPrefix normalized command))))
        DefaultMutatingArguments)"

definition IsReadOnlyCommandSingle :: "(nat \<Rightarrow> bool) \<Rightarrow> string \<Rightarrow> bool" where
  "IsReadOnlyCommandSingle uni cmd =
     (let cmd = TrimSpace cmd in
      if hasMutatingArguments cmd then False
      else if list_ex (\<lambda>safe. HasPrefix cmd safe \<and>
                (let rest = TrimPrefix cmd safe in rest = [] \<or> HasPrefix rest '' ''))
              DefaultReadOnlyCommands then True
      else let prefix = ExtractCommandPrefix uni cmd in
        list_ex (\<lambda>safe. prefix = safe \<or> HasPrefix prefix (safe @ '' '')) DefaultReadOnlyCommands)"

definition segmentDangerous :: "string \<Rightarrow> bool" where
  "segmentDangerous part =
     (let part = TrimSpace part in IsDangerousCommandSingle part \<or> IsDangerousRemoval part)"

section \<open>Walking segments and substitutions\<close>

text \<open>\<open>firstTrue\<close>: a loop that returns true at the first element that is true;
  \<open>allTrue\<close>: one that returns false at the first that is false.\<close>

fun firstTrue :: "('a \<Rightarrow> bool option) \<Rightarrow> 'a list \<Rightarrow> bool option" where
  "firstTrue f [] = Some False"
| "firstTrue f (x # xs) =
     (case f x of None \<Rightarrow> None | Some True \<Rightarrow> Some True | Some False \<Rightarrow> firstTrue f xs)"

fun allTrue :: "('a \<Rightarrow> bool option) \<Rightarrow> 'a list \<Rightarrow> bool option" where
  "allTrue f [] = Some True"
| "allTrue f (x # xs) =
     (case f x of None \<Rightarrow> None | Some True \<Rightarrow> allTrue f xs | Some False \<Rightarrow> Some False)"

fun walkSafetySegments :: "nat \<Rightarrow> string \<Rightarrow> (string \<Rightarrow> bool) \<Rightarrow> bool option" where
  "walkSafetySegments 0 cmd pred = None"
| "walkSafetySegments (Suc fuel) cmd pred =
     firstTrue (\<lambda>part.
         if pred part then Some True
         else firstTrue (\<lambda>sub. walkSafetySegments fuel sub pred) (ExtractSubshellBodies part))
       (SplitCompoundCommand cmd)"

fun AllReadOnlyCommands :: "(nat \<Rightarrow> bool) \<Rightarrow> nat \<Rightarrow> string \<Rightarrow> bool option"
  and isSegmentReadOnly :: "(nat \<Rightarrow> bool) \<Rightarrow> nat \<Rightarrow> string \<Rightarrow> bool option" where
  "AllReadOnlyCommands uni 0 cmd = None"
| "AllReadOnlyCommands uni (Suc fuel) cmd =
     (if HasOutputRedirection cmd then Some False
      else let parts = SplitCompoundCommand cmd in
        if parts = [] then Some False
        else allTrue (isSegmentReadOnly uni fuel) parts)"
| "isSegmentReadOnly uni fuel part =
     (let part = TrimSpace part in
      if HasOutputRedirection part then Some False
      else case allTrue (AllReadOnlyCommands uni fuel) (ExtractSubshellBodies part) of
          None \<Rightarrow> None
        | Some False \<Rightarrow> Some False
        | Some True \<Rightarrow> Some (IsReadOnlyCommandSingle uni part))"

definition AnyDangerousCommand :: "string \<Rightarrow> bool option" where
  "AnyDangerousCommand cmd = walkSafetySegments (Suc (length cmd)) cmd segmentDangerous"

definition IsDangerousCommand :: "string \<Rightarrow> bool option" where
  "IsDangerousCommand cmd = AnyDangerousCommand cmd"

definition IsReadOnlyCommand :: "(nat \<Rightarrow> bool) \<Rightarrow> string \<Rightarrow> bool option" where
  "IsReadOnlyCommand uni cmd = AllReadOnlyCommands uni (Suc (length cmd)) cmd"

section \<open>Wrappers\<close>

definition NormalizeDepth :: nat where
  "NormalizeDepth = 8"

definition joinTokens :: "string list \<Rightarrow> string" where
  "joinTokens tokens = Join tokens '' ''"

definition sudoValueFlags :: "string list" where
  "sudoValueFlags = [''-u'', ''-g'', ''-p'', ''-h'', ''-D'', ''-U'', ''-C'', ''-T'', ''-R'']"

fun sudoRest :: "string list \<Rightarrow> string list" where
  "sudoRest [] = []"
| "sudoRest (f # rest) =
     (if HasPrefix f ''-'' \<and> f \<noteq> ''-'' then
        (if f \<in> set sudoValueFlags \<and> rest \<noteq> [] then sudoRest (tl rest) else sudoRest rest)
      else f # rest)"

fun xargsRest :: "string list \<Rightarrow> string list" where
  "xargsRest [] = []"
| "xargsRest (f # rest) =
     (if HasPrefix f ''-'' \<and> f \<noteq> ''-'' then
        (if f = ''-n'' \<and> rest \<noteq> [] then xargsRest (tl rest) else xargsRest rest)
      else f # rest)"

definition unwrapOnce :: "(nat \<Rightarrow> bool) \<Rightarrow> string \<Rightarrow> string" where
  "unwrapOnce uni cmd =
     (case dropWhile (isEnvAssignment uni) (ShellTokenize cmd) of [] \<Rightarrow> cmd
      | t0 # rest \<Rightarrow>
          if t0 \<in> {''sudo'', ''doas''} then joinTokens (sudoRest rest)
          else if t0 \<in> {''sh'', ''bash'', ''dash'', ''zsh'', ''ksh''} \<and> rest \<noteq> [] \<and> hd rest = ''-c''
            then joinTokens (tl rest)
          else if t0 = ''eval'' then joinTokens rest
          else if t0 = ''env'' then
            (if rest \<noteq> [] \<and> hd rest = ''-S'' then joinTokens (tl rest) else joinTokens rest)
          else if t0 \<in> {''xargs'', ''nice'', ''ionice'', ''time'', ''nohup'', ''command''}
            then joinTokens (xargsRest rest)
          else joinTokens (t0 # rest))"

fun normalizeLoop :: "(nat \<Rightarrow> bool) \<Rightarrow> nat \<Rightarrow> string \<Rightarrow> string" where
  "normalizeLoop uni 0 cmd = cmd"
| "normalizeLoop uni (Suc n) cmd =
     (let next_cmd = unwrapOnce uni cmd in
      if next_cmd = cmd then cmd else normalizeLoop uni n next_cmd)"

definition NormalizeCommand :: "(nat \<Rightarrow> bool) \<Rightarrow> string \<Rightarrow> string" where
  "NormalizeCommand uni cmd = normalizeLoop uni NormalizeDepth (TrimSpace cmd)"

section \<open>The walks return\<close>

lemma flushPart_length:
  "p \<in> set (flushPart cur parts) \<Longrightarrow> p \<in> set parts \<or> length p \<le> length cur"
  by (auto simp: flushPart_def Let_def TrimSpace_length split: if_splits)

text \<open>A step of the loop either extends the current part or closes it.\<close>

lemma splitLoop_step:
  obtains (extend) s where "splitLoop st prev cur parts (c # cs) = splitLoop s (Some c) (cur @ [c]) parts cs"
  | (close) s q ds where "splitLoop st prev cur parts (c # cs) = splitLoop s q [] (flushPart cur parts) ds"
      and "length ds \<le> length cs"
proof (cases "splitLoop st prev cur parts (c # cs)
    = splitLoop (advance st prev c cs) (Some c) (cur @ [c]) parts cs")
  case True
  then show ?thesis by (rule extend)
next
  case False
  let ?s = "advance st prev c cs"
  have "splitLoop st prev cur parts (c # cs) \<in>
      {splitLoop ?s q [] (flushPart cur parts) ds | q ds. ds = cs \<or> ds = drop 1 cs}"
    using False unfolding splitLoop.simps(2) Let_def mem_Collect_eq
    by (split if_split, intro conjI impI, simp, split if_split, intro conjI impI, blast,
        split if_split, intro conjI impI, blast, split if_split, intro conjI impI,
        split if_split, intro conjI impI, blast, blast, simp split: if_splits)
  then obtain q ds where "splitLoop st prev cur parts (c # cs) = splitLoop ?s q [] (flushPart cur parts) ds"
    and "length ds \<le> length cs" by auto
  then show ?thesis by (rule close)
qed

lemma splitLoop_length:
  "p \<in> set (splitLoop st prev cur parts cs) \<Longrightarrow> p \<in> set parts \<or> length p \<le> length cur + length cs"
proof (induction "length cs" arbitrary: st prev cur parts cs rule: less_induct)
  case less
  show ?case
  proof (cases cs)
    case Nil
    with less.prems show ?thesis by (auto dest: flushPart_length)
  next
    case (Cons c cs')
    show ?thesis
    proof (rule splitLoop_step [of st prev cur parts c cs'])
      fix s
      assume "splitLoop st prev cur parts (c # cs') = splitLoop s (Some c) (cur @ [c]) parts cs'"
      with less.prems Cons less.hyps [of cs' s "Some c" "cur @ [c]" parts] show ?thesis by simp
    next
      fix s q ds
      assume "splitLoop st prev cur parts (c # cs') = splitLoop s q [] (flushPart cur parts) ds"
        and ds: "length ds \<le> length cs'"
      with less.prems Cons less.hyps [of ds s q "[]" "flushPart cur parts"]
      have "p \<in> set (flushPart cur parts) \<or> length p \<le> length ds" by simp
      with ds Cons show ?thesis by (auto dest: flushPart_length)
    qed
  qed
qed

lemma splitHeuristic_length:
  assumes "p \<in> set (splitCompoundCommandHeuristic cmd)"
  shows "length p \<le> length cmd"
proof -
  have "p \<in> set (splitLoop scanStart None [] [] (TrimSpace cmd)) \<or> p = TrimSpace cmd"
    using assms by (auto simp: splitCompoundCommandHeuristic_def Let_def split: if_splits)
  then have "length p \<le> length (TrimSpace cmd)" by (auto dest: splitLoop_length)
  with TrimSpace_length [of cmd] show ?thesis by simp
qed

lemma SplitCompoundCommand_length:
  assumes "p \<in> set (SplitCompoundCommand cmd)"
  shows "length p \<le> length cmd"
proof -
  have "p \<in> set (splitCompoundCommandHeuristic (TrimSpace cmd)) \<or> p = TrimSpace cmd"
    using assms by (auto simp: SplitCompoundCommand_def Let_def split: if_splits)
  then have "length p \<le> length (TrimSpace cmd)" by (auto dest: splitHeuristic_length)
  with TrimSpace_length [of cmd] show ?thesis by simp
qed

lemma firstTrue_returns: "(\<And>x. x \<in> set xs \<Longrightarrow> f x \<noteq> None) \<Longrightarrow> firstTrue f xs \<noteq> None"
  by (induction xs) (auto split: option.splits bool.splits)

lemma allTrue_returns: "(\<And>x. x \<in> set xs \<Longrightarrow> f x \<noteq> None) \<Longrightarrow> allTrue f xs \<noteq> None"
  by (induction xs) (auto split: option.splits bool.splits)

lemma firstTrue_Some:
  "(\<And>x. x \<in> set xs \<Longrightarrow> f x = Some (P x)) \<Longrightarrow> firstTrue f xs = Some (\<exists>x \<in> set xs. P x)"
  by (induction xs) (auto split: bool.splits)

lemma allTrue_Some:
  "(\<And>x. x \<in> set xs \<Longrightarrow> f x = Some (P x)) \<Longrightarrow> allTrue f xs = Some (\<forall>x \<in> set xs. P x)"
  by (induction xs) (auto split: bool.splits)

lemma walk_returns: "length cmd < fuel \<Longrightarrow> walkSafetySegments fuel cmd pred \<noteq> None"
proof (induction fuel arbitrary: cmd)
  case (Suc fuel)
  have "walkSafetySegments fuel sub pred \<noteq> None"
    if "part \<in> set (SplitCompoundCommand cmd)" and "sub \<in> set (ExtractSubshellBodies part)" for part sub
    using SplitCompoundCommand_length [OF that(1)] ExtractSubshellBodies_shorter [OF that(2)] Suc
    by simp
  then show ?case
    by (simp del: not_None_eq) (intro firstTrue_returns, simp del: not_None_eq add: firstTrue_returns)
qed simp

lemma readOnly_returns:
  "length cmd < fuel \<Longrightarrow> AllReadOnlyCommands uni fuel cmd \<noteq> None"
proof (induction fuel arbitrary: cmd)
  case (Suc fuel)
  have sub: "AllReadOnlyCommands uni fuel sub \<noteq> None"
    if "part \<in> set (SplitCompoundCommand cmd)" and "sub \<in> set (ExtractSubshellBodies (TrimSpace part))"
    for part sub
    using SplitCompoundCommand_length [OF that(1)] ExtractSubshellBodies_shorter [OF that(2)]
      TrimSpace_length [of part] Suc by simp
  have "isSegmentReadOnly uni fuel part \<noteq> None" if "part \<in> set (SplitCompoundCommand cmd)" for part
    using allTrue_returns [of "ExtractSubshellBodies (TrimSpace part)" "AllReadOnlyCommands uni fuel",
        OF sub [OF that]]
    by (auto simp: Let_def split: option.splits bool.splits)
  then show ?case by (auto simp: Let_def simp del: not_None_eq isSegmentReadOnly.simps
    intro!: allTrue_returns)
qed simp

text \<open>More fuel changes nothing, so the walk of a command does not depend on it.\<close>

lemma firstTrue_mono:
  "firstTrue f xs = Some b \<Longrightarrow> (\<And>x c. x \<in> set xs \<Longrightarrow> f x = Some c \<Longrightarrow> g x = Some c) \<Longrightarrow>
   firstTrue g xs = Some b"
  by (induction xs) (auto split: option.splits bool.splits)

lemma allTrue_mono:
  "allTrue f xs = Some b \<Longrightarrow> (\<And>x c. x \<in> set xs \<Longrightarrow> f x = Some c \<Longrightarrow> g x = Some c) \<Longrightarrow>
   allTrue g xs = Some b"
  by (induction xs) (auto split: option.splits bool.splits)

lemma walk_Suc: "walkSafetySegments fuel cmd pred = Some b \<Longrightarrow> walkSafetySegments (Suc fuel) cmd pred = Some b"
proof (induction fuel arbitrary: cmd b)
  case (Suc fuel)
  from Suc.prems show ?case
    unfolding walkSafetySegments.simps(2) [of "Suc fuel"]
    by (subst (asm) walkSafetySegments.simps) (erule firstTrue_mono, auto split: if_splits elim!: firstTrue_mono dest: Suc.IH)
qed simp

lemma readOnly_Suc:
  "AllReadOnlyCommands uni fuel cmd = Some b \<Longrightarrow> AllReadOnlyCommands uni (Suc fuel) cmd = Some b"
proof (induction fuel arbitrary: cmd b)
  case (Suc fuel)
  have seg: "isSegmentReadOnly uni (Suc fuel) part = Some c"
    if seg: "isSegmentReadOnly uni fuel part = Some c" for part c
  proof (cases "HasOutputRedirection (TrimSpace part)")
    case False
    with seg obtain d where d: "allTrue (AllReadOnlyCommands uni fuel) (ExtractSubshellBodies (TrimSpace part)) = Some d"
      and c: "c = (if d then IsReadOnlyCommandSingle uni (TrimSpace part) else False)"
      by (auto simp: Let_def split: option.splits bool.splits)
    from d have "allTrue (AllReadOnlyCommands uni (Suc fuel)) (ExtractSubshellBodies (TrimSpace part)) = Some d"
      by (rule allTrue_mono) (rule Suc.IH)
    with c False show ?thesis by (simp del: AllReadOnlyCommands.simps add: Let_def split: bool.splits)
  qed (use seg in \<open>simp add: Let_def\<close>)
  show ?case
  proof (cases "HasOutputRedirection cmd \<or> SplitCompoundCommand cmd = []")
    case False
    with Suc.prems have "allTrue (isSegmentReadOnly uni fuel) (SplitCompoundCommand cmd) = Some b"
      by (simp add: Let_def del: isSegmentReadOnly.simps)
    then have "allTrue (isSegmentReadOnly uni (Suc fuel)) (SplitCompoundCommand cmd) = Some b"
      by (rule allTrue_mono) (rule seg)
    with False show ?thesis
      by (simp add: Let_def AllReadOnlyCommands.simps(2) [of uni "Suc fuel"]
          del: isSegmentReadOnly.simps AllReadOnlyCommands.simps)
  next
    case True
    with Suc.prems show ?thesis by (cases "HasOutputRedirection cmd") (simp_all add: Let_def)
  qed
qed simp

lemma walk_mono: "walkSafetySegments n cmd pred = Some b \<Longrightarrow> n \<le> m \<Longrightarrow> walkSafetySegments m cmd pred = Some b"
proof (induction m)
  case (Suc m)
  then show ?case
    by (cases "n \<le> m") (simp_all add: le_Suc_eq walk_Suc del: walkSafetySegments.simps)
qed simp

lemma readOnly_mono:
  "AllReadOnlyCommands uni n cmd = Some b \<Longrightarrow> n \<le> m \<Longrightarrow> AllReadOnlyCommands uni m cmd = Some b"
proof (induction m)
  case (Suc m)
  then show ?case
    by (cases "n \<le> m") (simp_all add: le_Suc_eq readOnly_Suc del: AllReadOnlyCommands.simps)
qed simp

text \<open>What the two checks compute, with the fuel gone.\<close>

lemma AnyDangerousCommand_rec:
  "AnyDangerousCommand cmd = Some (\<exists>part \<in> set (SplitCompoundCommand cmd).
     segmentDangerous part \<or>
     (\<exists>sub \<in> set (ExtractSubshellBodies part). AnyDangerousCommand sub = Some True))"
proof -
  have sub: "walkSafetySegments (length cmd) sub segmentDangerous = Some (AnyDangerousCommand sub = Some True)"
    if "part \<in> set (SplitCompoundCommand cmd)" "sub \<in> set (ExtractSubshellBodies part)" for part sub
  proof -
    obtain b where b: "AnyDangerousCommand sub = Some b"
      using walk_returns [of sub "Suc (length sub)" segmentDangerous] by (auto simp: AnyDangerousCommand_def)
    have "Suc (length sub) \<le> length cmd"
      using SplitCompoundCommand_length [OF that(1)] ExtractSubshellBodies_shorter [OF that(2)] by simp
    with b show ?thesis by (auto simp: AnyDangerousCommand_def simp del: walkSafetySegments.simps
      dest: walk_mono)
  qed
  show ?thesis
    unfolding AnyDangerousCommand_def [of cmd] walkSafetySegments.simps
    by (rule firstTrue_Some) (auto intro!: firstTrue_Some sub)
qed

lemma IsReadOnlyCommand_rec:
  "IsReadOnlyCommand uni cmd = Some (\<not> HasOutputRedirection cmd \<and> SplitCompoundCommand cmd \<noteq> [] \<and>
     (\<forall>part \<in> set (SplitCompoundCommand cmd).
        \<not> HasOutputRedirection (TrimSpace part) \<and>
        (\<forall>sub \<in> set (ExtractSubshellBodies (TrimSpace part)). IsReadOnlyCommand uni sub = Some True) \<and>
        IsReadOnlyCommandSingle uni (TrimSpace part)))"
proof -
  have sub: "AllReadOnlyCommands uni (length cmd) sub = Some (IsReadOnlyCommand uni sub = Some True)"
    if "part \<in> set (SplitCompoundCommand cmd)" "sub \<in> set (ExtractSubshellBodies (TrimSpace part))" for part sub
  proof -
    obtain b where b: "IsReadOnlyCommand uni sub = Some b"
      using readOnly_returns [of sub "Suc (length sub)" uni] by (auto simp: IsReadOnlyCommand_def)
    have "Suc (length sub) \<le> length cmd"
      using SplitCompoundCommand_length [OF that(1)] ExtractSubshellBodies_shorter [OF that(2)]
        TrimSpace_length [of part] by simp
    with b show ?thesis by (auto simp: IsReadOnlyCommand_def simp del: AllReadOnlyCommands.simps
      dest: readOnly_mono)
  qed
  have seg: "isSegmentReadOnly uni (length cmd) part = Some (\<not> HasOutputRedirection (TrimSpace part) \<and>
        (\<forall>sub \<in> set (ExtractSubshellBodies (TrimSpace part)). IsReadOnlyCommand uni sub = Some True) \<and>
        IsReadOnlyCommandSingle uni (TrimSpace part))"
    if "part \<in> set (SplitCompoundCommand cmd)" for part
    using allTrue_Some [of "ExtractSubshellBodies (TrimSpace part)", OF sub [OF that]]
    by (simp add: Let_def del: AllReadOnlyCommands.simps split: bool.split)
  show ?thesis
    using allTrue_Some [of "SplitCompoundCommand cmd", OF seg]
    by (simp add: IsReadOnlyCommand_def [of uni cmd] Let_def del: isSegmentReadOnly.simps)
qed

section \<open>Unwrapping never lengthens a command\<close>

definition tokenWeight :: "string list \<Rightarrow> nat" where
  "tokenWeight ts = sum_list (map (\<lambda>t. length t + 1) ts)"

lemma tokenWeight_simps [simp]:
  "tokenWeight [] = 0" "tokenWeight (t # ts) = length t + 1 + tokenWeight ts"
  "tokenWeight (ts @ us) = tokenWeight ts + tokenWeight us"
  by (simp_all add: tokenWeight_def)

lemma length_joinTokens: "length (joinTokens ts) = tokenWeight ts - 1"
  unfolding joinTokens_def by (induction ts "'' ''" rule: Join.induct) auto

lemma unquoteToken_length: "length (unquoteToken s) \<le> length s"
proof -
  have "length (TrimCutset s cs) \<le> length s" for cs
    unfolding TrimCutset_def by (metis length_dropWhile_le length_rev le_trans)
  then show ?thesis by (simp add: unquoteToken_def)
qed

lemma flushToken_weight: "tokenWeight (flushToken cur ts) \<le> tokenWeight ts + length cur + 1"
  using unquoteToken_length [of "TrimSpace cur"] TrimSpace_length [of cur]
  by (simp add: flushToken_def Let_def)

lemma tokenLoop_weight:
  "tokenWeight (tokenLoop st esc prev cur ts cs) \<le> tokenWeight ts + length cur + length cs + 1"
proof (induction st esc prev cur ts cs rule: tokenLoop.induct)
  case (1 st esc prev cur ts)
  show ?case using flushToken_weight [of cur ts] by simp
next
  case (2 st esc prev cur ts c cs)
  note IH = "2.IH"(1) "2.IH"(2) "2.IH"(3) [OF _ _ refl] "2.IH"(4) [OF _ _ refl]
  show ?case
    using IH flushToken_weight [of cur ts] by (simp add: Let_def) linarith
qed

lemma ShellTokenize_weight: "tokenWeight (ShellTokenize cmd) \<le> length cmd + 1"
  using tokenLoop_weight [of scanStart False None "[]" "[]" "TrimSpace cmd"] TrimSpace_length [of cmd]
  by (simp add: ShellTokenize_def Let_def)

lemma tokenWeight_suffix:
  "tokenWeight (dropWhile P ts) \<le> tokenWeight ts"
  "tokenWeight (tl ts) \<le> tokenWeight ts"
  by (induction ts) auto

lemma sudoRest_weight: "tokenWeight (sudoRest ts) \<le> tokenWeight ts"
proof (induction ts rule: sudoRest.induct)
  case (2 f rest)
  then show ?case using tokenWeight_suffix(2) [of rest] by auto
qed simp

lemma xargsRest_weight: "tokenWeight (xargsRest ts) \<le> tokenWeight ts"
proof (induction ts rule: xargsRest.induct)
  case (2 f rest)
  then show ?case using tokenWeight_suffix(2) [of rest] by auto
qed simp

lemma unwrapOnce_length: "length (unwrapOnce uni cmd) \<le> length cmd"
proof -
  define toks where "toks = dropWhile (isEnvAssignment uni) (ShellTokenize cmd)"
  have w: "tokenWeight toks \<le> length cmd + 1"
    using tokenWeight_suffix(1) [of "isEnvAssignment uni" "ShellTokenize cmd"] ShellTokenize_weight [of cmd]
    by (simp add: toks_def)
  show ?thesis
  proof (cases toks)
    case Nil
    then show ?thesis by (simp only: unwrapOnce_def toks_def [symmetric] list.case le_refl)
  next
    case (Cons t0 rest)
    show ?thesis
      using w Cons sudoRest_weight [of rest] xargsRest_weight [of rest] tokenWeight_suffix(2) [of rest]
      by (simp add: unwrapOnce_def toks_def [symmetric] length_joinTokens) linarith
  qed
qed

lemma normalizeLoop_length: "length (normalizeLoop uni n cmd) \<le> length cmd"
proof (induction n arbitrary: cmd)
  case (Suc n)
  from Suc [of "unwrapOnce uni cmd"] unwrapOnce_length [of uni cmd]
  show ?case by (simp add: Let_def)
qed simp

lemma normalizeLoop_fixed:
  "unwrapOnce uni (normalizeLoop uni n cmd) = normalizeLoop uni n cmd \<or>
   (\<forall>i < n. unwrapOnce uni ((unwrapOnce uni ^^ i) cmd) \<noteq> (unwrapOnce uni ^^ i) cmd) \<and>
   normalizeLoop uni n cmd = (unwrapOnce uni ^^ n) cmd"
proof (induction n arbitrary: cmd)
  case (Suc n)
  show ?case
  proof (cases "unwrapOnce uni cmd = cmd")
    case False
    from Suc [of "unwrapOnce uni cmd"] show ?thesis
    proof (elim disjE conjE, goal_cases)
      case 1
      with False show ?case by (simp add: Let_def)
    next
      case 2
      have "unwrapOnce uni ((unwrapOnce uni ^^ i) cmd) \<noteq> (unwrapOnce uni ^^ i) cmd" if "i < Suc n" for i
        using that False 2 by (cases i) (simp_all add: funpow_swap1)
      with False 2 show ?case by (simp add: Let_def funpow_swap1)
    qed
  qed (simp add: Let_def)
qed simp

end
