(* ===== verification/Tool_Rules.thy ===== *)
theory Tool_Rules
  imports Perm_Shell
begin

text \<open>
  The rule hooks of package \<^verbatim>\<open>tool\<close>: the optional interfaces a tool may
  implement (\<^verbatim>\<open>tool/permission.go\<close>, \<^verbatim>\<open>tool/tool.go\<close>), the
  matchers and suggestions (\<^verbatim>\<open>tool/matchrule.go\<close>), and the hooks of the
  shell tool (\<^verbatim>\<open>tool/shell/permission.go\<close>) and of the file tools
  (\<^verbatim>\<open>tool/file/permission.go\<close>).

  What the code asks of the outside is in the record \<open>Host\<close>: the regular expression
  engine, the working directory of the process, and which runes above ASCII are letters or
  digits.
\<close>

record Host =
  regexpCompile :: "string \<Rightarrow> (string \<Rightarrow> bool) option"
  getwd :: "string option"
  unicodeWord :: "nat \<Rightarrow> bool"

definition filepath_Abs :: "Host \<Rightarrow> string \<Rightarrow> string option" where
  "filepath_Abs h p = path_Abs (getwd h) p"

text \<open>\<^verbatim>\<open>regexp.MatchString\<close>: None is a pattern that does not compile.\<close>

definition regexp_MatchString :: "Host \<Rightarrow> string \<Rightarrow> string \<Rightarrow> bool option" where
  "regexp_MatchString h pattern s = map_option (\<lambda>re. re s) (regexpCompile h pattern)"

section \<open>Inputs and hooks\<close>

text \<open>The arguments of a tool call, a \<^verbatim>\<open>map[string]any\<close> of which the code
  only ever asks whether a value is a string.  The nil map is the empty one.\<close>

datatype InputValue = InputString string | InputOther

type_synonym Input = "(string, InputValue) gomap"

text \<open>\<^verbatim>\<open>v, _ := input[key].(string)\<close>\<close>

definition inputString :: "Input \<Rightarrow> string \<Rightarrow> string" where
  "inputString input key = (case mget input key of Some (InputString s) \<Rightarrow> s | _ \<Rightarrow> [])"

datatype PermissionDecision = PermAllow | PermDeny | PermAsk | PermPassthrough | OtherPerm string

record SuggestedRule =
  sr_Name :: string
  sr_ToolName :: string
  sr_Target :: string
  sr_Pattern :: string
  sr_Decision :: PermissionDecision

text \<open>A tool as the engine sees it: each optional interface is a field, None where the tool
  does not implement it.\<close>

record 'ctx Tool =
  hook_IsReadOnly :: "bool option"
  hook_IsAutoApproved :: "bool option"
  hook_CheckPermissions :: "(Input \<Rightarrow> 'ctx \<Rightarrow> PermissionDecision \<times> string \<times> string \<times> bool) option"
  hook_MatchRule :: "(string \<Rightarrow> Input \<Rightarrow> bool) option"
  hook_GenerateSuggestions :: "(Input \<Rightarrow> SuggestedRule list) option"

section \<open>Path patterns\<close>

definition MatchPathGlob :: "string \<Rightarrow> string \<Rightarrow> bool" where
  "MatchPathGlob pattern path =
     (if pattern = [] then True
      else let path = TrimSpace path in
        if path = [] then False
        else path_Match (TrimSpace pattern) path = Some True)"

definition SuggestPathParentGlob :: "string \<Rightarrow> string \<Rightarrow> SuggestedRule list" where
  "SuggestPathParentGlob toolName path =
     (let path = TrimSpace path in
      if path = [] then []
      else let parent = TrimSuffix (path_Dir path) ''/'';
               pattern = (if parent \<noteq> [] \<and> parent \<noteq> ''.'' then parent @ ''/**'' else ''**'')
        in [\<lparr>sr_Name = ''suggested-file-dir'', sr_ToolName = toolName, sr_Target = [],
             sr_Pattern = pattern, sr_Decision = PermAllow\<rparr>])"

definition MatchGlobSearch :: "string \<Rightarrow> Input \<Rightarrow> bool" where
  "MatchGlobSearch rulePattern input =
     (if rulePattern = [] then True
      else let path = inputString input ''path''; pattern = inputString input ''pattern'' in
        path \<noteq> [] \<and> MatchPathGlob rulePattern path \<or>
        pattern \<noteq> [] \<and> MatchPathGlob rulePattern pattern)"

definition suggestDirGlob :: "Host \<Rightarrow> string \<Rightarrow> string \<Rightarrow> string \<Rightarrow> SuggestedRule list" where
  "suggestDirGlob h name toolName searchPath =
     (let searchPath = (if TrimSpace searchPath = [] then ''.'' else TrimSpace searchPath);
          abs = (case filepath_Abs h searchPath of None \<Rightarrow> searchPath | Some p \<Rightarrow> p)
      in [\<lparr>sr_Name = name, sr_ToolName = toolName, sr_Target = [],
           sr_Pattern = TrimSuffix abs ''/'' @ ''/**'', sr_Decision = PermAllow\<rparr>])"

definition SuggestGlobSearch :: "Host \<Rightarrow> string \<Rightarrow> string \<Rightarrow> SuggestedRule list" where
  "SuggestGlobSearch h toolName searchPath = suggestDirGlob h ''suggested-glob-dir'' toolName searchPath"

definition MatchGrepPath :: "Host \<Rightarrow> string \<Rightarrow> string \<Rightarrow> bool" where
  "MatchGrepPath h rulePattern searchPath =
     (if rulePattern = [] then True
      else let searchPath = TrimSpace searchPath in
        MatchPathGlob rulePattern
          (if searchPath = [] then (case filepath_Abs h ''.'' of None \<Rightarrow> searchPath | Some wd \<Rightarrow> wd)
           else searchPath))"

definition SuggestGrepPath :: "Host \<Rightarrow> string \<Rightarrow> string \<Rightarrow> SuggestedRule list" where
  "SuggestGrepPath h toolName searchPath = suggestDirGlob h ''suggested-grep-dir'' toolName searchPath"

section \<open>Command patterns\<close>

definition patternLooksLikeRegex :: "string \<Rightarrow> bool" where
  "patternLooksLikeRegex pattern =
     list_ex (\<lambda>c. c \<in> {bslash, CHR ''('', CHR '')'', CHR ''|'', CHR ''+'', CHR ''^'', CHR ''$'',
                       CHR ''{'', CHR ''}''}) pattern"

fun bashPatternHasWildcards :: "string \<Rightarrow> bool" where
  "bashPatternHasWildcards [] = False"
| "bashPatternHasWildcards (c # cs) =
     (if c = bslash then bashPatternHasWildcards (drop 1 cs)
      else if c = CHR ''*'' then True
      else bashPatternHasWildcards cs)"

definition nulMark :: "string \<Rightarrow> string" where
  "nulMark s = CHR 0x00 # s @ [CHR 0x00]"

definition unescapeBashPattern :: "string \<Rightarrow> string" where
  "unescapeBashPattern pattern =
     (let pattern = ReplaceAll pattern [bslash, bslash] (nulMark ''BACKSLASH'');
          pattern = ReplaceAll pattern [bslash, CHR ''*''] ''*''
      in ReplaceAll pattern (nulMark ''BACKSLASH'') [bslash])"

definition bashWildcardToRegex :: "string \<Rightarrow> string" where
  "bashWildcardToRegex pattern =
     (let pattern = ReplaceAll pattern [bslash, bslash] (nulMark ''ESCAPED_BACKSLASH'');
          pattern = ReplaceAll pattern [bslash, CHR ''*''] (nulMark ''ESCAPED_STAR'');
          pattern = fold (\<lambda>ch p. ReplaceAll p [ch] [bslash, ch])
            [CHR ''.'', CHR ''^'', CHR ''$'', CHR ''+'', CHR ''?'', CHR ''{'', CHR ''}'',
             CHR ''['', CHR '']'', CHR ''|'', CHR ''('', CHR '')''] pattern;
          pattern = ReplaceAll pattern ''*'' ''.*'';
          pattern = ReplaceAll pattern (nulMark ''ESCAPED_STAR'') [bslash, CHR ''*'']
      in ReplaceAll pattern (nulMark ''ESCAPED_BACKSLASH'') [bslash, bslash])"

definition MatchBashCommand :: "Host \<Rightarrow> string \<Rightarrow> string \<Rightarrow> bool" where
  "MatchBashCommand h rulePattern command =
     (if rulePattern = [] then True
      else let command = TrimSpace command in
        if HasSuffix rulePattern '':*'' then
          (let prefix = TrimSpace (take (length rulePattern - 2) rulePattern)
           in HasPrefix command (prefix @ '' '') \<or> command = prefix)
        else if \<not> bashPatternHasWildcards rulePattern then
          Contains command (unescapeBashPattern rulePattern)
        else let regexPattern = bashWildcardToRegex rulePattern in
          if HasSuffix regexPattern ''.*'' \<and>
             regexp_MatchString h
               (''^'' @ TrimRight (take (length regexPattern - 2) regexPattern) '' '' @ ''$'') command
               = Some True
          then True
          else case regexp_MatchString h (''^'' @ regexPattern @ ''$'') command of
              None \<Rightarrow> Contains command (ReplaceAll rulePattern ''*'' [])
            | Some matched \<Rightarrow> matched)"

definition MatchBashCommandOrRegex :: "Host \<Rightarrow> string \<Rightarrow> string \<Rightarrow> bool" where
  "MatchBashCommandOrRegex h rulePattern command =
     (if MatchBashCommand h rulePattern command then True
      else if \<not> patternLooksLikeRegex rulePattern then False
      else regexp_MatchString h rulePattern command = Some True)"

section \<open>The shell tool\<close>

text \<open>\<^verbatim>\<open>splitCompoundCommand\<close> and \<^verbatim>\<open>shellTokenize\<close> of package
  \<^verbatim>\<open>shell\<close>: their four local variables are a \<open>shellScanState\<close>.\<close>

definition paren_step :: "shellScanState \<Rightarrow> char option \<Rightarrow> char \<Rightarrow> shellScanState" where
  "paren_step st prev c =
     (if c = CHR ''('' then
        (if prev = Some (CHR ''$'') then st\<lparr>parenDepth := parenDepth st + 1\<rparr> else st)
      else if parenDepth st > 0 then st\<lparr>parenDepth := parenDepth st - 1\<rparr> else st)"

fun toolSplitLoop :: "shellScanState \<Rightarrow> char option \<Rightarrow> string \<Rightarrow> string list \<Rightarrow> string \<Rightarrow> string list" where
  "toolSplitLoop st prev cur parts [] = flushPart cur parts"
| "toolSplitLoop st prev cur parts (c # cs) =
     (if inSingle st then
        toolSplitLoop (if c = squote then st\<lparr>inSingle := False\<rparr> else st) (Some c) (cur @ [c]) parts cs
      else if inDouble st then
        (if c = bslash \<and> cs \<noteq> [] then
           toolSplitLoop st (Some (hd cs)) (cur @ [c, hd cs]) parts (tl cs)
         else toolSplitLoop (if c = dquote then st\<lparr>inDouble := False\<rparr> else st) (Some c) (cur @ [c]) parts cs)
      else if inBacktick st then
        toolSplitLoop (if c = backtick then st\<lparr>inBacktick := False\<rparr> else st) (Some c) (cur @ [c]) parts cs
      else if c = squote then toolSplitLoop (st\<lparr>inSingle := True\<rparr>) (Some c) (cur @ [c]) parts cs
      else if c = dquote then toolSplitLoop (st\<lparr>inDouble := True\<rparr>) (Some c) (cur @ [c]) parts cs
      else if c = backtick then toolSplitLoop (st\<lparr>inBacktick := True\<rparr>) (Some c) (cur @ [c]) parts cs
      else if c = CHR ''('' \<or> c = CHR '')'' then
        toolSplitLoop (paren_step st prev c) (Some c) (cur @ [c]) parts cs
      else if atTopLevel st \<and> cs \<noteq> [] \<and> c = CHR ''&'' \<and> hd cs = CHR ''&'' then
        toolSplitLoop st (Some (CHR ''&'')) [] (flushPart cur parts) (tl cs)
      else if atTopLevel st \<and> cs \<noteq> [] \<and> c = CHR ''|'' \<and> hd cs = CHR ''|'' then
        toolSplitLoop st (Some (CHR ''|'')) [] (flushPart cur parts) (tl cs)
      else if atTopLevel st \<and> cs \<noteq> [] \<and> (c = CHR '';'' \<or> c = CHR ''|'') then
        toolSplitLoop st (Some c) [] (flushPart cur parts) cs
      else toolSplitLoop st (Some c) (cur @ [c]) parts cs)"

definition splitCompoundCommand :: "string \<Rightarrow> string list" where
  "splitCompoundCommand cmd =
     (let cmd = TrimSpace cmd in
      if cmd = [] then [] else toolSplitLoop scanStart None [] [] cmd)"

fun toolTokenLoop :: "shellScanState \<Rightarrow> bool \<Rightarrow> char option \<Rightarrow> string \<Rightarrow> string list \<Rightarrow> string \<Rightarrow> string list" where
  "toolTokenLoop st escaped prev cur tokens [] = flushToken cur tokens"
| "toolTokenLoop st escaped prev cur tokens (c # cs) =
     (if escaped then toolTokenLoop st False (Some c) (cur @ [c]) tokens cs
      else if atTopLevel st \<and> c = bslash then toolTokenLoop st True (Some c) cur tokens cs
      else if inSingle st then
        toolTokenLoop (if c = squote then st\<lparr>inSingle := False\<rparr> else st) False (Some c) (cur @ [c]) tokens cs
      else if inDouble st then
        (if c = bslash \<and> cs \<noteq> [] then
           toolTokenLoop st False (Some (hd cs)) (cur @ [c, hd cs]) tokens (tl cs)
         else toolTokenLoop (if c = dquote then st\<lparr>inDouble := False\<rparr> else st) False (Some c) (cur @ [c]) tokens cs)
      else if inBacktick st then
        toolTokenLoop (if c = backtick then st\<lparr>inBacktick := False\<rparr> else st) False (Some c) (cur @ [c]) tokens cs
      else if c = squote then toolTokenLoop (st\<lparr>inSingle := True\<rparr>) False (Some c) (cur @ [c]) tokens cs
      else if c = dquote then toolTokenLoop (st\<lparr>inDouble := True\<rparr>) False (Some c) (cur @ [c]) tokens cs
      else if c = backtick then toolTokenLoop (st\<lparr>inBacktick := True\<rparr>) False (Some c) (cur @ [c]) tokens cs
      else if c = CHR ''('' \<or> c = CHR '')'' then
        toolTokenLoop (paren_step st prev c) False (Some c) (cur @ [c]) tokens cs
      else if atTopLevel st \<and> byteIsSpace c then
        toolTokenLoop st False (Some c) [] (flushToken cur tokens) cs
      else toolTokenLoop st False (Some c) (cur @ [c]) tokens cs)"

definition shellTokenize :: "string \<Rightarrow> string list" where
  "shellTokenize cmd =
     (let cmd = TrimSpace cmd in
      if cmd = [] then [] else toolTokenLoop scanStart False None [] [] cmd)"

definition extractCommandPrefix :: "Host \<Rightarrow> string \<Rightarrow> string" where
  "extractCommandPrefix h cmd =
     (case dropWhile (isEnvAssignment (unicodeWord h)) (shellTokenize (TrimSpace cmd)) of
        [] \<Rightarrow> []
      | [t0] \<Rightarrow> t0
      | t0 # t1 # _ \<Rightarrow> if HasPrefix t1 ''-'' then t0 else t0 @ '' '' @ t1)"

definition Shell_MatchRule :: "Host \<Rightarrow> string \<Rightarrow> Input \<Rightarrow> bool" where
  "Shell_MatchRule h pattern input = MatchBashCommandOrRegex h pattern (inputString input ''command'')"

fun prefixRules :: "Host \<Rightarrow> string \<Rightarrow> string list \<Rightarrow> SuggestedRule list \<Rightarrow> string list \<Rightarrow> SuggestedRule list" where
  "prefixRules h name seen rules [] = rules"
| "prefixRules h name seen rules (segment # segments) =
     (let prefix = extractCommandPrefix h segment in
      if prefix = [] \<or> prefix \<in> set seen then prefixRules h name seen rules segments
      else let rules = rules @ [\<lparr>sr_Name = ''suggested-bash-prefix'', sr_ToolName = name,
                 sr_Target = [], sr_Pattern = prefix @ '':*'', sr_Decision = PermAllow\<rparr>]
        in if 5 \<le> length rules then rules else prefixRules h name (prefix # seen) rules segments)"

definition Shell_GenerateSuggestions :: "Host \<Rightarrow> string \<Rightarrow> Input \<Rightarrow> SuggestedRule list" where
  "Shell_GenerateSuggestions h name input =
     (let command = TrimSpace (inputString input ''command'') in
      if command = [] then []
      else let segments = splitCompoundCommand command
        in prefixRules h name [] [] (if segments = [] then [command] else segments))"

definition ShellTool :: "Host \<Rightarrow> string \<Rightarrow> 'ctx Tool" where
  "ShellTool h name = \<lparr>hook_IsReadOnly = Some False, hook_IsAutoApproved = None,
     hook_CheckPermissions = None, hook_MatchRule = Some (Shell_MatchRule h),
     hook_GenerateSuggestions = Some (Shell_GenerateSuggestions h name)\<rparr>"

section \<open>The file tools\<close>

definition matchFilePathRule :: "string \<Rightarrow> Input \<Rightarrow> string \<Rightarrow> bool" where
  "matchFilePathRule pattern input key = MatchPathGlob pattern (inputString input key)"

definition suggestFilePathRule :: "string \<Rightarrow> Input \<Rightarrow> string \<Rightarrow> SuggestedRule list" where
  "suggestFilePathRule toolName input key = SuggestPathParentGlob toolName (inputString input key)"

text \<open>The tools that take a \<open>file_path\<close> differ in name only; the directory lister takes a
  \<open>dir_path\<close>.  \<open>ro\<close>: the answer of \<^verbatim>\<open>IsReadOnly\<close>, None where the tool
  has no such method.\<close>

definition pathTool :: "bool option \<Rightarrow> string \<Rightarrow> string \<Rightarrow> 'ctx Tool" where
  "pathTool ro name key = \<lparr>hook_IsReadOnly = ro, hook_IsAutoApproved = None,
     hook_CheckPermissions = None, hook_MatchRule = Some (\<lambda>pattern input. matchFilePathRule pattern input key),
     hook_GenerateSuggestions = Some (\<lambda>input. suggestFilePathRule name input key)\<rparr>"

definition ReadFileTool :: "string \<Rightarrow> 'ctx Tool" where
  "ReadFileTool name = pathTool (Some True) name ''file_path''"

definition ListDirectoryTool :: "string \<Rightarrow> 'ctx Tool" where
  "ListDirectoryTool name = pathTool None name ''dir_path''"

definition WriteFileTool :: "string \<Rightarrow> 'ctx Tool" where
  "WriteFileTool name = pathTool (Some False) name ''file_path''"

definition InsertTextFileTool :: "string \<Rightarrow> 'ctx Tool" where
  "InsertTextFileTool name = pathTool None name ''file_path''"

definition EditFileTool :: "string \<Rightarrow> 'ctx Tool" where
  "EditFileTool name = pathTool (Some False) name ''file_path''"

definition GlobTool :: "Host \<Rightarrow> string \<Rightarrow> 'ctx Tool" where
  "GlobTool h name = \<lparr>hook_IsReadOnly = Some True, hook_IsAutoApproved = None,
     hook_CheckPermissions = None, hook_MatchRule = Some MatchGlobSearch,
     hook_GenerateSuggestions = Some (\<lambda>input. SuggestGlobSearch h name (inputString input ''path''))\<rparr>"

definition GrepTool :: "Host \<Rightarrow> string \<Rightarrow> 'ctx Tool" where
  "GrepTool h name = \<lparr>hook_IsReadOnly = Some True, hook_IsAutoApproved = None,
     hook_CheckPermissions = None,
     hook_MatchRule = Some (\<lambda>pattern input. MatchGrepPath h pattern (inputString input ''path'')),
     hook_GenerateSuggestions = Some (\<lambda>input. SuggestGrepPath h name (inputString input ''path''))\<rparr>"

section \<open>The two shell readers agree\<close>

lemma advance_paren:
  "\<not> inSingle st \<Longrightarrow> \<not> inDouble st \<Longrightarrow> \<not> inBacktick st \<Longrightarrow> c = CHR ''('' \<or> c = CHR '')'' \<Longrightarrow>
   advance st prev c rest = paren_step st prev c"
  by (auto simp: advance_def paren_step_def)

lemma byteIsSpace_not:
  "byteIsSpace c \<Longrightarrow> c \<notin> {squote, dquote, backtick, bslash, CHR ''('', CHR '')'', CHR '';'', CHR ''&'', CHR ''|''}"
  unfolding byteIsSpace_def asciiSpace_def by (elim disjE) simp_all

lemma advance_opens:
  "\<not> inSingle st \<Longrightarrow> \<not> inDouble st \<Longrightarrow> \<not> inBacktick st \<Longrightarrow>
   advance st prev c rest =
     (if c = squote then st\<lparr>inSingle := True\<rparr> else if c = dquote then st\<lparr>inDouble := True\<rparr>
      else if c = backtick then st\<lparr>inBacktick := True\<rparr>
      else if c = CHR ''('' \<or> c = CHR '')'' then paren_step st prev c else st)"
  by (auto simp: advance_def paren_step_def)

lemma advance_closes:
  "inSingle st \<Longrightarrow> advance st prev c rest = (if c = squote then st\<lparr>inSingle := False\<rparr> else st)"
  "\<not> inSingle st \<Longrightarrow> inDouble st \<Longrightarrow> c \<noteq> bslash \<Longrightarrow>
     advance st prev c rest = (if c = dquote then st\<lparr>inDouble := False\<rparr> else st)"
  "\<not> inSingle st \<Longrightarrow> \<not> inDouble st \<Longrightarrow> inBacktick st \<Longrightarrow>
     advance st prev c rest = (if c = backtick then st\<lparr>inBacktick := False\<rparr> else st)"
  by (auto simp: advance_def)

text \<open>Inside quotes, or at a quote or a parenthesis, a reader is never at a separator.\<close>

lemma atTopLevel_opened [simp]:
  "\<not> atTopLevel (st\<lparr>inSingle := True\<rparr>)" "\<not> atTopLevel (st\<lparr>inDouble := True\<rparr>)"
  "\<not> atTopLevel (st\<lparr>inBacktick := True\<rparr>)"
  by (simp_all add: atTopLevel_def)

definition quoted :: "shellScanState \<Rightarrow> bool" where
  "quoted st \<longleftrightarrow> inSingle st \<or> inDouble st \<or> inBacktick st"

lemma quoted_not_top: "quoted st \<Longrightarrow> \<not> atTopLevel st"
  by (auto simp: quoted_def atTopLevel_def)

lemma quoted_stays:
  "quoted st \<Longrightarrow> advance st prev c rest = st \<or> c \<in> {squote, dquote, backtick}"
  by (auto simp: quoted_def advance_def)

lemma tokenLoops_agree:
  "bslash \<notin> set cs \<Longrightarrow> toolTokenLoop st False prev cur tokens cs = tokenLoop st False prev cur tokens cs"
proof (induction cs arbitrary: st prev cur tokens)
  case (Cons c cs)
  then have c: "c \<noteq> bslash" and IH: "\<And>st prev cur tokens.
      toolTokenLoop st False prev cur tokens cs = tokenLoop st False prev cur tokens cs" by auto
  show ?case
  proof (cases "quoted st")
    case True
    then have "\<not> (atTopLevel (advance st prev c cs) \<and> byteIsSpace c)"
      using quoted_stays [OF True, of prev c cs] quoted_not_top [OF True] byteIsSpace_not [of c] by auto
    then have "tokenLoop st False prev cur tokens (c # cs)
        = tokenLoop (advance st prev c cs) False (Some c) (cur @ [c]) tokens cs"
      using c by (auto simp: Let_def)
    moreover have "toolTokenLoop st False prev cur tokens (c # cs)
        = tokenLoop (advance st prev c cs) False (Some c) (cur @ [c]) tokens cs"
      using c True
      by (cases "inSingle st"; cases "inDouble st")
         (simp_all add: IH advance_closes quoted_def)
    ultimately show ?thesis by simp
  next
    case False
    then have q: "\<not> inSingle st" "\<not> inDouble st" "\<not> inBacktick st" by (simp_all add: quoted_def)
    show ?thesis
      using c byteIsSpace_not [of c] unfolding toolTokenLoop.simps tokenLoop.simps Let_def IH
      by (cases "c \<in> {squote, dquote, backtick, CHR ''('', CHR '')''}"; cases "byteIsSpace c")
         (auto simp: q advance_opens)
  qed
qed simp

lemma splitLoops_agree:
  assumes "bslash \<notin> set cs" and "cs = [] \<or> last cs \<notin> {CHR '';'', CHR ''|''}"
  shows "toolSplitLoop st prev cur parts cs = splitLoop st prev cur parts cs"
  using assms
proof (induction "length cs" arbitrary: st prev cur parts cs rule: less_induct)
  case less
  show ?case
  proof (cases cs)
    case (Cons c ds)
    with less.prems have c: "c \<noteq> bslash"
      and end_op: "ds = [] \<Longrightarrow> c \<notin> {CHR '';'', CHR ''|''}" by auto
    have IH: "toolSplitLoop st prev cur parts (drop k ds) = splitLoop st prev cur parts (drop k ds)"
      for st prev cur parts k
    proof (rule less.hyps)
      show "bslash \<notin> set (drop k ds)" using less.prems Cons by (auto dest: in_set_dropD)
      show "drop k ds = [] \<or> last (drop k ds) \<notin> {CHR '';'', CHR ''|''}"
        using less.prems Cons by (cases "drop k ds = []") (auto simp: last_drop split: if_splits)
    qed (simp add: Cons)
    note IH0 = IH [where k = 0, simplified]
    have IH1: "toolSplitLoop st prev cur parts (tl ds) = splitLoop st prev cur parts (drop 1 ds)"
      for st prev cur parts using IH [where k = 1] by (simp add: drop_Suc)
    show ?thesis
    proof (cases "quoted st")
      case True
      then have "\<not> (atTopLevel (advance st prev c ds) \<and> c \<in> {CHR '';'', CHR ''&'', CHR ''|''})"
        using quoted_stays [OF True, of prev c ds] quoted_not_top [OF True] by auto
      then have "splitLoop st prev cur parts (c # ds)
          = splitLoop (advance st prev c ds) (Some c) (cur @ [c]) parts ds"
        by (auto simp: Let_def)
      moreover have "toolSplitLoop st prev cur parts (c # ds)
          = splitLoop (advance st prev c ds) (Some c) (cur @ [c]) parts ds"
        using c True
        by (cases "inSingle st"; cases "inDouble st") (simp_all add: IH0 advance_closes quoted_def)
      ultimately show ?thesis by (simp add: Cons)
    next
      case False
      then have q: "\<not> inSingle st" "\<not> inDouble st" "\<not> inBacktick st" by (simp_all add: quoted_def)
      have take1: "take 1 ds = [x] \<longleftrightarrow> ds \<noteq> [] \<and> hd ds = x" for x by (cases ds) auto
      show ?thesis
        using c end_op unfolding Cons toolSplitLoop.simps splitLoop.simps Let_def take1 IH0 IH1
        by (cases "c \<in> {squote, dquote, backtick, CHR ''('', CHR '')''}"; cases "atTopLevel st")
           (auto simp del: One_nat_def simp: q advance_opens)
    qed
  qed simp
qed

end
