(* ===== verification/Perm_Engine.thy ===== *)
theory Perm_Engine
  imports Perm_Safety Tool_Rules
begin

text \<open>
  The permission engine: \<^verbatim>\<open>permission/context.go\<close> and
  \<^verbatim>\<open>permission/engine.go\<close>.  A pointer to a rule is the rule, a nil
  pointer None.  A message built by \<^verbatim>\<open>fmt.Sprintf\<close> is the list of its
  pieces: literal text and the operands of \<^verbatim>\<open>%q\<close>.
\<close>

section \<open>Modes, decisions, rules\<close>

datatype PermMode = ModeUnset | ModeDefault | ModeExplore | ModeAcceptEdits | ModeBypass
  | ModeDontAsk | OtherMode string

datatype Decision = DecisionAllow | DecisionDeny | DecisionAsk | DecisionPassthrough
  | OtherDecision string

record Context =
  ctx_Mode :: PermMode
  ctx_WorkingDirs :: "string list"
  ctx_DangerousFiles :: "string list"
  ctx_DangerousDirs :: "string list"
  ctx_Unattended :: bool

record Rule =
  r_Name :: string
  r_ToolName :: string
  r_Target :: string
  r_Pattern :: string
  r_Decision :: Decision

datatype piece = Lit string | Quoted string

type_synonym sprintf = "piece list"

record PermResult =
  res_ToolCallID :: string
  res_ToolName :: string
  res_Decision :: Decision
  res_Message :: sprintf
  res_Reason :: sprintf
  res_SuggestedRules :: "Rule list"
  res_Rule :: "Rule option"

record ToolUseBlock =
  tc_ID :: string
  tc_Name :: string
  tc_Input :: Input
  tc_RawInput :: string

section \<open>Contexts\<close>

definition NewContext :: "PermMode \<Rightarrow> Context" where
  "NewContext mode =
     \<lparr>ctx_Mode = (if mode = ModeUnset then ModeExplore else mode), ctx_WorkingDirs = [],
      ctx_DangerousFiles = DefaultDangerousFiles, ctx_DangerousDirs = DefaultDangerousDirs,
      ctx_Unattended = False\<rparr>"

definition WithWorkingDirs :: "string list \<Rightarrow> Context \<Rightarrow> Context" where
  "WithWorkingDirs dirs c = c\<lparr>ctx_WorkingDirs := ctx_WorkingDirs c @ dirs\<rparr>"

definition WithDangerousFiles :: "string list \<Rightarrow> Context \<Rightarrow> Context" where
  "WithDangerousFiles files c = c\<lparr>ctx_DangerousFiles := files\<rparr>"

definition WithDangerousDirs :: "string list \<Rightarrow> Context \<Rightarrow> Context" where
  "WithDangerousDirs dirs c = c\<lparr>ctx_DangerousDirs := dirs\<rparr>"

definition WithUnattended :: "Context \<Rightarrow> Context" where
  "WithUnattended c = c\<lparr>ctx_Unattended := True\<rparr>"

section \<open>The engine\<close>

record Engine =
  eng_ctx :: Context
  eng_rules :: "Rule list"
  eng_approvals :: "Rule list"
  eng_readOnlyTools :: "(string, bool) gomap"
  eng_toolResolver :: "(string \<Rightarrow> Context Tool option) option"

definition defaultReadOnlyTools :: "(string, bool) gomap" where
  "defaultReadOnlyTools =
     [(''read_file'', True), (''list_directory'', True), (''glob'', True), (''grep'', True),
      (''read'', True)]"

definition NewEngine :: "PermMode \<Rightarrow> Rule list \<Rightarrow> Engine" where
  "NewEngine mode rules =
     \<lparr>eng_ctx = NewContext (if mode = ModeUnset then ModeExplore else mode), eng_rules = rules,
      eng_approvals = [], eng_readOnlyTools = defaultReadOnlyTools, eng_toolResolver = None\<rparr>"

definition NewEngineWithContext :: "Context option \<Rightarrow> Rule list \<Rightarrow> Engine" where
  "NewEngineWithContext ctx rules =
     \<lparr>eng_ctx = (case ctx of None \<Rightarrow> NewContext ModeExplore | Some c \<Rightarrow> c), eng_rules = rules,
      eng_approvals = [], eng_readOnlyTools = defaultReadOnlyTools, eng_toolResolver = None\<rparr>"

definition WithReadOnlyTools :: "string list \<Rightarrow> Engine \<Rightarrow> Engine" where
  "WithReadOnlyTools names e =
     e\<lparr>eng_readOnlyTools := fold (\<lambda>n m. mput n True m) names []\<rparr>"

text \<open>The accessors accept a nil engine.\<close>

definition Engine_Mode :: "Engine option \<Rightarrow> PermMode" where
  "Engine_Mode e = (case e of None \<Rightarrow> ModeUnset | Some e \<Rightarrow> ctx_Mode (eng_ctx e))"

definition Engine_WorkingDirs :: "Engine option \<Rightarrow> string list" where
  "Engine_WorkingDirs e = (case e of None \<Rightarrow> [] | Some e \<Rightarrow> ctx_WorkingDirs (eng_ctx e))"

definition SetUnattended :: "bool \<Rightarrow> Engine option \<Rightarrow> Engine option" where
  "SetUnattended v e = map_option (\<lambda>e. e\<lparr>eng_ctx := (eng_ctx e)\<lparr>ctx_Unattended := v\<rparr>\<rparr>) e"

definition Engine_Unattended :: "Engine option \<Rightarrow> bool" where
  "Engine_Unattended e = (case e of None \<Rightarrow> False | Some e \<Rightarrow> ctx_Unattended (eng_ctx e))"

definition SetToolResolver :: "(string \<Rightarrow> Context Tool option) \<Rightarrow> Engine \<Rightarrow> Engine" where
  "SetToolResolver resolver e = e\<lparr>eng_toolResolver := Some resolver\<rparr>"

definition AddRule :: "Rule \<Rightarrow> Engine \<Rightarrow> Engine" where
  "AddRule r e = e\<lparr>eng_rules := eng_rules e @ [r]\<rparr>"

definition ApproveRuleClass :: "Rule \<Rightarrow> Engine \<Rightarrow> Engine" where
  "ApproveRuleClass r e = e\<lparr>eng_approvals := eng_approvals e @ [r\<lparr>r_Decision := DecisionAllow\<rparr>]\<rparr>"

definition resolveTool :: "Engine \<Rightarrow> string \<Rightarrow> Context Tool option" where
  "resolveTool e name = (case eng_toolResolver e of None \<Rightarrow> None | Some f \<Rightarrow> f name)"

section \<open>Tool classes and conversions\<close>

definition isBashTool :: "string \<Rightarrow> bool" where
  "isBashTool name \<longleftrightarrow> name \<in> {''execute_shell_command'', ''shell_command'', ''bash''}"

definition isWriteFileTool :: "string \<Rightarrow> bool" where
  "isWriteFileTool name \<longleftrightarrow> name \<in> {''write_text_file'', ''write_file'', ''insert_text_file'', ''edit_file''}"

definition isWriteTool :: "string \<Rightarrow> bool" where
  "isWriteTool name \<longleftrightarrow> isWriteFileTool name \<or> isBashTool name"

definition isEditTool :: "string \<Rightarrow> bool" where
  "isEditTool name \<longleftrightarrow> isWriteFileTool name"

fun extractString :: "Input \<Rightarrow> string list \<Rightarrow> string" where
  "extractString m [] = []"
| "extractString m (k # keys) =
     (case mget m k of Some (InputString v) \<Rightarrow> v | _ \<Rightarrow> extractString m keys)"

definition fromToolDecision :: "PermissionDecision \<Rightarrow> Decision" where
  "fromToolDecision dec =
     (case dec of PermAllow \<Rightarrow> DecisionAllow | PermDeny \<Rightarrow> DecisionDeny | PermAsk \<Rightarrow> DecisionAsk
      | _ \<Rightarrow> DecisionAsk)"

definition fromToolSuggestions :: "SuggestedRule list \<Rightarrow> Rule list" where
  "fromToolSuggestions xs =
     map (\<lambda>s. \<lparr>r_Name = sr_Name s, r_ToolName = sr_ToolName s, r_Target = sr_Target s,
              r_Pattern = sr_Pattern s, r_Decision = fromToolDecision (sr_Decision s)\<rparr>) xs"

section \<open>Patterns\<close>

definition matchGlob :: "string \<Rightarrow> string \<Rightarrow> bool" where
  "matchGlob pattern s =
     (if pattern = ''*'' \<or> pattern = [] then True
      else case path_Match pattern s of None \<Rightarrow> Contains s pattern | Some matched \<Rightarrow> matched)"

definition looksLikeRegex :: "string \<Rightarrow> bool" where
  "looksLikeRegex pattern \<longleftrightarrow>
     pattern \<noteq> [] \<and> hd pattern = CHR ''^'' \<or>
     list_ex (\<lambda>c. c \<in> {CHR ''('', CHR '')'', CHR ''|'', CHR ''+'', CHR ''?'', CHR ''$'', bslash}) pattern"

definition matchRegex :: "Host \<Rightarrow> string \<Rightarrow> string \<Rightarrow> bool" where
  "matchRegex h pattern s =
     (case regexpCompile h pattern of None \<Rightarrow> Contains s pattern | Some re \<Rightarrow> re s)"

definition matchGlobOrRegex :: "Host \<Rightarrow> string \<Rightarrow> string \<Rightarrow> bool" where
  "matchGlobOrRegex h pattern s =
     (if looksLikeRegex pattern then matchRegex h pattern s
      else if matchGlob pattern s then True
      else if \<not> list_ex (\<lambda>c. c \<in> {CHR ''*'', CHR ''?'', CHR ''['', CHR '']''}) pattern
        then Contains s pattern
      else False)"

section \<open>Rules\<close>

text \<open>The aspects of a call that rules look at.\<close>

record Call =
  call_Name :: string
  call_FilePath :: string
  call_Command :: string
  call_Input :: Input
  call_Tool :: "Context Tool option"

definition ruleMatches :: "Host \<Rightarrow> Rule \<Rightarrow> Call \<Rightarrow> bool" where
  "ruleMatches h r c =
     (case Option.bind (call_Tool c) hook_MatchRule of
        Some MatchRule \<Rightarrow> if r_Pattern r = [] then True else MatchRule (r_Pattern r) (call_Input c)
      | None \<Rightarrow>
          if r_Target r = ''tool_name'' then matchGlob (r_Pattern r) (call_Name c)
          else if r_Target r = ''file_path'' then matchGlob (r_Pattern r) (call_FilePath c)
          else if r_Target r = ''command'' then matchGlobOrRegex h (r_Pattern r) (call_Command c)
          else if r_Target r = ''regex'' then
            matchRegex h (r_Pattern r) (call_Name c @ '' '' @ call_FilePath c @ '' '' @ call_Command c)
          else matchGlobOrRegex h (r_Pattern r) (call_Name c))"

definition matchApprovals :: "Host \<Rightarrow> Engine \<Rightarrow> Call \<Rightarrow> Rule option" where
  "matchApprovals h e c = find (\<lambda>r. ruleMatches h r c) (eng_approvals e)"

type_synonym RuleGroups = "(Decision, (string, Rule list) gomap) gomap"

definition rulesAt :: "(string, Rule list) gomap \<Rightarrow> string \<Rightarrow> Rule list" where
  "rulesAt m k = (case mget m k of None \<Rightarrow> [] | Some rs \<Rightarrow> rs)"

definition groupsAt :: "RuleGroups \<Rightarrow> Decision \<Rightarrow> (string, Rule list) gomap" where
  "groupsAt g d = (case mget g d of None \<Rightarrow> [] | Some m \<Rightarrow> m)"

definition groupRule :: "Rule \<Rightarrow> RuleGroups \<Rightarrow> RuleGroups" where
  "groupRule r groups =
     (case mget groups (r_Decision r) of None \<Rightarrow> groups
      | Some byDecision \<Rightarrow>
          mput (r_Decision r) (mput (r_ToolName r) (rulesAt byDecision (r_ToolName r) @ [r]) byDecision) groups)"

definition groupRules :: "Rule list \<Rightarrow> RuleGroups" where
  "groupRules rules =
     fold groupRule rules [(DecisionDeny, []), (DecisionAsk, []), (DecisionAllow, [])]"

definition matchRules :: "Host \<Rightarrow> (string, Rule list) gomap \<Rightarrow> Call \<Rightarrow> Rule option" where
  "matchRules h rules c =
     (case find (\<lambda>r. ruleMatches h r c) (rulesAt rules (call_Name c)) of
        Some r \<Rightarrow> Some r
      | None \<Rightarrow> find (\<lambda>r. ruleMatches h r c) (rulesAt rules []))"

section \<open>Suggestions\<close>

definition generateSuggestions :: "ToolUseBlock \<Rightarrow> Call \<Rightarrow> Rule list" where
  "generateSuggestions tc c =
     (let generated = (case Option.bind (call_Tool c) hook_GenerateSuggestions of
            None \<Rightarrow> [] | Some gen \<Rightarrow> gen (tc_Input tc)) in
      if generated \<noteq> [] then fromToolSuggestions generated
      else
        let parts = Fields (call_Command c);
            byCommand =
              (if call_Command c = [] then []
               else if 2 \<le> length parts then
                 [\<lparr>r_Name = ''suggested-bash-prefix'', r_ToolName = tc_Name tc, r_Target = ''command'',
                   r_Pattern = parts ! 0 @ '' '' @ parts ! 1 @ '':*'', r_Decision = DecisionAllow\<rparr>]
               else if length parts = 1 then
                 [\<lparr>r_Name = ''suggested-bash-cmd'', r_ToolName = tc_Name tc, r_Target = ''command'',
                   r_Pattern = parts ! 0, r_Decision = DecisionAllow\<rparr>]
               else []);
            dir = path_Dir (call_FilePath c);
            byPath =
              (if call_FilePath c \<noteq> [] \<and> dir \<noteq> [] \<and> dir \<noteq> ''.'' then
                 [\<lparr>r_Name = ''suggested-file-dir'', r_ToolName = tc_Name tc, r_Target = ''file_path'',
                   r_Pattern = dir @ ''/*'', r_Decision = DecisionAllow\<rparr>]
               else []);
            suggestions = byCommand @ byPath
        in if suggestions = [] then
             [\<lparr>r_Name = ''suggested-tool-level'', r_ToolName = tc_Name tc, r_Target = ''tool_name'',
               r_Pattern = tc_Name tc, r_Decision = DecisionAllow\<rparr>]
           else suggestions)"

section \<open>Safety checks\<close>

abbreviation plainResult :: "string \<Rightarrow> Decision \<Rightarrow> sprintf \<Rightarrow> sprintf \<Rightarrow> PermResult" where
  "plainResult name d msg reason \<equiv>
     \<lparr>res_ToolCallID = [], res_ToolName = name, res_Decision = d, res_Message = msg,
      res_Reason = reason, res_SuggestedRules = [], res_Rule = None\<rparr>"

definition pathInWorkingDirs :: "Host \<Rightarrow> Context \<Rightarrow> string \<Rightarrow> bool" where
  "pathInWorkingDirs h ctx filePath =
     (if filePath = [] then False
      else let absFile = (case filepath_Abs h filePath of None \<Rightarrow> filePath | Some p \<Rightarrow> p) in
        list_ex (\<lambda>wd. let absWd = (case filepath_Abs h wd of None \<Rightarrow> wd | Some p \<Rightarrow> p)
                     in HasPrefix absFile (absWd @ ''/'') \<or> absFile = absWd)
          (ctx_WorkingDirs ctx))"

definition bashSafety :: "Host \<Rightarrow> string \<Rightarrow> string \<Rightarrow> PermResult option" where
  "bashSafety h toolName command =
     (let cmd = NormalizeCommand (unicodeWord h) command in
      if IsDangerousCommand cmd = Some True then
        Some (plainResult toolName DecisionAsk
          [Lit ''Permission required: dangerous command pattern detected in '', Quoted command]
          [Lit ''Safety check: dangerous command pattern detected''])
      else if IsReadOnlyCommand (unicodeWord h) cmd = Some True then
        Some (plainResult toolName DecisionAllow
          [Lit ''Permission granted for read-only command''] [Lit ''Read-only command is allowed''])
      else if IsDangerousRemoval cmd then
        Some (plainResult toolName DecisionAsk
          [Lit ''Dangerous removal operation detected in '', Quoted command]
          [Lit ''Safety check: dangerous removal of critical system path''])
      else None)"

definition checkSafety :: "Host \<Rightarrow> Context \<Rightarrow> string \<Rightarrow> string \<Rightarrow> string \<Rightarrow> bool \<Rightarrow> PermResult option" where
  "checkSafety h ctx toolName filePath command isReadOnly =
     (if ctx_Mode ctx = ModeExplore \<and> \<not> isReadOnly then
        Some (plainResult toolName DecisionDeny
          [Lit ''Permission denied for '', Lit toolName, Lit '' (explore mode is read-only)'']
          [Lit ''Explore mode does not allow modifications''])
      else case (if isBashTool toolName \<and> command \<noteq> [] then bashSafety h toolName command else None) of
        Some r \<Rightarrow> Some r
      | None \<Rightarrow>
          if isWriteFileTool toolName \<and> filePath \<noteq> [] \<and>
             IsDangerousPath filePath (ctx_DangerousFiles ctx) (ctx_DangerousDirs ctx) then
            Some (plainResult toolName DecisionAsk
              [Lit ''Permission required: write operation on sensitive file '', Lit filePath]
              [Lit ''Safety check: dangerous file or directory''])
          else if ctx_Mode ctx = ModeAcceptEdits \<and> isReadOnly then
            Some (plainResult toolName DecisionAllow
              [Lit ''Permission granted for '', Lit toolName, Lit '' (accept edits mode - read-only tool)'']
              [Lit ''Accept edits mode allows read-only operations''])
          else if ctx_Mode ctx = ModeAcceptEdits \<and> filePath \<noteq> [] \<and> pathInWorkingDirs h ctx filePath then
            Some (plainResult toolName DecisionAllow
              [Lit ''Permission granted for '', Lit toolName, Lit '' (accept edits mode - in working directory)'']
              [Lit ''File is in working directory and not a dangerous path''])
          else None)"

section \<open>Mode defaults\<close>

definition modeResult :: "ToolUseBlock \<Rightarrow> Decision \<Rightarrow> string \<Rightarrow> string \<Rightarrow> string \<Rightarrow> Rule list \<Rightarrow> PermResult" where
  "modeResult tc d before after reason suggested =
     \<lparr>res_ToolCallID = tc_ID tc, res_ToolName = tc_Name tc, res_Decision = d,
      res_Message = [Lit before, Lit (tc_Name tc), Lit after], res_Reason = [Lit reason],
      res_SuggestedRules = suggested, res_Rule = None\<rparr>"

definition defaultResult :: "PermMode \<Rightarrow> ToolUseBlock \<Rightarrow> Call \<Rightarrow> PermResult" where
  "defaultResult mode tc c =
     (if mode = ModeBypass then
        modeResult tc DecisionAllow ''Permission granted for '' '' (bypass mode)''
          ''Bypass mode allows all operations'' []
      else if mode = ModeDontAsk then
        modeResult tc DecisionDeny ''Permission denied for '' '' (dont_ask mode - user not available)''
          ''User is not available to answer permission prompts'' []
      else if mode = ModeExplore then
        modeResult tc DecisionAllow ''Permission granted for '' '' (explore mode)''
          ''Explore mode allows read-only operations'' []
      else if mode = ModeAcceptEdits then
        (if isEditTool (tc_Name tc) then
           modeResult tc DecisionAllow ''Permission granted for '' '' (accept edits mode)''
             ''Accept edits mode allows file edits'' []
         else if isWriteTool (tc_Name tc) then
           modeResult tc DecisionAsk ''Permission required for '' []
             ''Accept edits mode requires explicit permission for non-edit write operations''
             (generateSuggestions tc c)
         else modeResult tc DecisionAllow ''Permission granted for '' '' (accept edits mode)''
             ''Accept edits mode allows read-only operations'' [])
      else modeResult tc DecisionAsk ''Permission required for '' []
             ''Default mode requires explicit permission for each action''
             (generateSuggestions tc c))"

section \<open>Evaluation\<close>

definition callOf :: "Engine \<Rightarrow> ToolUseBlock \<Rightarrow> Call" where
  "callOf e tc =
     \<lparr>call_Name = tc_Name tc,
      call_FilePath = extractString (tc_Input tc) [''file_path'', ''dir_path'', ''path''],
      call_Command = extractString (tc_Input tc) [''command''],
      call_Input = tc_Input tc, call_Tool = resolveTool e (tc_Name tc)\<rparr>"

definition callReadOnly :: "Engine \<Rightarrow> ToolUseBlock \<Rightarrow> bool" where
  "callReadOnly e tc \<longleftrightarrow>
     mget (eng_readOnlyTools e) (tc_Name tc) = Some True \<or>
     Option.bind (resolveTool e (tc_Name tc)) hook_IsReadOnly = Some True"

definition ruleResult :: "ToolUseBlock \<Rightarrow> Decision \<Rightarrow> string \<Rightarrow> string \<Rightarrow> string \<Rightarrow> Rule list \<Rightarrow> Rule \<Rightarrow> PermResult" where
  "ruleResult tc d before after reason suggested r =
     \<lparr>res_ToolCallID = tc_ID tc, res_ToolName = tc_Name tc, res_Decision = d,
      res_Message = [Lit before, Lit (tc_Name tc), Lit after],
      res_Reason = [Lit reason, Quoted (r_Name r)], res_SuggestedRules = suggested,
      res_Rule = Some r\<rparr>"

text \<open>Step 3: the tool's own decision, None when it passes the question on.\<close>

definition toolDecision :: "Engine \<Rightarrow> ToolUseBlock \<Rightarrow> Call \<Rightarrow> PermResult option" where
  "toolDecision e tc c =
     (case Option.bind (call_Tool c) hook_CheckPermissions of None \<Rightarrow> None
      | Some CheckPermissions \<Rightarrow>
          (let (dec, msg, reason, passthrough) = CheckPermissions (call_Input c) (eng_ctx e);
               engineDec = fromToolDecision dec in
           if passthrough then None
           else Some \<lparr>res_ToolCallID = tc_ID tc, res_ToolName = tc_Name tc, res_Decision = engineDec,
                  res_Message = [Lit msg], res_Reason = [Lit reason],
                  res_SuggestedRules = (if engineDec = DecisionAsk then generateSuggestions tc c else []),
                  res_Rule = None\<rparr>))"

definition evaluateOne :: "Host \<Rightarrow> Engine \<Rightarrow> RuleGroups \<Rightarrow> ToolUseBlock \<Rightarrow> PermResult" where
  "evaluateOne h e grouped tc =
     (let c = callOf e tc; isReadOnly = callReadOnly e tc in
      case matchRules h (groupsAt grouped DecisionDeny) c of
        Some r \<Rightarrow> ruleResult tc DecisionDeny ''Permission denied for '' [] ''matched deny rule '' [] r
      | None \<Rightarrow>
      if Option.bind (call_Tool c) hook_IsAutoApproved = Some True then
        modeResult tc DecisionAllow ''Permission granted for '' '' (auto-approved tool)''
          ''tool declares itself auto-approved'' []
      else case matchApprovals h e c of
        Some r \<Rightarrow> ruleResult tc DecisionAllow ''Permission granted for ''
                    '' (session-approved rule class)'' ''session-approved rule '' [] r
      | None \<Rightarrow>
      case matchRules h (groupsAt grouped DecisionAsk) c of
        Some r \<Rightarrow> ruleResult tc DecisionAsk ''Permission required for '' [] ''matched ask rule ''
                    (generateSuggestions tc c) r
      | None \<Rightarrow>
      case toolDecision e tc c of
        Some result \<Rightarrow> result
      | None \<Rightarrow>
      case checkSafety h (eng_ctx e) (tc_Name tc) (call_FilePath c) (call_Command c) isReadOnly of
        Some safety \<Rightarrow> safety\<lparr>res_ToolCallID := tc_ID tc\<rparr>
      | None \<Rightarrow>
      case matchRules h (groupsAt grouped DecisionAllow) c of
        Some r \<Rightarrow> ruleResult tc DecisionAllow ''Permission granted for '' [] ''matched allow rule '' [] r
      | None \<Rightarrow> defaultResult (ctx_Mode (eng_ctx e)) tc c)"

definition failClosed :: "PermResult \<Rightarrow> PermResult" where
  "failClosed r =
     (if res_Decision r = DecisionAsk then
        r\<lparr>res_Decision := DecisionDeny,
          res_Message := [Lit ''Permission denied for '', Lit (res_ToolName r),
                          Lit '' (unattended: no user available to approve)''],
          res_Reason := Lit ''unattended mode fails closed: '' # res_Reason r,
          res_SuggestedRules := []\<rparr>
      else r)"

definition Evaluate :: "Host \<Rightarrow> Engine \<Rightarrow> ToolUseBlock list \<Rightarrow> PermResult list" where
  "Evaluate h e toolCalls =
     (if toolCalls = [] then []
      else let results = map (evaluateOne h e (groupRules (eng_rules e))) toolCalls in
        if ctx_Unattended (eng_ctx e) then map failClosed results else results)"

end
