(* ===== verification/Perm_Words.thy ===== *)
theory Perm_Words
  imports Perm_Safety
begin

text \<open>
  Commands made of plain words: what the shell reader does with them.  A plain character is
  printable ASCII that neither quotes nor groups; a plain word is a non-empty string of them; a
  plain text is a sequence of plain words and blanks that begins and ends with a plain
  character, and a plain command one without operators and redirections.  Joined words are read
  back as they were, and a compound of plain commands splits into exactly its commands.
\<close>

definition plainChar :: "char \<Rightarrow> bool" where
  "plainChar c \<longleftrightarrow> CHR 0x21 \<le> c \<and> c \<le> CHR 0x7E \<and>
     c \<notin> {squote, dquote, backtick, bslash, CHR ''('', CHR '')''}"

abbreviation operatorChars :: "char set" where
  "operatorChars \<equiv> {CHR '';'', CHR ''&'', CHR ''|'', CHR ''>''}"

abbreviation blank :: char where "blank \<equiv> CHR '' ''"

definition plainWord :: "string \<Rightarrow> bool" where
  "plainWord w \<longleftrightarrow> w \<noteq> [] \<and> list_all plainChar w"

definition plainText :: "string \<Rightarrow> bool" where
  "plainText s \<longleftrightarrow> s \<noteq> [] \<and> plainChar (hd s) \<and> plainChar (last s) \<and>
     list_all (\<lambda>c. plainChar c \<or> c = blank) s"

definition plainCommand :: "string \<Rightarrow> bool" where
  "plainCommand s \<longleftrightarrow> plainText s \<and> list_all (\<lambda>c. c \<notin> operatorChars) s"

lemma plainChar_not [simp]:
  "\<not> plainChar squote" "\<not> plainChar dquote" "\<not> plainChar backtick" "\<not> plainChar bslash"
  "\<not> plainChar (CHR ''('')" "\<not> plainChar (CHR '')'')" "\<not> plainChar blank"
  "plainChar (CHR '';'')" "plainChar (CHR ''&'')" "plainChar (CHR ''|'')" "plainChar (CHR ''>'')"
  by (simp_all add: plainChar_def less_eq_char_simp)

lemma plainChar_ascii: "plainChar c \<Longrightarrow> \<not> asciiSpace c" "plainChar c \<Longrightarrow> \<not> byteIsSpace c"
proof -
  have no: "\<not> plainChar c" if "asciiSpace c" for c
    using that unfolding asciiSpace_def plainChar_def by (elim disjE) (simp_all add: less_eq_char_simp)
  have "\<not> plainChar c" if "c = CHR 0x85 \<or> c = CHR 0xA0" for c
    using that unfolding plainChar_def by (elim disjE) (simp_all add: less_eq_char_simp)
  with no show "plainChar c \<Longrightarrow> \<not> asciiSpace c" "plainChar c \<Longrightarrow> \<not> byteIsSpace c"
    by (auto simp: byteIsSpace_def)
qed

lemma plainChar_multi: "plainChar c \<Longrightarrow> \<not> space2 c b" "plainChar c \<Longrightarrow> \<not> space3 c b d"
  "plainChar c \<Longrightarrow> \<not> space2 b c" "plainChar c \<Longrightarrow> \<not> space3 b d c"
proof -
  have hi2: "CHR 0x80 \<le> a \<and> CHR 0x80 \<le> b" if "space2 a b" for a b
    using that unfolding space2_def by (elim conjE disjE) (simp_all add: less_eq_char_simp)
  have hi3: "CHR 0x80 \<le> a \<and> CHR 0x80 \<le> d" if "space3 a b d" for a b d
    using that unfolding space3_def by (elim conjE disjE) (simp_all add: less_eq_char_simp)
  have lo: "\<not> CHR 0x80 \<le> c" if "plainChar c"
  proof
    assume "CHR 0x80 \<le> c"
    moreover from that have "c \<le> CHR 0x7E" by (simp add: plainChar_def)
    ultimately have "CHR 0x80 \<le> CHR 0x7E" by (rule order_trans)
    then show False by (simp add: less_eq_char_simp)
  qed
  show "plainChar c \<Longrightarrow> \<not> space2 c b" "plainChar c \<Longrightarrow> \<not> space3 c b d"
    "plainChar c \<Longrightarrow> \<not> space2 b c" "plainChar c \<Longrightarrow> \<not> space3 b d c"
    using hi2 hi3 lo by blast+
qed

lemma blank_space [simp]: "asciiSpace blank" "byteIsSpace blank"
  by (simp_all add: asciiSpace_def byteIsSpace_def)

section \<open>Trimming\<close>

lemma spaceLen_plain: "plainChar c \<Longrightarrow> spaceLen (c # s) = 0" "plainChar c \<Longrightarrow> spaceLenR (c # s) = 0"
  by (auto simp: spaceLen_def spaceLenR_def plainChar_ascii plainChar_multi split: list.splits)

lemma spaceLen_blank: "spaceLen (blank # s) = 1" "spaceLenR (blank # s) = 1"
  by (simp_all add: spaceLen_def spaceLenR_def)

lemma trimStart_blanks:
  "trimStart spaceLen (replicate n blank @ s) = trimStart spaceLen s"
  "trimStart spaceLenR (replicate n blank @ s) = trimStart spaceLenR s"
  by (induction n) (simp_all add: trimStart.simps [of _ "blank # _"] spaceLen_blank)

lemma TrimSpace_blanks_left: "TrimSpace (replicate n blank @ s) = TrimSpace s"
  by (simp add: TrimSpace_def trimStart_blanks)

lemma trimStart_plain_head:
  assumes "s \<noteq> []" and "plainChar (hd s)"
  shows "trimStart spaceLen (s @ r) = s @ r" "trimStart spaceLenR (s @ r) = s @ r"
  using assms by (cases s; simp add: trimStart_fix spaceLen_plain)+

text \<open>Blanks around a string that begins and ends with plain characters are what is trimmed.\<close>

lemma TrimSpace_pad:
  assumes "s \<noteq> []" and "plainChar (hd s)" and "plainChar (last s)"
  shows "TrimSpace (replicate m blank @ s @ replicate n blank) = s"
proof -
  have "trimStart spaceLenR (rev (s @ replicate n blank)) = rev s"
    using assms trimStart_plain_head(2) [of "rev s" "[]"]
    by (simp add: trimStart_blanks hd_rev)
  with assms show ?thesis
    by (simp add: TrimSpace_def trimStart_blanks trimStart_plain_head(1))
qed

lemmas TrimSpace_trimmed = TrimSpace_pad [where m = 0 and n = 0, simplified]

lemma plainWord_text: "plainWord w \<Longrightarrow> plainText w"
  by (auto simp: plainWord_def plainText_def list_all_iff)

lemma TrimSpace_plain: "plainText s \<Longrightarrow> TrimSpace s = s"
  by (simp add: plainText_def TrimSpace_trimmed)

lemma plainCommand_text: "plainCommand s \<Longrightarrow> plainText s"
  by (simp add: plainCommand_def)

section \<open>Scanning plain text\<close>

lemma scanStart_top [simp]: "atTopLevel scanStart"
  by (simp add: atTopLevel_def scanStart_def)

lemma advance_plain:
  "c \<notin> {squote, dquote, backtick, CHR ''('', CHR '')''} \<Longrightarrow> advance scanStart prev c rest = scanStart"
  by (simp add: advance_def scanStart_def)

lemma advance_plainChar [simp]:
  "plainChar c \<Longrightarrow> advance scanStart prev c rest = scanStart"
  "advance scanStart prev blank rest = scanStart"
  by (rule advance_plain, auto)+

lemma scanStart_sel [simp]:
  "\<not> inSingle scanStart" "\<not> inDouble scanStart" "\<not> inBacktick scanStart" "parenDepth scanStart = 0"
  by (simp_all add: scanStart_def)

definition prevAfter :: "char option \<Rightarrow> string \<Rightarrow> char option" where
  "prevAfter prev w = (if w = [] then prev else Some (last w))"

lemma prevAfter_Cons [simp]: "prevAfter prev (c # w) = prevAfter (Some c) w"
  by (simp add: prevAfter_def)

lemma prevAfter_Nil [simp]: "prevAfter prev [] = prev"
  by (simp add: prevAfter_def)

lemma tokenLoop_word:
  "list_all plainChar w \<Longrightarrow>
   tokenLoop scanStart False prev cur ts (w @ r) = tokenLoop scanStart False (prevAfter prev w) (cur @ w) ts r"
proof (induction w arbitrary: prev cur)
  case (Cons c w)
  then have c: "plainChar c" and "c \<noteq> bslash" by auto
  with Cons show ?case by (simp add: plainChar_ascii)
qed simp

lemma TrimCutset_plain: "list_all plainChar w \<Longrightarrow> TrimCutset w [dquote, squote] = w"
proof -
  assume w: "list_all plainChar w"
  have "dropWhile (\<lambda>c. List.member [dquote, squote] c) v = v" if "list_all plainChar v" for v
    using that by (cases v) auto
  from this [OF w] this [of "rev w"] w show ?thesis by (simp add: TrimCutset_def)
qed

lemma unquoteToken_plain: "plainWord w \<Longrightarrow> unquoteToken w = w"
proof -
  assume w: "plainWord w"
  then have "hd w \<noteq> squote" "hd w \<noteq> dquote" by (cases w; auto simp: plainWord_def)+
  with w show ?thesis by (simp add: unquoteToken_def TrimCutset_plain plainWord_def)
qed

lemma flushToken_plain: "plainWord w \<Longrightarrow> flushToken w ts = ts @ [w]"
  using TrimSpace_plain [OF plainWord_text, of w] unquoteToken_plain [of w]
  by (simp add: flushToken_def plainWord_def)

lemma tokenLoop_words:
  "ws \<noteq> [] \<Longrightarrow> list_all plainWord ws \<Longrightarrow>
   tokenLoop scanStart False prev [] ts (Join ws '' '') = ts @ ws"
proof (induction ws arbitrary: prev ts)
  case (Cons w ws)
  then have w: "plainWord w" and ws: "list_all plainWord ws" by simp_all
  from w have wc: "list_all plainChar w" by (simp add: plainWord_def)
  show ?case
  proof (cases "ws = []")
    case True
    with w tokenLoop_word [OF wc, of prev "[]" ts "[]"] show ?thesis by (simp add: flushToken_plain)
  next
    case False
    with w tokenLoop_word [OF wc, of prev "[]" ts "blank # Join ws '' ''"] Cons.IH [OF False ws]
    show ?thesis by (simp add: Join_Cons_neq_Nil flushToken_plain)
  qed
qed simp

lemma plainText_Join: "ws \<noteq> [] \<Longrightarrow> list_all plainWord ws \<Longrightarrow> plainText (Join ws '' '')"
proof (induction ws)
  case (Cons w ws)
  then have w: "w \<noteq> []" "list_all plainChar w" by (auto simp: plainWord_def)
  show ?case
  proof (cases "ws = []")
    case True
    with Cons.prems show ?thesis by (simp add: plainWord_text)
  next
    case False
    with Cons have "plainText (Join ws '' '')" by simp
    with w False show ?thesis
      by (cases w) (auto simp: plainText_def Join_Cons_neq_Nil list_all_iff)
  qed
qed simp

lemma ShellTokenize_words:
  assumes "list_all plainWord ws"
  shows "ShellTokenize (Join ws '' '') = ws"
proof (cases "ws = []")
  case False
  with assms plainText_Join [of ws] have p: "plainText (Join ws '' '')" by simp
  with False assms show ?thesis
    by (simp add: ShellTokenize_def TrimSpace_plain tokenLoop_words plainText_def [of "Join ws '' ''"])
qed (simp add: ShellTokenize_def)

section \<open>Compounds of plain commands\<close>

definition operators :: "string list" where
  "operators = ['';'', ''&&'', ''||'', ''|'']"

text \<open>\<open>compound p [(m, op, n, q), \<dots>]\<close>: the command \<open>p\<close>, then \<open>m\<close>
  blanks, an operator, \<open>n\<close> blanks and the next command.\<close>

fun compound :: "string \<Rightarrow> (nat \<times> string \<times> nat \<times> string) list \<Rightarrow> string" where
  "compound p [] = p"
| "compound p ((m, op_text, n, q) # rest) =
     p @ replicate m blank @ op_text @ replicate n blank @ compound q rest"

fun compoundParts :: "string \<Rightarrow> (nat \<times> string \<times> nat \<times> string) list \<Rightarrow> string list" where
  "compoundParts p [] = [p]"
| "compoundParts p ((m, op_text, n, q) # rest) = p # compoundParts q rest"

fun plainCompound :: "string \<Rightarrow> (nat \<times> string \<times> nat \<times> string) list \<Rightarrow> bool" where
  "plainCompound p [] \<longleftrightarrow> plainCommand p"
| "plainCompound p ((m, op_text, n, q) # rest) \<longleftrightarrow>
     plainCommand p \<and> op_text \<in> set operators \<and> plainCompound q rest"

lemma compound_ends:
  "plainCompound p rest \<Longrightarrow>
   compound p rest \<noteq> [] \<and> plainChar (hd (compound p rest)) \<and> plainChar (last (compound p rest)) \<and>
   hd (compound p rest) \<noteq> CHR ''|''"
proof (induction p rest rule: compound.induct)
  case (1 p)
  then show ?case by (cases p) (auto simp: plainCommand_def plainText_def)
next
  case (2 p m op_text n q rest)
  then show ?case by (cases p) (auto simp: plainCommand_def plainText_def)
qed

definition segmentChar :: "char \<Rightarrow> bool" where
  "segmentChar c \<longleftrightarrow> (plainChar c \<or> c = blank) \<and> c \<notin> operatorChars"

lemma plainCommand_segment: "plainCommand p \<Longrightarrow> list_all segmentChar p"
  by (auto simp: plainCommand_def plainText_def list_all_iff segmentChar_def)

lemma splitLoop_text:
  "list_all segmentChar w \<Longrightarrow>
   splitLoop scanStart prev cur parts (w @ r) = splitLoop scanStart (prevAfter prev w) (cur @ w) parts r"
proof (induction w arbitrary: prev cur)
  case (Cons c w)
  then have c: "segmentChar c" and "list_all segmentChar w" by simp_all
  moreover from c have "advance scanStart prev c (w @ r) = scanStart"
    and "c \<notin> {CHR '';'', CHR ''&'', CHR ''|''}" by (auto simp: segmentChar_def)
  ultimately show ?case using Cons.IH by simp
qed simp

lemma splitLoop_operator:
  assumes "op_text \<in> set operators"
    and "op_text = ''|'' \<Longrightarrow> take 1 r \<noteq> ''|''"
  shows "\<exists>q. splitLoop scanStart prev cur parts (op_text @ r) = splitLoop scanStart q [] (flushPart cur parts) r"
  using assms by (auto simp: operators_def advance_plain)

lemma list_all_blanks: "list_all segmentChar (replicate n blank)"
  by (simp add: list_all_iff segmentChar_def)

lemma flushPart_pad:
  "plainCommand p \<Longrightarrow> flushPart (replicate m blank @ p @ replicate n blank) parts = parts @ [p]"
  by (simp add: flushPart_def TrimSpace_pad plainCommand_def plainText_def)

lemma splitLoop_compound:
  "plainCompound p rest \<Longrightarrow>
   splitLoop scanStart prev (replicate k blank) parts (compound p rest) = parts @ compoundParts p rest"
proof (induction p rest arbitrary: prev k parts rule: compound.induct)
  case (1 p)
  then have "list_all segmentChar p" using plainCommand_segment by auto
  from splitLoop_text [OF this, of prev "replicate k blank" parts "[]"] 1
    flushPart_pad [of p k 0 parts] show ?case by simp
next
  case (2 p m op_text n q rest)
  define w where "w = p @ replicate m blank"
  define r where "r = replicate n blank @ compound q rest"
  from 2 have w: "list_all segmentChar w"
    using list_all_blanks [of m] by (simp add: w_def plainCommand_segment)
  have "hd r \<noteq> CHR ''|''" and "r \<noteq> []"
    using compound_ends [of q rest] 2 by (cases n; simp add: r_def)+
  then have "take 1 r \<noteq> ''|''" by (cases r) auto
  then obtain s where s: "splitLoop scanStart (prevAfter prev w) (replicate k blank @ w) parts (op_text @ r)
      = splitLoop scanStart s [] (flushPart (replicate k blank @ w) parts) r"
    using splitLoop_operator [of op_text r "prevAfter prev w" "replicate k blank @ w" parts] 2 by auto
  have "splitLoop scanStart s [] (parts @ [p]) r
      = splitLoop scanStart (prevAfter s (replicate n blank)) (replicate n blank) (parts @ [p]) (compound q rest)"
    unfolding r_def using splitLoop_text [OF list_all_blanks, of s "[]"] by simp
  with s 2 splitLoop_text [OF w, of prev "replicate k blank" parts "op_text @ r"]
    flushPart_pad [of p k m parts]
  show ?case by (simp add: w_def r_def)
qed

lemma splitCompound_plain:
  assumes "plainCompound p rest"
  shows "splitCompoundCommandHeuristic (compound p rest) = compoundParts p rest"
    and "SplitCompoundCommand (compound p rest) = compoundParts p rest"
proof -
  from compound_ends [OF assms] have trim: "TrimSpace (compound p rest) = compound p rest"
    and ne: "compound p rest \<noteq> []" by (auto intro: TrimSpace_trimmed)
  have parts: "compoundParts p rest \<noteq> []" by (cases "(p, rest)" rule: compoundParts.cases) auto
  from trim ne parts splitLoop_compound [OF assms, of None 0 "[]"]
  show "splitCompoundCommandHeuristic (compound p rest) = compoundParts p rest"
    by (simp add: splitCompoundCommandHeuristic_def)
  with trim ne parts show "SplitCompoundCommand (compound p rest) = compoundParts p rest"
    by (simp add: SplitCompoundCommand_def)
qed

lemma compoundParts_plain: "plainCompound p rest \<Longrightarrow> q \<in> set (compoundParts p rest) \<Longrightarrow> plainCommand q"
  by (induction p rest rule: compound.induct) auto

section \<open>No redirection, no substitution\<close>

definition inertChar :: "char \<Rightarrow> bool" where
  "inertChar c \<longleftrightarrow> c \<notin> {squote, dquote, backtick, CHR ''('', CHR '')'', CHR ''>''}"

lemma redirectLoop_free: "list_all inertChar w \<Longrightarrow> \<not> redirectLoop scanStart prev w"
proof (induction w arbitrary: prev)
  case (Cons c w)
  then have "advance scanStart prev c w = scanStart" and "c \<noteq> CHR ''>''"
    by (auto intro!: advance_plain simp: inertChar_def)
  with Cons show ?case by simp
qed simp

lemma extractLoop_free:
  "list_all (\<lambda>c. c \<notin> {squote, dquote, backtick, CHR ''('', CHR '')''}) w \<Longrightarrow>
   extractLoop scanStart prev out w = out"
proof (induction w arbitrary: prev)
  case (Cons c w)
  then have "advance scanStart prev c w = scanStart" by (intro advance_plain) auto
  with Cons show ?case by simp
qed simp

lemma inert_text: "list_all segmentChar w \<Longrightarrow> list_all inertChar w"
  by (rule list.pred_mono_strong, assumption) (auto simp: inertChar_def segmentChar_def)

lemma inert_operators: "list_all (list_all inertChar) operators"
  by code_simp

lemma inert_operator: "op_text \<in> set operators \<Longrightarrow> list_all inertChar op_text"
  using inert_operators by (simp add: list_all_iff)

lemma plainCommand_free:
  assumes "plainCommand p"
  shows "\<not> HasOutputRedirection p" and "ExtractSubshellBodies p = []"
proof -
  from assms have c: "list_all inertChar p" by (blast intro: inert_text [OF plainCommand_segment])
  then show "\<not> HasOutputRedirection p"
    by (simp add: HasOutputRedirection_def redirectLoop_free)
  from c have "list_all (\<lambda>c. c \<notin> {squote, dquote, backtick, CHR ''('', CHR '')''}) p"
    by (rule list.pred_mono_strong) (simp add: inertChar_def)
  with assms show "ExtractSubshellBodies p = []"
    by (simp add: ExtractSubshellBodies_def TrimSpace_plain plainCommand_text extractLoop_free)
qed

lemma plainCompound_free: "plainCompound p rest \<Longrightarrow> \<not> HasOutputRedirection (compound p rest)"
proof -
  assume "plainCompound p rest"
  then have "list_all inertChar (compound p rest)"
  proof (induction p rest rule: compound.induct)
    case (1 p)
    then have "plainCommand p" by simp
    then show ?case using inert_text [OF plainCommand_segment] by simp
  next
    case (2 p m op_text n q rest)
    then have "list_all inertChar p" using inert_text [OF plainCommand_segment] by simp
    with 2 inert_text [OF list_all_blanks] show ?case by (simp add: inert_operator)
  qed
  then show ?thesis by (simp add: HasOutputRedirection_def redirectLoop_free)
qed

lemma compound_verdicts:
  assumes "plainCompound p rest"
  shows "IsDangerousCommand (compound p rest)
           = Some (\<exists>q \<in> set (compoundParts p rest). segmentDangerous q)"
    and "IsReadOnlyCommand uni (compound p rest)
           = Some (\<forall>q \<in> set (compoundParts p rest). IsReadOnlyCommandSingle uni q)"
proof -
  note parts = splitCompound_plain(2) [OF assms] compoundParts_plain [OF assms]
  show "IsDangerousCommand (compound p rest) = Some (\<exists>q \<in> set (compoundParts p rest). segmentDangerous q)"
    using parts unfolding IsDangerousCommand_def
    by (subst AnyDangerousCommand_rec) (simp add: plainCommand_free)
  have "compoundParts p rest \<noteq> []" by (cases "(p, rest)" rule: compoundParts.cases) auto
  with parts plainCompound_free [OF assms]
  show "IsReadOnlyCommand uni (compound p rest)
      = Some (\<forall>q \<in> set (compoundParts p rest). IsReadOnlyCommandSingle uni q)"
    by (subst IsReadOnlyCommand_rec) (simp add: plainCommand_free TrimSpace_plain plainCommand_text)
qed

section \<open>Unwrapping plain words\<close>

definition wrappers :: "string list" where
  "wrappers = [''sudo'', ''doas'', ''sh'', ''bash'', ''dash'', ''zsh'', ''ksh'', ''eval'', ''env'',
     ''xargs'', ''nice'', ''ionice'', ''time'', ''nohup'', ''command'']"

lemma unwrapOnce_words:
  assumes "list_all plainWord (w # ws)" and "w \<notin> set wrappers" and "\<not> isEnvAssignment uni w"
  shows "unwrapOnce uni (joinTokens (w # ws)) = joinTokens (w # ws)"
proof -
  have t: "dropWhile (isEnvAssignment uni) (ShellTokenize (joinTokens (w # ws))) = w # ws"
    using assms(1,3) ShellTokenize_words [of "w # ws"] by (simp add: joinTokens_def)
  from assms(2) have "w \<notin> {''sudo'', ''doas''}" "w \<notin> {''sh'', ''bash'', ''dash'', ''zsh'', ''ksh''}"
    "w \<noteq> ''eval''" "w \<noteq> ''env''" "w \<notin> {''xargs'', ''nice'', ''ionice'', ''time'', ''nohup'', ''command''}"
    unfolding wrappers_def by auto
  then show ?thesis unfolding unwrapOnce_def t list.case by (simp only: if_False simp_thms)
qed

lemma NormalizeCommand_words:
  assumes "list_all plainWord (w # ws)" and "w \<notin> set wrappers" and "\<not> isEnvAssignment uni w"
  shows "NormalizeCommand uni (joinTokens (w # ws)) = joinTokens (w # ws)"
proof -
  have "TrimSpace (joinTokens (w # ws)) = joinTokens (w # ws)"
    using plainText_Join [of "w # ws"] assms(1) by (simp add: joinTokens_def TrimSpace_plain)
  moreover have "normalizeLoop uni n (joinTokens (w # ws)) = joinTokens (w # ws)" for n
    by (cases n) (simp_all add: unwrapOnce_words [OF assms])
  ultimately show ?thesis by (simp add: NormalizeCommand_def)
qed

end
