(* ===== verification/Perm_Laws.thy ===== *)
theory Perm_Laws
  imports Perm_Engine Perm_Words
begin

text \<open>
  Laws of the permission engine: what the grouping of rules looks up, which stage decides a
  call, where an Allow can come from, and what approving a rule class changes.
\<close>

named_theorems eval_simps \<comment> \<open>decisions of the result builders\<close>

section \<open>Grouped rules\<close>

definition rulesFor :: "Rule list \<Rightarrow> Decision \<Rightarrow> string \<Rightarrow> Rule list" where
  "rulesFor rules d k = filter (\<lambda>r. r_Decision r = d \<and> r_ToolName r = k) rules"

lemma groupRule_keys: "(mget (groupRule r g) d = None) = (mget g d = None)"
  by (auto simp: groupRule_def update_conv' split: option.splits)

lemma groupRule_rules:
  assumes "mget g d \<noteq> None"
  shows "rulesAt (groupsAt (groupRule r g) d) k =
    rulesAt (groupsAt g d) k @ (if r_Decision r = d \<and> r_ToolName r = k then [r] else [])"
  using assms by (auto simp: groupRule_def groupsAt_def rulesAt_def update_conv' split: option.splits)

lemma fold_groupRule:
  "mget g d \<noteq> None \<Longrightarrow>
   rulesAt (groupsAt (fold groupRule rules g) d) k = rulesAt (groupsAt g d) k @ rulesFor rules d k"
proof (induction rules arbitrary: g)
  case (Cons r rules)
  from Cons.IH [of "groupRule r g"] Cons.prems show ?case
    by (simp del: not_None_eq add: groupRule_rules groupRule_keys rulesFor_def)
qed (simp add: rulesFor_def)

lemma groupRules_rules:
  assumes "d \<in> {DecisionDeny, DecisionAsk, DecisionAllow}"
  shows "rulesAt (groupsAt (groupRules rules) d) k = rulesFor rules d k"
  unfolding groupRules_def using assms
  by (subst fold_groupRule) (auto simp: groupsAt_def rulesAt_def)

text \<open>\<open>firstRule h rules d c\<close>: the rules with decision \<open>d\<close> for the tool of the
  call, then the ones for every tool, each in the order of their declaration.\<close>

definition firstRule :: "Host \<Rightarrow> Rule list \<Rightarrow> Decision \<Rightarrow> Call \<Rightarrow> Rule option" where
  "firstRule h rules d c =
     find (\<lambda>r. ruleMatches h r c) (rulesFor rules d (call_Name c) @ rulesFor rules d [])"

lemma find_append: "find P (xs @ ys) = (case find P xs of None \<Rightarrow> find P ys | Some x \<Rightarrow> Some x)"
  by (induction xs) auto

lemma matchRules_first:
  "d \<in> {DecisionDeny, DecisionAsk, DecisionAllow} \<Longrightarrow>
   matchRules h (groupsAt (groupRules rules) d) c = firstRule h rules d c"
  by (simp add: matchRules_def firstRule_def groupRules_rules find_append split: option.split)

lemma firstRule_None:
  "firstRule h rules d c = None \<longleftrightarrow>
   (\<forall>r \<in> set rules. r_Decision r = d \<and> r_ToolName r \<in> {call_Name c, []} \<longrightarrow> \<not> ruleMatches h r c)"
  by (auto simp: firstRule_def find_None_iff rulesFor_def)

lemma find_matches: "find P xs = Some x \<Longrightarrow> x \<in> set xs \<and> P x"
  by (induction xs) (auto split: if_splits)

lemma firstRule_SomeD:
  "firstRule h rules d c = Some r \<Longrightarrow>
   r \<in> set rules \<and> r_Decision r = d \<and> r_ToolName r \<in> {call_Name c, []} \<and> ruleMatches h r c"
  unfolding firstRule_def by (drule find_matches) (auto simp: rulesFor_def)

section \<open>Stages\<close>

lemma result_builders [eval_simps, simp]:
  "res_Decision (ruleResult tc d before after reason sug r) = d"
  "res_Rule (ruleResult tc d before after reason sug r) = Some r"
  "res_ToolCallID (ruleResult tc d before after reason sug r) = tc_ID tc"
  "res_ToolName (ruleResult tc d before after reason sug r) = tc_Name tc"
  "res_SuggestedRules (ruleResult tc d before after reason sug r) = sug"
  "res_Decision (modeResult tc d before after why sug) = d"
  "res_Rule (modeResult tc d before after why sug) = None"
  "res_ToolCallID (modeResult tc d before after why sug) = tc_ID tc"
  "res_ToolName (modeResult tc d before after why sug) = tc_Name tc"
  "res_SuggestedRules (modeResult tc d before after why sug) = sug"
  by (simp_all add: ruleResult_def modeResult_def)

lemma callOf_sel [simp]:
  "call_Name (callOf e tc) = tc_Name tc" "call_Input (callOf e tc) = tc_Input tc"
  "call_Tool (callOf e tc) = resolveTool e (tc_Name tc)"
  by (simp_all add: callOf_def)

definition autoApproved :: "Engine \<Rightarrow> ToolUseBlock \<Rightarrow> bool" where
  "autoApproved e tc \<longleftrightarrow> Option.bind (resolveTool e (tc_Name tc)) hook_IsAutoApproved = Some True"

abbreviation verdict :: "Host \<Rightarrow> Engine \<Rightarrow> ToolUseBlock \<Rightarrow> PermResult" where
  "verdict h e tc \<equiv> evaluateOne h e (groupRules (eng_rules e)) tc"

text \<open>The order of the stages, over the rules themselves.\<close>

lemma verdict_stages:
  "verdict h e tc =
     (let c = callOf e tc in
      case firstRule h (eng_rules e) DecisionDeny c of
        Some r \<Rightarrow> ruleResult tc DecisionDeny ''Permission denied for '' [] ''matched deny rule '' [] r
      | None \<Rightarrow>
      if autoApproved e tc then
        modeResult tc DecisionAllow ''Permission granted for '' '' (auto-approved tool)''
          ''tool declares itself auto-approved'' []
      else case matchApprovals h e c of
        Some r \<Rightarrow> ruleResult tc DecisionAllow ''Permission granted for ''
                    '' (session-approved rule class)'' ''session-approved rule '' [] r
      | None \<Rightarrow>
      case firstRule h (eng_rules e) DecisionAsk c of
        Some r \<Rightarrow> ruleResult tc DecisionAsk ''Permission required for '' [] ''matched ask rule ''
                    (generateSuggestions tc c) r
      | None \<Rightarrow>
      case toolDecision e tc c of
        Some result \<Rightarrow> result
      | None \<Rightarrow>
      case checkSafety h (eng_ctx e) (tc_Name tc) (call_FilePath c) (call_Command c) (callReadOnly e tc) of
        Some safety \<Rightarrow> safety\<lparr>res_ToolCallID := tc_ID tc\<rparr>
      | None \<Rightarrow>
      case firstRule h (eng_rules e) DecisionAllow c of
        Some r \<Rightarrow> ruleResult tc DecisionAllow ''Permission granted for '' [] ''matched allow rule '' [] r
      | None \<Rightarrow> defaultResult (ctx_Mode (eng_ctx e)) tc c)"
  by (simp add: evaluateOne_def matchRules_first autoApproved_def Let_def cong: option.case_cong if_cong)

lemma verdict_denied:
  "firstRule h (eng_rules e) DecisionDeny (callOf e tc) = Some r \<Longrightarrow>
   res_Decision (verdict h e tc) = DecisionDeny \<and> res_Rule (verdict h e tc) = Some r"
  by (simp add: verdict_stages Let_def)

text \<open>A call no deny rule stops and no one has consented to: neither the tool itself nor an
  approval of the session, and no hook of the tool decides.\<close>

definition noConsent :: "Host \<Rightarrow> Engine \<Rightarrow> ToolUseBlock \<Rightarrow> bool" where
  "noConsent h e tc \<longleftrightarrow> \<not> autoApproved e tc \<and> matchApprovals h e (callOf e tc) = None \<and>
     toolDecision e tc (callOf e tc) = None"

lemma verdict_unconsented:
  assumes "noConsent h e tc" and "res_Decision (verdict h e tc) = DecisionAllow"
  shows "firstRule h (eng_rules e) DecisionDeny (callOf e tc) = None"
    and "firstRule h (eng_rules e) DecisionAsk (callOf e tc) = None"
    and "(case checkSafety h (eng_ctx e) (tc_Name tc) (call_FilePath (callOf e tc))
            (call_Command (callOf e tc)) (callReadOnly e tc) of
          Some s \<Rightarrow> res_Decision s = DecisionAllow
        | None \<Rightarrow> firstRule h (eng_rules e) DecisionAllow (callOf e tc) \<noteq> None \<or>
            res_Decision (defaultResult (ctx_Mode (eng_ctx e)) tc (callOf e tc)) = DecisionAllow)"
  using assms by (auto simp: verdict_stages noConsent_def Let_def split: option.splits)

lemma Evaluate_nth:
  "i < length calls \<Longrightarrow> Evaluate h e calls ! i =
     (if ctx_Unattended (eng_ctx e) then failClosed (verdict h e (calls ! i)) else verdict h e (calls ! i))"
  by (auto simp: Evaluate_def Let_def)

lemma Evaluate_length [simp]: "length (Evaluate h e calls) = length calls"
  by (simp add: Evaluate_def Let_def)

lemma failClosed_Deny: "res_Decision r = DecisionDeny \<Longrightarrow> failClosed r = r"
  by (simp add: failClosed_def)

lemma failClosed_Allow [simp]:
  "res_Decision (failClosed r) = DecisionAllow \<longleftrightarrow> res_Decision r = DecisionAllow"
  "res_Decision (failClosed r) \<noteq> DecisionAsk"
  by (auto simp: failClosed_def)

lemma Evaluate_Allow:
  "i < length calls \<Longrightarrow>
   res_Decision (Evaluate h e calls ! i) = DecisionAllow \<longleftrightarrow>
   res_Decision (verdict h e (calls ! i)) = DecisionAllow"
  by (simp add: Evaluate_nth)

section \<open>Approvals\<close>

lemma approve_sel [simp]:
  "eng_rules (ApproveRuleClass r e) = eng_rules e" "eng_ctx (ApproveRuleClass r e) = eng_ctx e"
  "eng_readOnlyTools (ApproveRuleClass r e) = eng_readOnlyTools e"
  "eng_toolResolver (ApproveRuleClass r e) = eng_toolResolver e"
  "eng_approvals (ApproveRuleClass r e) = eng_approvals e @ [r\<lparr>r_Decision := DecisionAllow\<rparr>]"
  by (simp_all add: ApproveRuleClass_def)

lemma approve_call [simp]:
  "callOf (ApproveRuleClass r e) tc = callOf e tc"
  "callReadOnly (ApproveRuleClass r e) tc = callReadOnly e tc"
  "toolDecision (ApproveRuleClass r e) tc c = toolDecision e tc c"
  "autoApproved (ApproveRuleClass r e) tc = autoApproved e tc"
  by (simp_all add: callOf_def resolveTool_def callReadOnly_def toolDecision_def autoApproved_def
      cong: option.case_cong)

lemma ruleMatches_decision [simp]: "ruleMatches h (r\<lparr>r_Decision := d\<rparr>) c = ruleMatches h r c"
  by (simp add: ruleMatches_def split: option.splits)

lemma matchApprovals_approve:
  "matchApprovals h (ApproveRuleClass r e) c =
     (case matchApprovals h e c of Some q \<Rightarrow> Some q
      | None \<Rightarrow> if ruleMatches h r c then Some (r\<lparr>r_Decision := DecisionAllow\<rparr>) else None)"
  by (simp add: matchApprovals_def find_append split: option.split)

lemma approve_other:
  "\<not> ruleMatches h r (callOf e tc) \<Longrightarrow> verdict h (ApproveRuleClass r e) tc = verdict h e tc"
  unfolding verdict_stages Let_def
  by (simp add: matchApprovals_approve cong: option.case_cong if_cong split: option.split)

lemma approve_same:
  assumes "ruleMatches h r (callOf e tc)"
    and "firstRule h (eng_rules e) DecisionDeny (callOf e tc) = None"
  shows "res_Decision (verdict h (ApproveRuleClass r e) tc) = DecisionAllow"
  using assms unfolding verdict_stages Let_def
  by (simp add: matchApprovals_approve split: option.split)

lemma approve_deny:
  "firstRule h (eng_rules e) DecisionDeny (callOf e tc) = Some q \<Longrightarrow>
   verdict h (ApproveRuleClass r e) tc = verdict h e tc"
  unfolding verdict_stages Let_def by simp

section \<open>Safety\<close>

lemma IsDangerousCommand_returns: "IsDangerousCommand cmd \<noteq> Some True \<Longrightarrow> IsDangerousCommand cmd = Some False"
  unfolding IsDangerousCommand_def by (subst (asm) AnyDangerousCommand_rec, subst AnyDangerousCommand_rec) simp

lemma checkSafety_explore:
  "ctx_Mode ctx = ModeExplore \<Longrightarrow> \<not> ro \<Longrightarrow>
   \<exists>s. checkSafety h ctx name path cmd ro = Some s \<and> res_Decision s = DecisionDeny"
  by (simp add: checkSafety_def)

lemma checkSafety_dangerous:
  assumes "isBashTool name" and "cmd \<noteq> []"
    and "IsDangerousCommand (NormalizeCommand (unicodeWord h) cmd) = Some True"
  shows "\<exists>s. checkSafety h ctx name path cmd ro = Some s \<and> res_Decision s \<in> {DecisionDeny, DecisionAsk}"
  using assms by (simp add: checkSafety_def bashSafety_def)

lemma checkSafety_sensitive:
  assumes "isWriteFileTool name" and "path \<noteq> []"
    and "IsDangerousPath path (ctx_DangerousFiles ctx) (ctx_DangerousDirs ctx)"
  shows "\<exists>s. checkSafety h ctx name path cmd ro = Some s \<and> res_Decision s \<in> {DecisionDeny, DecisionAsk}"
proof -
  from assms(1) have "\<not> isBashTool name" by (auto simp: isWriteFileTool_def isBashTool_def)
  with assms show ?thesis by (simp add: checkSafety_def)
qed

lemma bashSafety_allow:
  "bashSafety h name cmd = Some s \<Longrightarrow> res_Decision s = DecisionAllow \<Longrightarrow>
   IsReadOnlyCommand (unicodeWord h) (NormalizeCommand (unicodeWord h) cmd) = Some True"
  unfolding bashSafety_def Let_def by (auto split: if_split_asm)

lemma checkSafety_allow:
  assumes "checkSafety h ctx name path cmd ro = Some s" and "res_Decision s = DecisionAllow"
    and "ctx_Mode ctx \<noteq> ModeAcceptEdits"
  shows "isBashTool name \<and> IsReadOnlyCommand (unicodeWord h) (NormalizeCommand (unicodeWord h) cmd) = Some True"
proof (cases "if isBashTool name \<and> cmd \<noteq> [] then bashSafety h name cmd else None")
  case None
  with assms have False by (auto simp add: checkSafety_def split: if_split_asm)
  then show ?thesis ..
next
  case (Some r)
  then have r: "isBashTool name" "bashSafety h name cmd = Some r" by (simp_all split: if_split_asm)
  from Some assms have "r = s" by (auto simp add: checkSafety_def split: if_split_asm)
  note r [unfolded this]
  with bashSafety_allow assms(2) show ?thesis by blast
qed

lemma defaultResult_modes:
  "mode \<in> {ModeDefault, ModeDontAsk} \<Longrightarrow> res_Decision (defaultResult mode tc c) \<noteq> DecisionAllow"
  by (auto simp: defaultResult_def)

end
