(* ===== verification/Perm_Gate.thy ===== *)
theory Perm_Gate
  imports Perm_Laws
begin

text \<open>
  The permission gate in front of tool execution: the first part of
  \<^verbatim>\<open>executeToolsStream\<close> in \<^verbatim>\<open>agent/react/reply_stream.go\<close>
  with its helpers, and the rules a gateway session starts with
  (\<^verbatim>\<open>gateway/agent_session.go\<close>).

  The gate asks the engine, stops at a denied call, and waits for the user when a call needs
  confirmation.  The event that ends the wait is the argument \<open>answer\<close>.
\<close>

section \<open>Confirmations\<close>

record ConfirmDecision =
  cd_ToolCallID :: string
  cd_Decision :: string
  cd_Scope :: string
  cd_ModifiedArgs :: Input

record ToolCallSummary =
  sum_ID :: string
  sum_Name :: string
  sum_Input :: Input

definition findToolInput :: "ToolUseBlock list \<Rightarrow> string \<Rightarrow> Input" where
  "findToolInput calls i =
     (case find (\<lambda>c. tc_ID c = i) calls of None \<Rightarrow> [] | Some c \<Rightarrow> tc_Input c)"

definition approvalRuleForEval :: "PermResult option \<Rightarrow> Rule option" where
  "approvalRuleForEval ev =
     (case ev of None \<Rightarrow> None
      | Some ev \<Rightarrow>
          (case res_Rule ev of Some r \<Rightarrow> Some r
           | None \<Rightarrow>
               if res_SuggestedRules ev \<noteq> [] then Some (hd (res_SuggestedRules ev))
               else if res_ToolName ev \<noteq> [] then
                 Some \<lparr>r_Name = ''tool:'' @ res_ToolName ev, r_ToolName = res_ToolName ev,
                       r_Target = ''tool_name'', r_Pattern = res_ToolName ev, r_Decision = OtherDecision []\<rparr>
               else None))"

text \<open>What one decision makes of its call: None drops the call.\<close>

definition applyDecision :: "ToolUseBlock \<Rightarrow> ConfirmDecision \<Rightarrow> ToolUseBlock option" where
  "applyDecision c d =
     (if cd_Decision d \<in> {''allow'', ''always_allow'', ''approve''} then Some c
      else if cd_Decision d = ''modify'' then
        Some (if cd_ModifiedArgs d \<noteq> [] then c\<lparr>tc_Input := cd_ModifiedArgs d\<rparr> else c)
      else None)"

definition decisionMap :: "ConfirmDecision list \<Rightarrow> (string, ConfirmDecision) gomap" where
  "decisionMap decisions = fold (\<lambda>d m. mput (cd_ToolCallID d) d m) decisions []"

definition applyConfirmDecisions :: "ToolUseBlock list \<Rightarrow> ConfirmDecision list \<Rightarrow> ToolUseBlock list" where
  "applyConfirmDecisions calls decisions =
     List.map_filter (\<lambda>c. Option.bind (mget (decisionMap decisions) (tc_ID c)) (applyDecision c)) calls"

text \<open>The scope of a decision that was left open.\<close>

definition decisionScope :: "ConfirmDecision \<Rightarrow> string" where
  "decisionScope d =
     (if cd_Scope d = [] then (if cd_Decision d = ''always_allow'' then ''always'' else ''once'')
      else cd_Scope d)"

definition evalsByID :: "PermResult list \<Rightarrow> (string, PermResult) gomap" where
  "evalsByID evals = fold (\<lambda>r m. mput (res_ToolCallID r) r m) evals []"

definition registerApproval :: "PermResult list \<Rightarrow> ConfirmDecision \<Rightarrow> Engine \<Rightarrow> Engine" where
  "registerApproval evals d e =
     (if cd_Decision d \<notin> {''allow'', ''always_allow''} then e
      else if decisionScope d = ''once'' then e
      else case mget (evalsByID evals) (cd_ToolCallID d) of None \<Rightarrow> e
        | Some ev \<Rightarrow>
            (case approvalRuleForEval (Some ev) of None \<Rightarrow> e
             | Some base \<Rightarrow>
                 ApproveRuleClass (base\<lparr>r_Decision := DecisionAllow,
                                        r_Name := ''session-approved:'' @ r_Name base\<rparr>) e))"

section \<open>The gate\<close>

datatype Answer = ConfirmResult "ConfirmDecision list" | OtherEvent | WaitCancelled

datatype GateResult =
    GateDenied string sprintf \<comment> \<open>permission denied for a tool: its message\<close>
  | GateWaitFailed \<comment> \<open>the wait for the confirmation was cancelled\<close>
  | GateWrongEvent \<comment> \<open>the event was no confirmation\<close>
  | GateAllRefused \<comment> \<open>the user let no call through\<close>
  | GateProceed "ToolUseBlock list"

definition permissionGate ::
    "Host \<Rightarrow> Engine option \<Rightarrow> ToolUseBlock list \<Rightarrow> Answer \<Rightarrow> GateResult \<times> ToolCallSummary list \<times> Engine option" where
  "permissionGate h eng toolCalls answer =
     (case eng of None \<Rightarrow> (GateProceed toolCalls, [], None)
      | Some e \<Rightarrow>
          let evals = Evaluate h e toolCalls in
          (case find (\<lambda>ev. res_Decision ev = DecisionDeny) evals of
             Some ev \<Rightarrow> (GateDenied (res_ToolName ev) (res_Message ev), [], Some e)
           | None \<Rightarrow>
               let asking = map (\<lambda>ev. \<lparr>sum_ID = res_ToolCallID ev, sum_Name = res_ToolName ev,
                                  sum_Input = findToolInput toolCalls (res_ToolCallID ev)\<rparr>)
                              (filter (\<lambda>ev. res_Decision ev = DecisionAsk) evals) in
               if asking = [] then (GateProceed toolCalls, [], Some e)
               else (case answer of
                   WaitCancelled \<Rightarrow> (GateWaitFailed, asking, Some e)
                 | OtherEvent \<Rightarrow> (GateWrongEvent, asking, Some e)
                 | ConfirmResult decisions \<Rightarrow>
                     let toolCalls = applyConfirmDecisions toolCalls decisions in
                     if toolCalls = [] then (GateAllRefused, asking, Some e)
                     else (GateProceed toolCalls, asking, Some (fold (registerApproval evals) decisions e)))))"

section \<open>Gateway sessions\<close>

definition workspaceRule :: "Decision \<Rightarrow> string \<Rightarrow> Rule" where
  "workspaceRule d name =
     \<lparr>r_Name = [], r_ToolName = [], r_Target = ''tool_name'', r_Pattern = name, r_Decision = d\<rparr>"

definition defaultWorkspacePermRules :: "Rule list" where
  "defaultWorkspacePermRules =
     map (workspaceRule DecisionAllow)
       [''read_file'', ''list_directory'', ''TaskGet'', ''TaskList'', ''ScheduleList'',
        ''ScheduleView'', ''Skill''] @
     map (workspaceRule DecisionAsk)
       [''write_file'', ''shell_command'', ''TaskCreate'', ''TaskUpdate'', ''ScheduleCreate'',
        ''ScheduleStop'', ''TaskStop'']"

definition teamToolNames :: "string list" where
  "teamToolNames = [''TeamCreate'', ''AgentCreate'', ''TeamSay'', ''TeamDelete'']"

definition teamPermissionRules :: "Rule list" where
  "teamPermissionRules = map (workspaceRule DecisionAllow) teamToolNames"

section \<open>What the gate lets through\<close>

lemma checkSafety_three:
  "checkSafety h ctx name path cmd ro = Some s \<Longrightarrow>
   res_Decision s \<in> {DecisionAllow, DecisionDeny, DecisionAsk} \<and> res_ToolName s = name"
  by (auto simp: checkSafety_def bashSafety_def Let_def split: if_splits option.splits)

lemma toolDecision_three:
  "toolDecision e tc c = Some s \<Longrightarrow>
   res_Decision s \<in> {DecisionAllow, DecisionDeny, DecisionAsk} \<and> res_ToolName s = tc_Name tc \<and>
   res_ToolCallID s = tc_ID tc"
  by (auto simp: toolDecision_def Let_def fromToolDecision_def
      split: option.splits prod.splits if_splits PermissionDecision.splits)

lemma verdict_three:
  "res_Decision (verdict h e tc) \<in> {DecisionAllow, DecisionDeny, DecisionAsk} \<and>
   res_ToolCallID (verdict h e tc) = tc_ID tc \<and> res_ToolName (verdict h e tc) = tc_Name tc"
proof -
  have d: "res_Decision (defaultResult mode tc c) \<in> {DecisionAllow, DecisionDeny, DecisionAsk} \<and>
      res_ToolCallID (defaultResult mode tc c) = tc_ID tc \<and> res_ToolName (defaultResult mode tc c) = tc_Name tc"
    for mode c by (simp add: defaultResult_def)
  show ?thesis
    unfolding verdict_stages Let_def
    using d [of "ctx_Mode (eng_ctx e)" "callOf e tc"]
    by (auto split: option.split dest!: checkSafety_three toolDecision_three)
qed

lemma failClosed_sel [simp]:
  "res_ToolCallID (failClosed r) = res_ToolCallID r" "res_ToolName (failClosed r) = res_ToolName r"
  by (simp_all add: failClosed_def)

lemma Evaluate_three:
  assumes "i < length calls"
  shows "res_Decision (Evaluate h e calls ! i) \<in> {DecisionAllow, DecisionDeny, DecisionAsk} \<and>
    res_ToolCallID (Evaluate h e calls ! i) = tc_ID (calls ! i) \<and>
    res_ToolName (Evaluate h e calls ! i) = tc_Name (calls ! i)"
  using assms verdict_three [of h e "calls ! i"] by (auto simp: Evaluate_nth failClosed_def)

lemma Evaluate_set:
  "ev \<in> set (Evaluate h e calls) \<longleftrightarrow> (\<exists>i < length calls. ev = Evaluate h e calls ! i)"
  by (auto simp: in_set_conv_nth)

lemma decisionMap_last:
  "mget (fold (\<lambda>d m. mput (cd_ToolCallID d) d m) ds m) i =
     (case find (\<lambda>d. cd_ToolCallID d = i) (rev ds) of Some d \<Rightarrow> Some d | None \<Rightarrow> mget m i)"
proof (induction ds arbitrary: m)
  case (Cons d ds)
  show ?case using Cons [of "mput (cd_ToolCallID d) d m"]
    by (simp add: find_append update_conv' split: option.split)
qed simp

lemma decisionMap_mget:
  "mget (decisionMap ds) i = find (\<lambda>d. cd_ToolCallID d = i) (rev ds)"
  by (simp add: decisionMap_def decisionMap_last split: option.split)

lemma applyConfirmDecisions_mem:
  "c' \<in> set (applyConfirmDecisions calls ds) \<longleftrightarrow>
   (\<exists>c \<in> set calls. \<exists>d. find (\<lambda>d. cd_ToolCallID d = tc_ID c) (rev ds) = Some d \<and> applyDecision c d = Some c')"
proof -
  have "c' \<in> set (List.map_filter f xs) \<longleftrightarrow> (\<exists>x \<in> set xs. f x = Some c')" for f and xs :: "ToolUseBlock list"
    by (induction xs) (auto simp: map_filter_simps split: option.split)
  then show ?thesis
    by (simp add: applyConfirmDecisions_def decisionMap_mget bind_eq_Some_conv)
qed

lemma applyDecision_id: "applyDecision c d = Some c' \<Longrightarrow> tc_ID c' = tc_ID c \<and> tc_Name c' = tc_Name c"
  by (auto simp: applyDecision_def split: if_splits)

lemma permissionGate_proceed:
  assumes "permissionGate h (Some e) calls answer = (GateProceed calls', asked, e')"
  shows "(\<forall>ev \<in> set (Evaluate h e calls). res_Decision ev \<noteq> DecisionDeny) \<and>
    (if (\<exists>ev \<in> set (Evaluate h e calls). res_Decision ev = DecisionAsk)
     then (\<exists>ds. answer = ConfirmResult ds \<and> calls' = applyConfirmDecisions calls ds \<and>
             e' = Some (fold (registerApproval (Evaluate h e calls)) ds e))
     else calls' = calls \<and> e' = Some e)"
  using assms
  by (auto simp: permissionGate_def Let_def find_None_iff filter_empty_conv
      split: option.splits if_splits Answer.splits)

section \<open>Approving what was suggested\<close>

lemma verdict_suggestions:
  assumes "res_SuggestedRules (verdict h e tc) \<noteq> []"
  shows "res_SuggestedRules (verdict h e tc) = generateSuggestions tc (callOf e tc)"
proof -
  have tool: "res_SuggestedRules s = [] \<or> res_SuggestedRules s = generateSuggestions tc c"
    if "toolDecision e tc c = Some s" for s c
    using that by (auto simp: toolDecision_def Let_def split: option.splits prod.splits if_splits)
  have safety: "res_SuggestedRules s = []" if "checkSafety h ctx name path cmd ro = Some s" for ctx name path cmd ro s
    using that by (auto simp: checkSafety_def bashSafety_def Let_def split: if_splits option.splits)
  have mode: "res_SuggestedRules (defaultResult m tc c) \<in> {[], generateSuggestions tc c}" for m c
    by (simp add: defaultResult_def)
  have "res_SuggestedRules (verdict h e tc) \<in> {[], generateSuggestions tc (callOf e tc)}"
    unfolding verdict_stages Let_def using mode [of "ctx_Mode (eng_ctx e)" "callOf e tc"]
    by (auto split: option.split dest!: tool safety)
  with assms show ?thesis by simp
qed

text \<open>The prefix the shell tool suggests for a plain command covers that command.\<close>

lemma plainCommand_segments:
  assumes "plainCommand cmd"
  shows "splitCompoundCommand cmd = [cmd]" and "bslash \<notin> set cmd"
proof -
  have t: "TrimSpace cmd = cmd" using assms by (simp add: TrimSpace_plain plainCommand_text)
  have seg: "list_all segmentChar cmd" by (rule plainCommand_segment [OF assms])
  show b: "bslash \<notin> set cmd"
  proof
    assume "bslash \<in> set cmd"
    with seg have "segmentChar bslash" by (simp add: list_all_iff)
    then show False by (simp add: segmentChar_def)
  qed
  have ne: "cmd \<noteq> []" using assms by (auto simp: plainCommand_def plainText_def)
  with seg have "segmentChar (last cmd)" using last_in_set by (simp only: list_all_iff Ball_def) blast
  then have l: "last cmd \<notin> {CHR '';'', CHR ''|''}" by (auto simp: segmentChar_def)
  have "toolSplitLoop scanStart None [] [] cmd = splitLoop scanStart None [] [] cmd"
    using b l by (intro splitLoops_agree) simp_all
  also have "\<dots> = [cmd]"
    using splitLoop_compound [of cmd "[]" None 0 "[]"] assms by simp
  finally show "splitCompoundCommand cmd = [cmd]" using t ne by (simp add: splitCompoundCommand_def)
qed

lemma plain_prefix:
  assumes "list_all plainWord (w # ws)" and "\<not> isEnvAssignment (unicodeWord h) w"
  defines "p \<equiv> extractCommandPrefix h (joinTokens (w # ws))"
  shows "p \<noteq> []" and "TrimSpace p = p"
    and "HasPrefix (joinTokens (w # ws)) (p @ '' '') \<or> joinTokens (w # ws) = p"
proof -
  have t: "TrimSpace (joinTokens (w # ws)) = joinTokens (w # ws)"
    using plainText_Join [of "w # ws"] assms(1) by (simp add: joinTokens_def TrimSpace_plain)
  have b: "bslash \<notin> set (joinTokens (w # ws))"
  proof
    assume "bslash \<in> set (joinTokens (w # ws))"
    moreover have "plainText (joinTokens (w # ws))"
      unfolding joinTokens_def using assms(1) by (intro plainText_Join) simp_all
    ultimately have "plainChar bslash \<or> bslash = blank" unfolding plainText_def list_all_iff by blast
    then show False by simp
  qed
  then have "shellTokenize (joinTokens (w # ws)) = ShellTokenize (joinTokens (w # ws))"
    by (simp add: shellTokenize_def ShellTokenize_def tokenLoops_agree t Let_def)
  also have "\<dots> = w # ws" using ShellTokenize_words [OF assms(1)] by (simp add: joinTokens_def)
  finally have p: "p = (case ws of [] \<Rightarrow> w | t1 # _ \<Rightarrow> if HasPrefix t1 ''-'' then w else w @ '' '' @ t1)"
    using assms(2) by (simp add: p_def extractCommandPrefix_def t split: list.split)
  have w: "plainText w" using assms(1) by (simp add: plainWord_text)
  have p_cases: "p = Join [w] '' '' \<or> (\<exists>t1 rest. ws = t1 # rest \<and> p = Join [w, t1] '' '')"
    by (simp add: p split: list.split)
  have "plainText p"
    using p_cases assms(1) plainText_Join [of "[w, hd ws]"] w by auto
  then show "p \<noteq> []" "TrimSpace p = p" by (simp_all add: TrimSpace_plain plainText_def)
  show "HasPrefix (joinTokens (w # ws)) (p @ '' '') \<or> joinTokens (w # ws) = p"
  proof (cases ws)
    case Nil
    then show ?thesis by (simp add: p joinTokens_def)
  next
    case (Cons t1 rest)
    then show ?thesis
      by (cases rest) (auto simp: p joinTokens_def HasPrefix_iff)
  qed
qed

lemma shell_suggestion_covers:
  assumes "list_all plainWord (w # ws)" and "plainCommand (joinTokens (w # ws))"
    and "\<not> isEnvAssignment (unicodeWord h) w"
    and "inputString input ''command'' = joinTokens (w # ws)"
  shows "\<exists>r. Shell_GenerateSuggestions h name input = [r] \<and> sr_Pattern r \<noteq> [] \<and>
    Shell_MatchRule h (sr_Pattern r) input"
proof -
  note p = plain_prefix [OF assms(1,3)]
  have t: "TrimSpace (joinTokens (w # ws)) = joinTokens (w # ws)" "joinTokens (w # ws) \<noteq> []"
    using assms(2) by (auto simp: plainCommand_def TrimSpace_plain plainText_def)
  have m: "MatchBashCommand h (extractCommandPrefix h (joinTokens (w # ws)) @ '':*'') (joinTokens (w # ws))"
    using p by (simp add: MatchBashCommand_def HasSuffix_def t Let_def)
  show ?thesis
    using p(1) m
    by (simp add: Shell_GenerateSuggestions_def Shell_MatchRule_def MatchBashCommandOrRegex_def
        assms(4) t plainCommand_segments(1) [OF assms(2)] Let_def)
qed

end
