(* ===== verification/Bus_Core.thy ===== *)
theory Bus_Core
  imports Prelude "HOL-Library.Sublist" "HOL-Library.Word"
begin

text \<open>
  The in-process message bus (messagebus/bus.go, team_bus.go): its state, publish and subscribe,
  inboxes and wakeups.  Every method holds the bus mutex for its whole body, so it is one
  function on the state; the context of a call enters as the Boolean \<open>done\<close> (\<open>ctx.Err() != nil\<close>).
  Go channels live in a store indexed by references, because the bus, the subscriber and the
  cancel closure share them.  A panic (send on or close of a closed channel) is \<open>None\<close>.
\<close>

section \<open>Errors and channels\<close>

datatype bus_error = ErrCtx | ErrClosed | ErrNotFound | ErrLogCursorStale | ErrLeaseHeld_bus | ErrLeaseLost

record 'a chan =
  ch_buf :: "'a list"
  ch_closed :: bool

definition defaultSubscriberBuffer :: nat where
  "defaultSubscriberBuffer = 64"

definition makeChan :: "'a chan" where
  "makeChan = \<lparr>ch_buf = [], ch_closed = False\<rparr>"

text \<open>\<^verbatim>\<open>select { case ch <- m: default: }\<close>\<close>

definition offer :: "'a \<Rightarrow> 'a chan \<Rightarrow> 'a chan option" where
  "offer m c =
     (if ch_closed c then None
      else if length (ch_buf c) < defaultSubscriberBuffer then Some (c\<lparr>ch_buf := ch_buf c @ [m]\<rparr>)
      else Some c)"

definition closeChan :: "'a chan \<Rightarrow> 'a chan option" where
  "closeChan c = (if ch_closed c then None else Some (c\<lparr>ch_closed := True\<rparr>))"

text \<open>\<^verbatim>\<open>m, ok := <-ch\<close>: \<open>None\<close> blocks, \<open>Some (None, _)\<close> is \<open>ok = false\<close>.\<close>

definition recvChan :: "'a chan \<Rightarrow> ('a option \<times> 'a chan) option" where
  "recvChan c =
     (case ch_buf c of
        m # ms \<Rightarrow> Some (Some m, c\<lparr>ch_buf := ms\<rparr>)
      | [] \<Rightarrow> if ch_closed c then Some (None, c) else None)"

section \<open>State\<close>

record Message =
  msg_Channel :: string
  msg_Payload :: string

record TeamMessage =
  tm_From :: string
  tm_Content :: string
  tm_SentAt :: instant

record WakeupEvent =
  we_SessionID :: string

record Lease_bus =
  ls_Key :: string
  ls_Owner :: string
  ls_Token :: "64 word"
  ls_Expires :: instant

record localLease =
  ll_lease :: Lease_bus
  ll_expires :: instant
  ll_timer :: bool \<comment> \<open>a reaper timer was made\<close>

record localQueue =
  lq_items :: "string list"
  lq_notify :: bool \<comment> \<open>the capacity-1 channel holds a token\<close>

record localLock =
  lk_held :: bool \<comment> \<open>the capacity-1 channel holds the token\<close>

record localCounterWindow =
  cw_val :: "64 word"
  cw_expiresAt :: instant

record LocalBus =
  b_subs :: "(string, int, nat) gomap2"
  b_nextID :: int
  b_closed :: bool
  b_inbox :: "(string, TeamMessage list) gomap"
  b_wakeSubs :: "(int, nat) gomap"
  b_wakeNext :: int
  b_locks :: "(string, localLock) gomap"
  b_registry :: "(string, string, string) gomap2"
  b_queues :: "(string, localQueue) gomap"
  b_logs :: "(string, string list) gomap"
  b_leases :: "(string, localLease) gomap"
  b_fences :: "(string, 64 word) gomap"
  b_counters :: "(string, localCounterWindow) gomap"
  b_msgChans :: "Message chan list" \<comment> \<open>every channel made by Subscribe\<close>
  b_wakeChans :: "WakeupEvent chan list" \<comment> \<open>every channel made by SubscribeWakeup\<close>

definition NewLocalBus :: LocalBus where
  "NewLocalBus = \<lparr>b_subs = [], b_nextID = 0, b_closed = False, b_inbox = [], b_wakeSubs = [],
     b_wakeNext = 0, b_locks = [], b_registry = [], b_queues = [], b_logs = [], b_leases = [],
     b_fences = [], b_counters = [], b_msgChans = [], b_wakeChans = []\<rparr>"

section \<open>Publish and subscribe (bus.go)\<close>

text \<open>The loop over the subscribers of a topic.\<close>

fun offerAll :: "'a \<Rightarrow> (int \<times> nat) list \<Rightarrow> 'a chan list \<Rightarrow> 'a chan list option" where
  "offerAll m [] cs = Some cs"
| "offerAll m ((_, r) # subs) cs =
     (case offer m (cs ! r) of None \<Rightarrow> None | Some c \<Rightarrow> offerAll m subs (cs[r := c]))"

definition Publish :: "bool \<Rightarrow> string \<Rightarrow> string \<Rightarrow> LocalBus \<Rightarrow> (bus_error option \<times> LocalBus) option" where
  "Publish done channel payload b =
     (if done then Some (Some ErrCtx, b)
      else if b_closed b then Some (Some ErrClosed, b)
      else case offerAll \<lparr>msg_Channel = channel, msg_Payload = payload\<rparr> (inner (b_subs b) channel) (b_msgChans b) of
             None \<Rightarrow> None
           | Some cs \<Rightarrow> Some (None, b\<lparr>b_msgChans := cs\<rparr>))"

text \<open>What the cancel closure of a subscription captures.\<close>

record Subscription =
  sb_id :: int
  sb_ch :: nat
  sb_channels :: "string list"

definition Subscribe :: "bool \<Rightarrow> string list \<Rightarrow> LocalBus \<Rightarrow> (bus_error + Subscription) \<times> LocalBus" where
  "Subscribe done channels b =
     (if done then (Inl ErrCtx, b)
      else if b_closed b then (Inl ErrClosed, b)
      else let sid = b_nextID b + 1;
               ch = length (b_msgChans b);
               subs = fold (\<lambda>c m. put2 c sid ch m) channels (b_subs b)
           in (Inr \<lparr>sb_id = sid, sb_ch = ch, sb_channels = channels\<rparr>,
               b\<lparr>b_nextID := sid, b_msgChans := b_msgChans b @ [makeChan], b_subs := subs\<rparr>))"

text \<open>\<^verbatim>\<open>delete(subs, id); if len(subs) == 0 { delete(b.subs, c) }\<close>\<close>

definition dropSub :: "int \<Rightarrow> string \<Rightarrow> (string, int, nat) gomap2 \<Rightarrow> (string, int, nat) gomap2" where
  "dropSub sid c m =
     (case mget m c of
        None \<Rightarrow> m
      | Some i \<Rightarrow> (let i = mdel sid i in if i = [] then mdel c m else mput c i m))"

text \<open>The body of \<open>once.Do\<close> in the cancel function.\<close>

definition cancelSub :: "Subscription \<Rightarrow> LocalBus \<Rightarrow> LocalBus option" where
  "cancelSub s b =
     (let subs = fold (dropSub (sb_id s)) (sb_channels s) (b_subs b)
      in case closeChan (b_msgChans b ! sb_ch s) of
           None \<Rightarrow> None
         | Some c \<Rightarrow> Some (b\<lparr>b_subs := subs, b_msgChans := (b_msgChans b)[sb_ch s := c]\<rparr>))"

fun closeAll :: "nat list \<Rightarrow> 'a chan list \<Rightarrow> 'a chan list option" where
  "closeAll [] cs = Some cs"
| "closeAll (r # rs) cs =
     (case closeChan (cs ! r) of None \<Rightarrow> None | Some c \<Rightarrow> closeAll rs (cs[r := c]))"

definition Close :: "LocalBus \<Rightarrow> LocalBus option" where
  "Close b =
     (if b_closed b then Some b
      else case closeAll (map snd (concat (map snd (b_subs b)))) (b_msgChans b) of
             None \<Rightarrow> None
           | Some cs \<Rightarrow>
               (case closeAll (map snd (b_wakeSubs b)) (b_wakeChans b) of
                  None \<Rightarrow> None
                | Some ws \<Rightarrow> Some (b\<lparr>b_closed := True, b_msgChans := cs, b_subs := [],
                    b_wakeChans := ws, b_wakeSubs := [], b_inbox := []\<rparr>)))"

section \<open>Inboxes and wakeups (team_bus.go)\<close>

definition InboxPush :: "bool \<Rightarrow> instant \<Rightarrow> string \<Rightarrow> TeamMessage \<Rightarrow> LocalBus \<Rightarrow> bus_error option \<times> LocalBus" where
  "InboxPush done now sessionID msg b =
     (if done then (Some ErrCtx, b)
      else if b_closed b then (Some ErrClosed, b)
      else let msg = (if time_IsZero (tm_SentAt msg) then msg\<lparr>tm_SentAt := now\<rparr> else msg)
           in (None, b\<lparr>b_inbox := mpush sessionID msg (b_inbox b)\<rparr>))"

definition InboxDrain :: "bool \<Rightarrow> string \<Rightarrow> LocalBus \<Rightarrow> (bus_error + TeamMessage list) \<times> LocalBus" where
  "InboxDrain done sessionID b =
     (if done then (Inl ErrCtx, b)
      else if b_closed b then (Inl ErrClosed, b)
      else (Inr (mlist (b_inbox b) sessionID), b\<lparr>b_inbox := mdel sessionID (b_inbox b)\<rparr>))"

definition EnqueueWakeup :: "bool \<Rightarrow> string \<Rightarrow> LocalBus \<Rightarrow> (bus_error option \<times> LocalBus) option" where
  "EnqueueWakeup done sessionID b =
     (if done then Some (Some ErrCtx, b)
      else if b_closed b then Some (Some ErrClosed, b)
      else case offerAll \<lparr>we_SessionID = sessionID\<rparr> (b_wakeSubs b) (b_wakeChans b) of
             None \<Rightarrow> None
           | Some cs \<Rightarrow> Some (None, b\<lparr>b_wakeChans := cs\<rparr>))"

definition SubscribeWakeup :: "bool \<Rightarrow> LocalBus \<Rightarrow> (bus_error + int \<times> nat) \<times> LocalBus" where
  "SubscribeWakeup done b =
     (if done then (Inl ErrCtx, b)
      else if b_closed b then (Inl ErrClosed, b)
      else let sid = b_wakeNext b + 1; ch = length (b_wakeChans b)
           in (Inr (sid, ch), b\<lparr>b_wakeNext := sid, b_wakeChans := b_wakeChans b @ [makeChan],
                 b_wakeSubs := mput sid ch (b_wakeSubs b)\<rparr>))"

definition cancelWakeup :: "int \<times> nat \<Rightarrow> LocalBus \<Rightarrow> LocalBus option" where
  "cancelWakeup s b =
     (case closeChan (b_wakeChans b ! snd s) of
        None \<Rightarrow> None
      | Some c \<Rightarrow> Some (b\<lparr>b_wakeSubs := mdel (fst s) (b_wakeSubs b), b_wakeChans := (b_wakeChans b)[snd s := c]\<rparr>))"

end
