(* ===== verification/Bus_Fanout.thy ===== *)
theory Bus_Fanout
  imports Bus_Core
begin

text \<open>
  What the publish and subscribe half of the bus delivers: a world of subscribers that publish,
  receive and cancel in any order, the invariant that ties the subscription table to the
  channels, and the stream a subscriber sees.
\<close>

section \<open>Loops over subscribers\<close>

text \<open>A channel after an offer that did not panic.\<close>

definition offered :: "'a \<Rightarrow> 'a chan \<Rightarrow> 'a chan" where
  "offered m c =
     (if length (ch_buf c) < defaultSubscriberBuffer then c\<lparr>ch_buf := ch_buf c @ [m]\<rparr> else c)"

lemma offer_open: "\<not> ch_closed c \<Longrightarrow> offer m c = Some (offered m c)"
  by (simp add: offer_def offered_def)

lemma offered_simps [simp]: "ch_closed (offered m c) = ch_closed c"
  by (simp add: offered_def)

text \<open>The order in which the loop visits the subscribers does not matter: each channel gets one offer.\<close>

lemma offerAll_open:
  assumes "distinct (map snd subs)"
    and "\<forall>r \<in> snd ` set subs. r < length cs \<and> \<not> ch_closed (cs ! r)"
  shows "offerAll m subs cs =
    Some (map (\<lambda>r. if r \<in> snd ` set subs then offered m (cs ! r) else cs ! r) [0..<length cs])"
  using assms
proof (induction subs arbitrary: cs)
  case Nil
  then show ?case by (simp add: map_nth)
next
  case (Cons s subs)
  obtain i r where s: "s = (i, r)" by (cases s)
  have r: "r < length cs" "\<not> ch_closed (cs ! r)" "r \<notin> snd ` set subs" using Cons.prems s by auto
  have "offerAll m subs (cs[r := offered m (cs ! r)]) =
    Some (map (\<lambda>x. if x \<in> snd ` set subs then offered m (cs[r := offered m (cs ! r)] ! x)
      else cs[r := offered m (cs ! r)] ! x) [0..<length cs])"
    using Cons.IH [of "cs[r := offered m (cs ! r)]"] Cons.prems s r by (auto simp: nth_list_update)
  moreover have "(if x \<in> snd ` set subs then offered m (cs[r := offered m (cs ! r)] ! x)
      else cs[r := offered m (cs ! r)] ! x) =
     (if x \<in> snd ` set (s # subs) then offered m (cs ! x) else cs ! x)" if "x < length cs" for x
    using r that s by (auto simp: nth_list_update)
  ultimately show ?case using s r by (simp add: offer_open cong: map_cong)
qed

lemma get2_fold_put2:
  "get2 (fold (\<lambda>c m. put2 c i r m) cs m) t k = (if t \<in> set cs \<and> k = i then Some r else get2 m t k)"
  by (induction cs arbitrary: m) (auto simp: gomap_simps)

lemma mwf_inner_put2: "mwf (inner m t) \<Longrightarrow> mwf (inner m c) \<Longrightarrow> mwf (inner (put2 c i r m) t)"
  by (simp add: gomap_simps mwf_put)

lemma mwf_inner_fold_put2: "\<forall>t. mwf (inner m t) \<Longrightarrow> mwf (inner (fold (\<lambda>c m. put2 c i r m) cs m) t)"
  by (induction cs arbitrary: m) (simp_all add: mwf_inner_put2)

lemma inner_dropSub: "inner (dropSub i c m) t = (if t = c then mdel i (inner m c) else inner m t)"
  by (auto simp: dropSub_def inner_def gomap_simps Let_def split: option.splits)

lemma get2_dropSub: "get2 (dropSub i c m) t k = (if t = c \<and> k = i then None else get2 m t k)"
  by (simp add: get2_def inner_dropSub gomap_simps)

lemma get2_fold_dropSub:
  "get2 (fold (dropSub i) cs m) t k = (if t \<in> set cs \<and> k = i then None else get2 m t k)"
  by (induction cs arbitrary: m) (auto simp: get2_dropSub)

lemma mwf_inner_fold_dropSub: "\<forall>t. mwf (inner m t) \<Longrightarrow> mwf (inner (fold (dropSub i) cs m) t)"
  by (induction cs arbitrary: m) (simp_all add: inner_dropSub mwf_del)

section \<open>Runs of an open bus\<close>

record PubWorld =
  pw_bus :: LocalBus
  pw_handed :: "Subscription list" \<comment> \<open>what Subscribe returned, in order\<close>
  pw_once :: "nat list" \<comment> \<open>subscriptions whose cancel function ran\<close>
  pw_got :: "(nat \<times> Message) list" \<comment> \<open>messages received, with the channel\<close>

datatype pub_action = PSub "string list" | PPub string string | PRecv nat | PCancel nat

definition pub_init :: PubWorld where
  "pub_init = \<lparr>pw_bus = NewLocalBus, pw_handed = [], pw_once = [], pw_got = []\<rparr>"

text \<open>A receive on an empty open channel waits: the step leaves the world as it is.\<close>

fun pub_step :: "PubWorld \<Rightarrow> pub_action \<Rightarrow> PubWorld option" where
  "pub_step w (PSub topics) =
     (case Subscribe False topics (pw_bus w) of
        (Inl _, b) \<Rightarrow> Some (w\<lparr>pw_bus := b\<rparr>)
      | (Inr s, b) \<Rightarrow> Some (w\<lparr>pw_bus := b, pw_handed := pw_handed w @ [s]\<rparr>))"
| "pub_step w (PPub c p) =
     (case Publish False c p (pw_bus w) of None \<Rightarrow> None | Some (_, b) \<Rightarrow> Some (w\<lparr>pw_bus := b\<rparr>))"
| "pub_step w (PRecv r) =
     (if r < length (b_msgChans (pw_bus w)) then
        case recvChan (b_msgChans (pw_bus w) ! r) of
          Some (Some m, c) \<Rightarrow> Some (w\<lparr>pw_bus := (pw_bus w)\<lparr>b_msgChans := (b_msgChans (pw_bus w))[r := c]\<rparr>,
              pw_got := pw_got w @ [(r, m)]\<rparr>)
        | _ \<Rightarrow> Some w
      else Some w)"
| "pub_step w (PCancel r) =
     (if r < length (pw_handed w) \<and> r \<notin> set (pw_once w) then
        case cancelSub (pw_handed w ! r) (pw_bus w) of
          None \<Rightarrow> None
        | Some b \<Rightarrow> Some (w\<lparr>pw_bus := b, pw_once := r # pw_once w\<rparr>)
      else Some w)"

fun pub_run :: "PubWorld \<Rightarrow> pub_action list \<Rightarrow> PubWorld option" where
  "pub_run w [] = Some w"
| "pub_run w (a # as) = (case pub_step w a of None \<Rightarrow> None | Some w' \<Rightarrow> pub_run w' as)"

lemma pub_run_append:
  "pub_run w (as @ bs) = (case pub_run w as of None \<Rightarrow> None | Some w' \<Rightarrow> pub_run w' bs)"
  by (induction as arbitrary: w) (auto split: option.splits)

text \<open>What the receiver of channel \<open>r\<close> has read, and that with what waits in the buffer.\<close>

definition gotBy :: "nat \<Rightarrow> PubWorld \<Rightarrow> Message list" where
  "gotBy r w = map snd (filter (\<lambda>(x, _). x = r) (pw_got w))"

definition stream :: "nat \<Rightarrow> PubWorld \<Rightarrow> Message list" where
  "stream r w = gotBy r w @ ch_buf (b_msgChans (pw_bus w) ! r)"

text \<open>The messages a sequence of actions publishes on the given topics, and how often it subscribes.\<close>

definition publishedOn :: "string list \<Rightarrow> pub_action list \<Rightarrow> Message list" where
  "publishedOn topics ops =
     concat (map (\<lambda>a. case a of PPub c p \<Rightarrow> if c \<in> set topics then [\<lparr>msg_Channel = c, msg_Payload = p\<rparr>] else []
       | _ \<Rightarrow> []) ops)"

definition subCount :: "pub_action list \<Rightarrow> nat" where
  "subCount ops = length (filter (\<lambda>a. case a of PSub _ \<Rightarrow> True | _ \<Rightarrow> False) ops)"

definition fanout_ok :: "PubWorld \<Rightarrow> bool" where
  "fanout_ok w \<longleftrightarrow>
     \<not> b_closed (pw_bus w) \<and>
     length (b_msgChans (pw_bus w)) = length (pw_handed w) \<and>
     b_nextID (pw_bus w) = int (length (pw_handed w)) \<and>
     set (pw_once w) \<subseteq> {..<length (pw_handed w)} \<and>
     fst ` set (pw_got w) \<subseteq> {..<length (pw_handed w)} \<and>
     (\<forall>r < length (pw_handed w). sb_id (pw_handed w ! r) = int r + 1 \<and> sb_ch (pw_handed w ! r) = r) \<and>
     (\<forall>t. mwf (inner (b_subs (pw_bus w)) t)) \<and>
     (\<forall>t i r. get2 (b_subs (pw_bus w)) t i = Some r \<longleftrightarrow>
        r < length (pw_handed w) \<and> i = int r + 1 \<and> r \<notin> set (pw_once w) \<and>
        t \<in> set (sb_channels (pw_handed w ! r))) \<and>
     (\<forall>r < length (pw_handed w). ch_closed (b_msgChans (pw_bus w) ! r) = (r \<in> set (pw_once w)) \<and>
        length (ch_buf (b_msgChans (pw_bus w) ! r)) \<le> defaultSubscriberBuffer)"

lemma fanout_ok_init: "fanout_ok pub_init"
  by (simp add: fanout_ok_def pub_init_def NewLocalBus_def)

lemma fanout_okD:
  assumes "fanout_ok w"
  shows "\<not> b_closed (pw_bus w)"
    and "length (b_msgChans (pw_bus w)) = length (pw_handed w)"
    and "b_nextID (pw_bus w) = int (length (pw_handed w))"
    and "r < length (pw_handed w) \<Longrightarrow> sb_id (pw_handed w ! r) = int r + 1 \<and> sb_ch (pw_handed w ! r) = r"
    and "mwf (inner (b_subs (pw_bus w)) t)"
    and "get2 (b_subs (pw_bus w)) t i = Some r \<longleftrightarrow>
        r < length (pw_handed w) \<and> i = int r + 1 \<and> r \<notin> set (pw_once w) \<and>
        t \<in> set (sb_channels (pw_handed w ! r))"
    and "r < length (pw_handed w) \<Longrightarrow> ch_closed (b_msgChans (pw_bus w) ! r) = (r \<in> set (pw_once w)) \<and>
        length (ch_buf (b_msgChans (pw_bus w) ! r)) \<le> defaultSubscriberBuffer"
  using assms unfolding fanout_ok_def by auto

text \<open>The subscribers of a topic, read off the table.\<close>

lemma fanout_refs:
  assumes "fanout_ok w"
  shows "distinct (map snd (inner (b_subs (pw_bus w)) t))"
    and "r \<in> snd ` set (inner (b_subs (pw_bus w)) t) \<longleftrightarrow>
      r < length (pw_handed w) \<and> r \<notin> set (pw_once w) \<and> t \<in> set (sb_channels (pw_handed w ! r))"
proof -
  let ?i = "inner (b_subs (pw_bus w)) t"
  have d: "distinct (map fst ?i)" using fanout_okD(5) [OF assms] by (simp add: mwf_def)
  have iff: "(k, r) \<in> set ?i \<longleftrightarrow> r < length (pw_handed w) \<and> k = int r + 1 \<and> r \<notin> set (pw_once w) \<and>
      t \<in> set (sb_channels (pw_handed w ! r))" for k r
    using map_of_eq_Some_iff [OF d, of k r] fanout_okD(6) [OF assms, of t k r] by (simp add: get2_def)
  have "inj_on snd (set ?i)" by (auto simp: inj_on_def iff)
  then show "distinct (map snd ?i)" using d by (simp add: distinct_map)
  show "r \<in> snd ` set ?i \<longleftrightarrow>
      r < length (pw_handed w) \<and> r \<notin> set (pw_once w) \<and> t \<in> set (sb_channels (pw_handed w ! r))"
    unfolding image_iff Bex_def split_paired_Ex by (simp add: iff)
qed

text \<open>Whether a subscription is in force for a topic.\<close>

definition listens :: "PubWorld \<Rightarrow> nat \<Rightarrow> string \<Rightarrow> bool" where
  "listens w r t \<longleftrightarrow> r \<notin> set (pw_once w) \<and> t \<in> set (sb_channels (pw_handed w ! r))"

lemma pub_step_publish:
  assumes "fanout_ok w"
  shows "pub_step w (PPub c p) = Some (w\<lparr>pw_bus := (pw_bus w)\<lparr>b_msgChans :=
    map (\<lambda>r. if listens w r c then offered \<lparr>msg_Channel = c, msg_Payload = p\<rparr> (b_msgChans (pw_bus w) ! r)
        else b_msgChans (pw_bus w) ! r) [0..<length (b_msgChans (pw_bus w))]\<rparr>\<rparr>)"
proof -
  have "\<forall>r \<in> snd ` set (inner (b_subs (pw_bus w)) c).
      r < length (b_msgChans (pw_bus w)) \<and> \<not> ch_closed (b_msgChans (pw_bus w) ! r)"
    using fanout_refs(2) [OF assms, of _ c] fanout_okD(2,7) [OF assms] by simp
  note loop = offerAll_open [OF fanout_refs(1) [OF assms, of c] this]
  have "map (\<lambda>r. if r \<in> snd ` set (inner (b_subs (pw_bus w)) c) then offered m (b_msgChans (pw_bus w) ! r)
        else b_msgChans (pw_bus w) ! r) [0..<length (b_msgChans (pw_bus w))] =
     map (\<lambda>r. if listens w r c then offered m (b_msgChans (pw_bus w) ! r)
        else b_msgChans (pw_bus w) ! r) [0..<length (b_msgChans (pw_bus w))]" for m
    by (rule map_cong) (auto simp: fanout_refs(2) [OF assms] fanout_okD(2) [OF assms] listens_def)
  then show ?thesis using fanout_okD(1) [OF assms] by (simp add: Publish_def loop)
qed

lemma pub_step_subscribe:
  assumes "fanout_ok w"
  shows "pub_step w (PSub topics) = Some (w\<lparr>
    pw_bus := (pw_bus w)\<lparr>b_nextID := b_nextID (pw_bus w) + 1, b_msgChans := b_msgChans (pw_bus w) @ [makeChan],
      b_subs := fold (\<lambda>c m. put2 c (b_nextID (pw_bus w) + 1) (length (pw_handed w)) m) topics (b_subs (pw_bus w))\<rparr>,
    pw_handed := pw_handed w @ [\<lparr>sb_id = b_nextID (pw_bus w) + 1, sb_ch = length (pw_handed w), sb_channels = topics\<rparr>]\<rparr>)"
  using fanout_okD(1,2) [OF assms] by (simp add: Subscribe_def Let_def)

lemma pub_step_cancel:
  assumes "fanout_ok w" and "r < length (pw_handed w)" and "r \<notin> set (pw_once w)"
  shows "pub_step w (PCancel r) = Some (w\<lparr>
    pw_bus := (pw_bus w)\<lparr>b_subs := fold (dropSub (int r + 1)) (sb_channels (pw_handed w ! r)) (b_subs (pw_bus w)),
      b_msgChans := (b_msgChans (pw_bus w))[r := (b_msgChans (pw_bus w) ! r)\<lparr>ch_closed := True\<rparr>]\<rparr>,
    pw_once := r # pw_once w\<rparr>)"
  using fanout_okD(4) [OF assms(1,2)] fanout_okD(7) [OF assms(1,2)] assms(2,3)
  by (simp add: cancelSub_def closeChan_def Let_def)

text \<open>Sends and receives touch the buffers only.\<close>

lemma fanout_ok_chans:
  assumes "fanout_ok w" and "length cs = length (b_msgChans (pw_bus w))"
    and "\<And>r. r < length cs \<Longrightarrow> ch_closed (cs ! r) = ch_closed (b_msgChans (pw_bus w) ! r) \<and>
      length (ch_buf (cs ! r)) \<le> defaultSubscriberBuffer"
  shows "fanout_ok (w\<lparr>pw_bus := (pw_bus w)\<lparr>b_msgChans := cs\<rparr>\<rparr>)"
  using assms by (simp add: fanout_ok_def)

lemma fanout_ok_got:
  "fanout_ok w \<Longrightarrow> r < length (pw_handed w) \<Longrightarrow> fanout_ok (w\<lparr>pw_got := pw_got w @ [(r, m)]\<rparr>)"
  by (simp add: fanout_ok_def)

lemma fanout_ok_publish:
  assumes ok: "fanout_ok w" and w': "pub_step w (PPub c p) = Some w'"
  shows "fanout_ok w'"
proof -
  have "length (ch_buf (offered m (b_msgChans (pw_bus w) ! r))) \<le> defaultSubscriberBuffer"
    if "r < length (b_msgChans (pw_bus w))" for m r
    using that fanout_okD(2,7) [OF ok] by (simp add: offered_def)
  then show ?thesis
    using w' fanout_okD(2,7) [OF ok] unfolding pub_step_publish [OF ok]
    by (auto intro!: fanout_ok_chans [OF ok] simp: nth_map_upt simp del: nth_map split: if_splits)
qed

lemma fanout_ok_subscribe:
  assumes ok: "fanout_ok w" and w': "pub_step w (PSub topics) = Some w'"
  shows "fanout_ok w'"
proof -
  let ?n = "length (pw_handed w)"
  note d = fanout_okD [OF ok]
  have once: "set (pw_once w) \<subseteq> {..<?n}" using ok by (simp add: fanout_ok_def)
  have new: "get2 (b_subs (pw_bus w)) t (int ?n + 1) = None" for t
  proof (rule ccontr)
    assume "get2 (b_subs (pw_bus w)) t (int ?n + 1) \<noteq> None"
    then obtain r where "get2 (b_subs (pw_bus w)) t (int ?n + 1) = Some r" by blast
    with d(6) [of t "int ?n + 1" r] show False by auto
  qed
  have w'_eq: "w' = w\<lparr>
    pw_bus := (pw_bus w)\<lparr>b_nextID := int ?n + 1, b_msgChans := b_msgChans (pw_bus w) @ [makeChan],
      b_subs := fold (\<lambda>c m. put2 c (int ?n + 1) ?n m) topics (b_subs (pw_bus w))\<rparr>,
    pw_handed := pw_handed w @ [\<lparr>sb_id = int ?n + 1, sb_ch = ?n, sb_channels = topics\<rparr>]\<rparr>"
    using w' pub_step_subscribe [OF ok, of topics] d(3) by simp
  have table: "get2 (b_subs (pw_bus w')) t i = Some r \<longleftrightarrow>
      r < length (pw_handed w') \<and> i = int r + 1 \<and> r \<notin> set (pw_once w') \<and>
      t \<in> set (sb_channels (pw_handed w' ! r))" for t i r
  proof (cases "i = int ?n + 1")
    case True
    then show ?thesis using new [of t] once by (auto simp: w'_eq get2_fold_put2 nth_append)
  next
    case False
    then show ?thesis using d(6) [of t i r] by (auto simp: w'_eq get2_fold_put2 nth_append)
  qed
  have "ch_closed (b_msgChans (pw_bus w') ! r) = (r \<in> set (pw_once w')) \<and>
      length (ch_buf (b_msgChans (pw_bus w') ! r)) \<le> defaultSubscriberBuffer"
    if "r < length (pw_handed w')" for r
    using that d(2,7) once by (cases "r = ?n") (auto simp: w'_eq nth_append makeChan_def)
  moreover have "sb_id (pw_handed w' ! r) = int r + 1 \<and> sb_ch (pw_handed w' ! r) = r"
    if "r < length (pw_handed w')" for r
    using that d(4) by (cases "r = ?n") (auto simp: w'_eq nth_append)
  moreover have "mwf (inner (b_subs (pw_bus w')) t)" for t
    using d(5) by (simp add: w'_eq mwf_inner_fold_put2)
  moreover have "set (pw_once w') \<subseteq> {..<length (pw_handed w')}"
    using once by (auto simp: w'_eq)
  moreover have "fst ` set (pw_got w') \<subseteq> {..<length (pw_handed w')}"
    using ok by (auto simp: w'_eq fanout_ok_def)
  ultimately show ?thesis
    unfolding fanout_ok_def using d(1,2) table by (simp add: w'_eq)
qed

lemma fanout_ok_cancel: "fanout_ok w \<Longrightarrow> pub_step w (PCancel r) = Some w' \<Longrightarrow> fanout_ok w'"
proof (cases "r < length (pw_handed w) \<and> r \<notin> set (pw_once w)")
  case True
  assume "fanout_ok w" "pub_step w (PCancel r) = Some w'"
  with True show ?thesis
    by (auto simp: pub_step_cancel simp del: pub_step.simps)
      (auto simp: fanout_ok_def get2_fold_dropSub mwf_inner_fold_dropSub nth_list_update)
qed auto

lemma fanout_ok_recv:
  assumes ok: "fanout_ok w" and w': "pub_step w (PRecv r) = Some w'"
  shows "fanout_ok w'"
proof -
  have "fanout_ok (w\<lparr>pw_bus := (pw_bus w)\<lparr>b_msgChans := (b_msgChans (pw_bus w))[r := c]\<rparr>\<rparr>)"
    if "recvChan (b_msgChans (pw_bus w) ! r) = Some (v, c)" "r < length (b_msgChans (pw_bus w))" for v c
    using that fanout_okD(2,7) [OF ok]
    by (intro fanout_ok_chans [OF ok]) (fastforce simp: nth_list_update recvChan_def split: list.splits if_splits)+
  then show ?thesis
    using w' ok fanout_okD(2) [OF ok] fanout_ok_got by (fastforce split: if_splits option.splits)
qed

text \<open>No step of an open bus panics, and every step keeps the invariant.\<close>

lemma pub_step_defined: "fanout_ok w \<Longrightarrow> \<exists>w'. pub_step w a = Some w'"
proof (cases a)
  case (PCancel r)
  assume "fanout_ok w"
  with PCancel show ?thesis
    by (cases "r < length (pw_handed w) \<and> r \<notin> set (pw_once w)") (use pub_step_cancel in blast, auto)
qed (auto simp: pub_step_publish pub_step_subscribe simp del: pub_step.simps(1,2) split: option.splits)

lemma pub_step_ok: "fanout_ok w \<Longrightarrow> pub_step w a = Some w' \<Longrightarrow> fanout_ok w'"
  by (cases a) (blast dest: fanout_ok_publish fanout_ok_subscribe fanout_ok_cancel fanout_ok_recv)+

lemma pub_run_ok: "fanout_ok w \<Longrightarrow> \<exists>w'. pub_run w ops = Some w' \<and> fanout_ok w'"
proof (induction ops arbitrary: w)
  case (Cons a ops)
  then obtain w1 where "pub_step w a = Some w1" "fanout_ok w1"
    using pub_step_defined pub_step_ok by blast
  then show ?case using Cons.IH by simp
qed simp

section \<open>The stream of a subscriber\<close>

text \<open>What one action adds to the stream of an existing subscription.\<close>

definition heard :: "PubWorld \<Rightarrow> nat \<Rightarrow> pub_action \<Rightarrow> Message list" where
  "heard w r a =
     (case a of PPub c p \<Rightarrow>
        if listens w r c \<and> length (ch_buf (b_msgChans (pw_bus w) ! r)) < defaultSubscriberBuffer
        then [\<lparr>msg_Channel = c, msg_Payload = p\<rparr>] else []
      | _ \<Rightarrow> [])"

lemma stream_publish:
  assumes "fanout_ok w" and "r < length (pw_handed w)" and "pub_step w (PPub c p) = Some w'"
  shows "stream r w' = stream r w @ heard w r (PPub c p)"
  using assms(2,3) fanout_okD(2) [OF assms(1)] unfolding pub_step_publish [OF assms(1)]
  by (auto simp: stream_def gotBy_def heard_def offered_def)

lemma stream_other:
  assumes ok: "fanout_ok w" and r: "r < length (pw_handed w)" and w': "pub_step w a = Some w'"
    and a: "\<forall>c p. a \<noteq> PPub c p"
  shows "stream r w' = stream r w"
proof (cases a)
  case (PSub topics)
  then show ?thesis using w' r fanout_okD(2) [OF ok] unfolding PSub pub_step_subscribe [OF ok]
    by (auto simp: stream_def gotBy_def nth_append)
next
  case (PRecv x)
  then show ?thesis using w'
    by (auto simp: stream_def gotBy_def recvChan_def nth_list_update split: if_splits option.splits list.splits)
next
  case (PCancel x)
  show ?thesis
  proof (cases "x < length (pw_handed w) \<and> x \<notin> set (pw_once w)")
    case True
    then show ?thesis using w' r fanout_okD(2) [OF ok] unfolding PCancel
      by (auto simp: pub_step_cancel [OF ok] stream_def gotBy_def nth_list_update simp del: pub_step.simps)
  next
    case False
    then show ?thesis using w' PCancel by auto
  qed
qed (use a in auto)

lemma stream_step:
  assumes "fanout_ok w" and "r < length (pw_handed w)" and "pub_step w a = Some w'"
  shows "stream r w' = stream r w @ heard w r a"
proof (cases a)
  case (PPub c p)
  then show ?thesis using stream_publish [OF assms(1,2)] assms(3) by simp
qed (use stream_other [OF assms] in \<open>auto simp: heard_def\<close>)

text \<open>Subscriptions are never renumbered.\<close>

lemma handed_step:
  assumes "fanout_ok w" and "pub_step w a = Some w'"
  shows "\<exists>ss. pw_handed w' = pw_handed w @ ss \<and> length ss = subCount [a]"
proof (cases a)
  case (PSub topics)
  then show ?thesis using assms(2) pub_step_subscribe [OF assms(1), of topics] by (auto simp: subCount_def)
qed (use assms(2) in \<open>auto simp: subCount_def split: option.splits if_splits\<close>)

lemma topics_step:
  assumes "fanout_ok w" and "pub_step w a = Some w'" and "r < length (pw_handed w)"
  shows "r < length (pw_handed w') \<and> pw_handed w' ! r = pw_handed w ! r"
  using handed_step [OF assms(1,2)] assms(3) by (auto simp: nth_append)

lemma once_step:
  assumes "fanout_ok w" and "pub_step w a = Some w'" and "r \<notin> set (pw_once w)" and "a \<noteq> PCancel r"
  shows "r \<notin> set (pw_once w')"
  using assms(2-4)
  by (cases a) (auto simp: Subscribe_def Let_def split: option.splits if_splits)

text \<open>A step makes the buffer at most as much longer as the subscriber hears.\<close>

lemma buffer_step:
  assumes "fanout_ok w" and "r < length (pw_handed w)" and "pub_step w a = Some w'"
  shows "length (ch_buf (b_msgChans (pw_bus w') ! r)) \<le>
    length (ch_buf (b_msgChans (pw_bus w) ! r)) + length (heard w r a)"
proof -
  have "length (gotBy r w) \<le> length (gotBy r w')"
    using assms(3) by (cases a) (auto simp: gotBy_def Subscribe_def Let_def split: option.splits if_splits)
  then show ?thesis using arg_cong [OF stream_step [OF assms], of length] by (simp add: stream_def)
qed

lemma heard_publishedOn:
  assumes "r < length (pw_handed w)"
  shows "heard w r a = [] \<or> heard w r a = publishedOn (sb_channels (pw_handed w ! r)) [a]"
  by (cases a) (auto simp: heard_def publishedOn_def listens_def)

lemma publishedOn_Cons: "publishedOn ts (a # ops) = publishedOn ts [a] @ publishedOn ts ops"
  by (simp add: publishedOn_def)

lemma stream_run:
  assumes "fanout_ok w" and "r < length (pw_handed w)" and "pub_run w ops = Some w'"
  shows "\<exists>hs. stream r w' = stream r w @ hs \<and> subseq hs (publishedOn (sb_channels (pw_handed w ! r)) ops)"
  using assms
proof (induction ops arbitrary: w)
  case (Cons a ops)
  obtain w1 where w1: "pub_step w a = Some w1" "pub_run w1 ops = Some w'"
    using Cons.prems(3) by (auto split: option.splits)
  note t = topics_step [OF Cons.prems(1) w1(1) Cons.prems(2)]
  obtain hs where hs: "stream r w' = stream r w1 @ hs"
    "subseq hs (publishedOn (sb_channels (pw_handed w ! r)) ops)"
    using Cons.IH [OF pub_step_ok [OF Cons.prems(1) w1(1)] _ w1(2)] t by auto
  have "subseq (heard w r a) (publishedOn (sb_channels (pw_handed w ! r)) [a])"
    using heard_publishedOn [OF Cons.prems(2), of a] by auto
  from list_emb_append_mono [OF this hs(2)]
  have "subseq (heard w r a @ hs) (publishedOn (sb_channels (pw_handed w ! r)) (a # ops))"
    by (simp add: publishedOn_Cons [of _ a ops])
  then show ?case using hs(1) stream_step [OF Cons.prems(1,2) w1(1)] by auto
qed auto

lemma stream_run_complete:
  assumes "fanout_ok w" and "r < length (pw_handed w)" and "pub_run w ops = Some w'"
    and "r \<notin> set (pw_once w)" and "PCancel r \<notin> set ops"
    and "length (ch_buf (b_msgChans (pw_bus w) ! r)) + length (publishedOn (sb_channels (pw_handed w ! r)) ops)
      \<le> defaultSubscriberBuffer"
  shows "stream r w' = stream r w @ publishedOn (sb_channels (pw_handed w ! r)) ops"
  using assms
proof (induction ops arbitrary: w)
  case (Cons a ops)
  obtain w1 where w1: "pub_step w a = Some w1" "pub_run w1 ops = Some w'"
    using Cons.prems(3) by (auto split: option.splits)
  let ?ts = "sb_channels (pw_handed w ! r)"
  note t = topics_step [OF Cons.prems(1) w1(1) Cons.prems(2)]
  have len: "length (publishedOn ?ts (a # ops)) = length (publishedOn ?ts [a]) + length (publishedOn ?ts ops)"
    by (simp add: publishedOn_Cons [of _ a ops])
  have "heard w r a = publishedOn ?ts [a]"
    using Cons.prems(4,6) len by (cases a) (auto simp: heard_def publishedOn_def listens_def)
  moreover have "r \<notin> set (pw_once w1)"
    using once_step [OF Cons.prems(1) w1(1) Cons.prems(4)] Cons.prems(5) by auto
  moreover have "length (ch_buf (b_msgChans (pw_bus w1) ! r)) + length (publishedOn ?ts ops) \<le> defaultSubscriberBuffer"
    using buffer_step [OF Cons.prems(1,2) w1(1)] calculation(1) Cons.prems(6) len by simp
  ultimately have "stream r w' = stream r w1 @ publishedOn ?ts ops"
    using Cons.IH [OF pub_step_ok [OF Cons.prems(1) w1(1)] _ w1(2)] t Cons.prems(5) by auto
  then show ?case
    using stream_step [OF Cons.prems(1,2) w1(1)] \<open>heard w r a = publishedOn ?ts [a]\<close>
    by (simp add: publishedOn_Cons [of _ a ops])
qed (simp add: publishedOn_def)

text \<open>The start of a stream: a fresh subscription after any history.\<close>

lemma handed_run:
  assumes "fanout_ok w" and "pub_run w ops = Some w'"
  shows "length (pw_handed w') = length (pw_handed w) + subCount ops"
  using assms
proof (induction ops arbitrary: w)
  case (Cons a ops)
  obtain w1 where w1: "pub_step w a = Some w1" "pub_run w1 ops = Some w'"
    using Cons.prems(2) by (auto split: option.splits)
  then show ?case
    using Cons.IH [OF pub_step_ok [OF Cons.prems(1) w1(1)] w1(2)] handed_step [OF Cons.prems(1) w1(1)]
    by (auto simp: subCount_def split: if_splits)
qed (simp add: subCount_def)

lemma subseq_appendD: "subseq (xs @ ys) zs \<Longrightarrow> subseq xs zs"
  by (blast dest: list_emb_appendD intro: list_emb_append2 subseq_order.order_trans list_emb_prefix)

lemma fresh_subscription:
  assumes ok: "fanout_ok w" and w1: "pub_step w (PSub topics) = Some w1"
  shows "length (pw_handed w) < length (pw_handed w1)"
    and "sb_channels (pw_handed w1 ! length (pw_handed w)) = topics"
    and "length (pw_handed w) \<notin> set (pw_once w1)"
    and "ch_buf (b_msgChans (pw_bus w1) ! length (pw_handed w)) = []"
    and "stream (length (pw_handed w)) w1 = []"
proof -
  note e = w1 [unfolded pub_step_subscribe [OF ok], simplified, symmetric]
  show "length (pw_handed w) < length (pw_handed w1)"
    and "sb_channels (pw_handed w1 ! length (pw_handed w)) = topics"
    and b: "ch_buf (b_msgChans (pw_bus w1) ! length (pw_handed w)) = []"
    using fanout_okD(2) [OF ok] by (simp_all add: e nth_append makeChan_def)
  have "set (pw_once w) \<subseteq> {..<length (pw_handed w)}" using ok by (simp add: fanout_ok_def)
  then show "length (pw_handed w) \<notin> set (pw_once w1)" by (auto simp: e)
  have "gotBy (length (pw_handed w)) w = []"
    using ok by (auto simp: fanout_ok_def gotBy_def filter_empty_conv)
  then show "stream (length (pw_handed w)) w1 = []" using b by (simp add: stream_def gotBy_def e)
qed

end
