(* ===== verification/Bus_Coord.thy ===== *)
theory Bus_Coord
  imports Bus_Core CP_Ledger
begin

text \<open>
  Coordination primitives of the in-process bus (messagebus/coord.go, keys.go and the registry
  part of lease.go): named locks, the registry, FIFO queues, the append log and windowed
  counters.  Lock and queue calls leave the bus mutex before they wait, so they are split into
  the atomic steps between which other calls can run.
\<close>

section \<open>Keys (keys.go)\<close>

definition QueueName :: "string \<Rightarrow> string" where "QueueName logical = ''as:queue:'' @ logical"
definition LockKey :: "string \<Rightarrow> string" where "LockKey resource = ''as:lock:'' @ resource"
definition RegistryNS :: "string \<Rightarrow> string" where "RegistryNS grp = ''as:reg:'' @ grp"
definition LogNS :: "string \<Rightarrow> string" where "LogNS name = ''as:log:'' @ name"
definition ProjectionNS :: "string \<Rightarrow> string" where "ProjectionNS target = ''as:projection:'' @ target"
definition SessionRunLockKey :: "string \<Rightarrow> string" where "SessionRunLockKey s = LockKey (''session-run:'' @ s)"
definition SessionRunRegistryNS :: string where "SessionRunRegistryNS = RegistryNS ''session-run''"
definition SessionEventLogNS :: "string \<Rightarrow> string" where "SessionEventLogNS s = LogNS (''session-events:'' @ s)"
definition SessionCancelChannel :: "string \<Rightarrow> string" where "SessionCancelChannel s = ''as:cancel:session:'' @ s"
definition WorkerRoleLockKey :: "string \<Rightarrow> string" where "WorkerRoleLockKey role = LockKey (''worker-role:'' @ role)"

section \<open>Queues\<close>

definition newLocalQueue :: localQueue where
  "newLocalQueue = \<lparr>lq_items = [], lq_notify = False\<rparr>"

text \<open>\<^verbatim>\<open>push\<close> appends under the queue mutex and then offers a token to \<^verbatim>\<open>notify\<close>.\<close>

definition push_append :: "string \<Rightarrow> localQueue \<Rightarrow> localQueue" where
  "push_append v q = q\<lparr>lq_items := lq_items q @ [v]\<rparr>"

definition push_notify :: "localQueue \<Rightarrow> localQueue" where
  "push_notify q = q\<lparr>lq_notify := True\<rparr>"

text \<open>One round of the loop of \<^verbatim>\<open>pop\<close>: take the head, or go on to wait for a token.\<close>

definition pop_check :: "localQueue \<Rightarrow> string option \<times> localQueue" where
  "pop_check q =
     (case lq_items q of
        [] \<Rightarrow> (None, q)
      | v # vs \<Rightarrow> (Some v, q\<lparr>lq_items := vs\<rparr>))"

definition pop_wake :: "localQueue \<Rightarrow> localQueue option" where
  "pop_wake q = (if lq_notify q then Some (q\<lparr>lq_notify := False\<rparr>) else None)"

text \<open>The bus half of QueuePush and QueuePop: find or create the queue.\<close>

definition QueuePush_find :: "bool \<Rightarrow> string \<Rightarrow> LocalBus \<Rightarrow> bus_error option \<times> LocalBus" where
  "QueuePush_find done name b =
     (if done then (Some ErrCtx, b)
      else if b_closed b then (Some ErrClosed, b)
      else case mget (b_queues b) name of
             Some _ \<Rightarrow> (None, b)
           | None \<Rightarrow> (None, b\<lparr>b_queues := mput name newLocalQueue (b_queues b)\<rparr>))"

text \<open>QueuePop looks the queue up and, when it is absent, locks the bus again to create it.\<close>

definition QueuePop_find :: "bool \<Rightarrow> string \<Rightarrow> LocalBus \<Rightarrow> bus_error + bool" where
  "QueuePop_find done name b =
     (if done then Inl ErrCtx
      else if b_closed b then Inl ErrClosed
      else Inr (mget (b_queues b) name \<noteq> None))"

definition QueuePop_create :: "string \<Rightarrow> LocalBus \<Rightarrow> bus_error option \<times> LocalBus" where
  "QueuePop_create name b =
     (if b_closed b then (Some ErrClosed, b)
      else case mget (b_queues b) name of
             Some _ \<Rightarrow> (None, b)
           | None \<Rightarrow> (None, b\<lparr>b_queues := mput name newLocalQueue (b_queues b)\<rparr>))"

section \<open>Locks\<close>

definition Lock_find :: "bool \<Rightarrow> string \<Rightarrow> LocalBus \<Rightarrow> bus_error option \<times> LocalBus" where
  "Lock_find done key b =
     (if done then (Some ErrCtx, b)
      else if b_closed b then (Some ErrClosed, b)
      else case mget (b_locks b) key of
             Some _ \<Rightarrow> (None, b)
           | None \<Rightarrow> (None, b\<lparr>b_locks := mput key \<lparr>lk_held = False\<rparr> (b_locks b)\<rparr>))"

text \<open>\<^verbatim>\<open>lk.ch <- struct{}{}\<close> goes through when the channel is empty, else waits (\<open>None\<close>).\<close>

definition Lock_send :: "localLock \<Rightarrow> localLock option" where
  "Lock_send lk = (if lk_held lk then None else Some (lk\<lparr>lk_held := True\<rparr>))"

text \<open>The timer's and the cancel's \<^verbatim>\<open>select { case <-lk.ch: default: }\<close>.\<close>

definition Lock_drain :: "localLock \<Rightarrow> localLock" where
  "Lock_drain lk = lk\<lparr>lk_held := False\<rparr>"

section \<open>Registry\<close>

definition RegistrySet :: "bool \<Rightarrow> string \<Rightarrow> string \<Rightarrow> string \<Rightarrow> LocalBus \<Rightarrow> bus_error option \<times> LocalBus" where
  "RegistrySet done ns key value b =
     (if done then (Some ErrCtx, b)
      else if b_closed b then (Some ErrClosed, b)
      else if value = [] then
        (None, b\<lparr>b_registry :=
          (case mget (b_registry b) ns of
             None \<Rightarrow> b_registry b
           | Some m \<Rightarrow> (let m = mdel key m in if m = [] then mdel ns (b_registry b) else mput ns m (b_registry b)))\<rparr>)
      else (None, b\<lparr>b_registry := put2 ns key value (b_registry b)\<rparr>))"

definition RegistryGet :: "bool \<Rightarrow> string \<Rightarrow> string \<Rightarrow> LocalBus \<Rightarrow> bus_error + string" where
  "RegistryGet done ns key b =
     (if done then Inl ErrCtx
      else if b_closed b then Inl ErrClosed
      else case mget (b_registry b) ns of
             None \<Rightarrow> Inl ErrNotFound
           | Some m \<Rightarrow> (case mget m key of None \<Rightarrow> Inl ErrNotFound | Some v \<Rightarrow> Inr v))"

definition RegistryList :: "bool \<Rightarrow> string \<Rightarrow> LocalBus \<Rightarrow> bus_error + (string, string) gomap" where
  "RegistryList done ns b =
     (if done then Inl ErrCtx
      else if b_closed b then Inl ErrClosed
      else Inr (inner (b_registry b) ns))"

definition RegistryDelete :: "bool \<Rightarrow> string \<Rightarrow> string \<Rightarrow> LocalBus \<Rightarrow> bus_error option \<times> LocalBus" where
  "RegistryDelete done ns key b = RegistrySet done ns key [] b"

text \<open>\<^verbatim>\<open>m[key]\<close> of an absent key is the empty value (lease.go).\<close>

definition RegistryCompareAndDelete :: "bool \<Rightarrow> string \<Rightarrow> string \<Rightarrow> string \<Rightarrow> LocalBus \<Rightarrow> (bus_error + bool) \<times> LocalBus" where
  "RegistryCompareAndDelete done ns key expect b =
     (if done then (Inl ErrCtx, b)
      else if b_closed b then (Inl ErrClosed, b)
      else case mget (b_registry b) ns of
             None \<Rightarrow> (Inr False, b)
           | Some m \<Rightarrow>
               if (case mget m key of None \<Rightarrow> [] | Some v \<Rightarrow> v) \<noteq> expect then (Inr False, b)
               else (Inr True, b\<lparr>b_registry :=
                  (let m = mdel key m in if m = [] then mdel ns (b_registry b) else mput ns m (b_registry b))\<rparr>))"

section \<open>Counters\<close>

text \<open>\<^verbatim>\<open>atomic.Int64.Add\<close> wraps at 64 bits; the result is read as a signed number.\<close>

definition CoordIncr :: "instant \<Rightarrow> string \<Rightarrow> duration \<Rightarrow> LocalBus \<Rightarrow> (bus_error + int) \<times> LocalBus" where
  "CoordIncr now key ttl b =
     (if b_closed b then (Inl ErrClosed, b)
      else let w = (case mget (b_counters b) key of
                      Some w \<Rightarrow> if now > cw_expiresAt w then \<lparr>cw_val = 0, cw_expiresAt = now + ttl\<rparr> else w
                    | None \<Rightarrow> \<lparr>cw_val = 0, cw_expiresAt = now + ttl\<rparr>);
               w = w\<lparr>cw_val := cw_val w + 1\<rparr>
           in (Inr (sint (cw_val w)), b\<lparr>b_counters := mput key w (b_counters b)\<rparr>))"

section \<open>Logs\<close>

definition LogAppend :: "bool \<Rightarrow> string \<Rightarrow> string \<Rightarrow> LocalBus \<Rightarrow> (bus_error + int) \<times> LocalBus" where
  "LogAppend done ns value b =
     (if done then (Inl ErrCtx, b)
      else if b_closed b then (Inl ErrClosed, b)
      else (Inr (int (length (mlist (b_logs b) ns))), b\<lparr>b_logs := mpush ns value (b_logs b)\<rparr>))"

text \<open>The entries and the next cursor come back even when there is an error.\<close>

definition LogRead :: "bool \<Rightarrow> string \<Rightarrow> int \<Rightarrow> int \<Rightarrow> LocalBus \<Rightarrow> string list \<times> int \<times> bus_error option" where
  "LogRead done ns cursor limit b =
     (if done then ([], cursor, Some ErrCtx)
      else let limit = (if limit \<le> 0 then 100 else limit)
           in if b_closed b then ([], cursor, Some ErrClosed)
              else let entries = mlist (b_logs b) ns;
                       cursor = (if cursor < 0 then 0 else cursor)
                   in if cursor > int (length entries) then ([], cursor, Some ErrLogCursorStale)
                      else if cursor = int (length entries) then ([], cursor, None)
                      else let end = cursor + limit;
                               end = (if end > int (length entries) then int (length entries) else end)
                           in (Prelude.slice (nat cursor) (nat end) entries, end, None))"

definition LogPurge :: "bool \<Rightarrow> string \<Rightarrow> LocalBus \<Rightarrow> bus_error option \<times> LocalBus" where
  "LogPurge done ns b =
     (if done then (Some ErrCtx, b)
      else if b_closed b then (Some ErrClosed, b)
      else (None, b\<lparr>b_logs := mdel ns (b_logs b)\<rparr>))"

definition LogTrim :: "bool \<Rightarrow> string \<Rightarrow> int \<Rightarrow> LocalBus \<Rightarrow> bus_error option \<times> LocalBus" where
  "LogTrim done ns keep b =
     (if done then (Some ErrCtx, b)
      else let keep = (if keep \<le> 0 then 1 else keep)
           in if b_closed b then (Some ErrClosed, b)
              else let entries = mlist (b_logs b) ns
                   in if int (length entries) \<le> keep then (None, b)
                      else (None, b\<lparr>b_logs := mput ns (drop (length entries - nat keep) entries) (b_logs b)\<rparr>))"

text \<open>A reader of one log on an open bus.\<close>

lemma LogAppend_open:
  "\<not> b_closed b \<Longrightarrow> \<not> b_closed (snd (LogAppend False ns v b)) \<and>
    mlist (b_logs (snd (LogAppend False ns v b))) ns' =
      (if ns' = ns then mlist (b_logs b) ns @ [v] else mlist (b_logs b) ns')"
  by (simp add: LogAppend_def gomap_simps)

lemma LogRead_open:
  assumes "\<not> b_closed b" and "0 \<le> c" and "c \<le> int (length (mlist (b_logs b) ns))"
  shows "\<exists>m \<ge> nat c. m \<le> length (mlist (b_logs b) ns) \<and>
      LogRead False ns c n b = (Prelude.slice (nat c) m (mlist (b_logs b) ns), int m, None) \<and>
      (c < int (length (mlist (b_logs b) ns)) \<longrightarrow> nat c < m)"
proof -
  define k where "k = (if n \<le> 0 then 100 else n)"
  define m where "m = nat (if c + k > int (length (mlist (b_logs b) ns)) then int (length (mlist (b_logs b) ns)) else c + k)"
  have "k > 0" by (simp add: k_def)
  then show ?thesis
    using assms by (intro exI [of _ m]) (auto simp: m_def LogRead_def Let_def k_def [symmetric] Prelude.slice_def)
qed

end
