(* ===== verification/Bus_Queue.thy ===== *)
theory Bus_Queue
  imports Bus_Coord
begin

text \<open>
  The blocking FIFO queue under concurrent pushes and pops: every interleaving of the atomic
  steps of \<open>push\<close> and \<open>pop\<close> by any number of producers and consumers.
\<close>

datatype consumer = Idle | Checking | Waiting | Returned string

record QueueWorld =
  qw_queue :: localQueue
  qw_notifying :: nat \<comment> \<open>pushes between their append and their notify\<close>
  qw_consumers :: "consumer list"
  qw_pushed :: "string list" \<comment> \<open>values in the order of their appends\<close>
  qw_popped :: "(nat \<times> string) list" \<comment> \<open>values taken, with the consumer, in order\<close>

datatype queue_action = QAppend string | QNotify | QCall nat | QCheck nat | QWake nat | QCancel nat

definition queue_init :: "nat \<Rightarrow> QueueWorld" where
  "queue_init n = \<lparr>qw_queue = newLocalQueue, qw_notifying = 0, qw_consumers = replicate n Idle,
     qw_pushed = [], qw_popped = []\<rparr>"

text \<open>The consumer's state, when there is such a consumer.\<close>

definition consumerIs :: "QueueWorld \<Rightarrow> nat \<Rightarrow> consumer \<Rightarrow> bool" where
  "consumerIs w i c \<longleftrightarrow> i < length (qw_consumers w) \<and> qw_consumers w ! i = c"

abbreviation setConsumer :: "nat \<Rightarrow> consumer \<Rightarrow> QueueWorld \<Rightarrow> QueueWorld" where
  "setConsumer i c w \<equiv> w\<lparr>qw_consumers := (qw_consumers w)[i := c]\<rparr>"

text \<open>A step that is not possible leaves the world as it is.\<close>

fun queue_step :: "QueueWorld \<Rightarrow> queue_action \<Rightarrow> QueueWorld" where
  "queue_step w (QAppend v) =
     w\<lparr>qw_queue := push_append v (qw_queue w), qw_notifying := qw_notifying w + 1, qw_pushed := qw_pushed w @ [v]\<rparr>"
| "queue_step w QNotify =
     (if qw_notifying w = 0 then w
      else w\<lparr>qw_queue := push_notify (qw_queue w), qw_notifying := qw_notifying w - 1\<rparr>)"
| "queue_step w (QCall i) =
     (if i < length (qw_consumers w) \<and> \<not> consumerIs w i Checking \<and> \<not> consumerIs w i Waiting
      then setConsumer i Checking w else w)"
| "queue_step w (QCheck i) =
     (if consumerIs w i Checking then
        case pop_check (qw_queue w) of
          (Some v, q) \<Rightarrow> setConsumer i (Returned v) (w\<lparr>qw_queue := q, qw_popped := qw_popped w @ [(i, v)]\<rparr>)
        | (None, q) \<Rightarrow> setConsumer i Waiting (w\<lparr>qw_queue := q\<rparr>)
      else w)"
| "queue_step w (QWake i) =
     (if consumerIs w i Waiting then
        case pop_wake (qw_queue w) of
          Some q \<Rightarrow> setConsumer i Checking (w\<lparr>qw_queue := q\<rparr>)
        | None \<Rightarrow> w
      else w)"
| "queue_step w (QCancel i) = (if consumerIs w i Waiting then setConsumer i Idle w else w)"

lemmas queue_defs = push_append_def push_notify_def pop_check_def pop_wake_def

text \<open>Values leave in the order they came, and none is lost or taken twice.\<close>

definition queue_conserves :: "QueueWorld \<Rightarrow> bool" where
  "queue_conserves w \<longleftrightarrow> map snd (qw_popped w) @ lq_items (qw_queue w) = qw_pushed w"

lemma queue_conserves_step: "queue_conserves w \<Longrightarrow> queue_conserves (queue_step w a)"
  by (cases a) (auto simp: queue_conserves_def queue_defs split: list.splits)

lemma queue_conserves_init: "queue_conserves (queue_init n)"
  by (simp add: queue_conserves_def queue_init_def newLocalQueue_def)

text \<open>What a consumer returned is the value recorded as taken by it last.\<close>

definition queue_hands_over :: "QueueWorld \<Rightarrow> bool" where
  "queue_hands_over w \<longleftrightarrow> (\<forall>i v. consumerIs w i (Returned v) \<longrightarrow> (i, v) \<in> set (qw_popped w))"

lemma queue_hands_over_step: "queue_hands_over w \<Longrightarrow> queue_hands_over (queue_step w a)"
  by (cases a) (auto simp: queue_hands_over_def consumerIs_def queue_defs nth_list_update
      split: list.splits if_splits)

lemma queue_hands_over_init: "queue_hands_over (queue_init n)"
  by (auto simp: queue_hands_over_def queue_init_def consumerIs_def)

text \<open>With one consumer a waiting pop always has a token, or a push about to give one, when there is a value.\<close>

definition queue_awake :: "QueueWorld \<Rightarrow> bool" where
  "queue_awake w \<longleftrightarrow> length (qw_consumers w) = 1 \<and>
     (consumerIs w 0 Waiting \<and> lq_items (qw_queue w) \<noteq> [] \<longrightarrow> lq_notify (qw_queue w) \<or> 0 < qw_notifying w)"

lemma queue_awake_step: "queue_awake w \<Longrightarrow> queue_awake (queue_step w a)"
  by (cases a) (auto simp: queue_awake_def consumerIs_def queue_defs nth_list_update
      split: list.splits if_splits)

lemma queue_awake_init: "queue_awake (queue_init 1)"
  by (simp add: queue_awake_def queue_init_def newLocalQueue_def)

text \<open>From there the pending notify, the wakeup and one check deliver the oldest value.\<close>

lemma queue_wakes:
  assumes "queue_awake w" and "consumerIs w 0 Waiting" and "lq_items (qw_queue w) \<noteq> []"
  shows "consumerIs (run_ops queue_step w [QNotify, QWake 0, QCheck 0]) 0 (Returned (hd (lq_items (qw_queue w))))"
  using assms by (cases "lq_items (qw_queue w)") (auto simp: queue_awake_def consumerIs_def queue_defs)

end
