(* ===== verification/Bus_Lease.thy ===== *)
theory Bus_Lease
  imports Bus_Core
begin

text \<open>
  Fencing leases of the in-process bus (messagebus/lease.go).  AcquireLease draws its token from
  an atomic counter before it takes the bus mutex, and the reaper timer fires before its function
  gets the mutex; both gaps are steps of their own here, so every interleaving of callers and
  timers is a sequence of actions.
\<close>

section \<open>Operations\<close>

text \<open>\<^verbatim>\<open>fences.LoadOrStore(key, &atomic.Uint64{})\<close> followed by \<^verbatim>\<open>fence.Add(1)\<close>.\<close>

definition fenceOf :: "LocalBus \<Rightarrow> string \<Rightarrow> 64 word" where
  "fenceOf b key = (case mget (b_fences b) key of None \<Rightarrow> 0 | Some v \<Rightarrow> v)"

definition AcquireLease_draw :: "bool \<Rightarrow> string \<Rightarrow> LocalBus \<Rightarrow> (bus_error + 64 word) \<times> LocalBus" where
  "AcquireLease_draw done key b =
     (if done then (Inl ErrCtx, b)
      else let token = fenceOf b key + 1
           in (Inr token, b\<lparr>b_fences := mput key token (b_fences b)\<rparr>))"

text \<open>The part under the mutex; the clock is read for the check and again for the expiry.\<close>

definition AcquireLease_grant ::
  "instant \<Rightarrow> instant \<Rightarrow> string \<Rightarrow> string \<Rightarrow> duration \<Rightarrow> 64 word \<Rightarrow> LocalBus \<Rightarrow> (bus_error + Lease_bus) \<times> LocalBus" where
  "AcquireLease_grant now now' key owner ttl token b =
     (if b_closed b then (Inl ErrClosed, b)
      else if (case mget (b_leases b) key of Some cur \<Rightarrow> now < ll_expires cur | None \<Rightarrow> False)
      then (Inl ErrLeaseHeld_bus, b)
      else let l = \<lparr>ls_Key = key, ls_Owner = owner, ls_Token = token, ls_Expires = now' + ttl\<rparr>;
               rec = \<lparr>ll_lease = l, ll_expires = ls_Expires l, ll_timer = (ttl > 0)\<rparr>
           in (Inr l, b\<lparr>b_leases := mput key rec (b_leases b)\<rparr>))"

text \<open>The token-gated delete of the reaper and of the cancel function.\<close>

definition dropLease :: "string \<Rightarrow> 64 word \<Rightarrow> LocalBus \<Rightarrow> LocalBus" where
  "dropLease key token b =
     (case mget (b_leases b) key of
        None \<Rightarrow> b
      | Some cur \<Rightarrow> if ls_Token (ll_lease cur) = token then b\<lparr>b_leases := mdel key (b_leases b)\<rparr> else b)"

definition RenewLease ::
  "instant \<Rightarrow> instant \<Rightarrow> string \<Rightarrow> Lease_bus \<Rightarrow> duration \<Rightarrow> LocalBus \<Rightarrow> (bus_error + Lease_bus) \<times> LocalBus" where
  "RenewLease now now' key l ttl b =
     (if b_closed b then (Inl ErrClosed, b)
      else case mget (b_leases b) key of
             None \<Rightarrow> (Inl ErrLeaseLost, b)
           | Some cur \<Rightarrow>
               if ls_Token (ll_lease cur) \<noteq> ls_Token l \<or> ls_Owner (ll_lease cur) \<noteq> ls_Owner l \<or>
                 \<not> now < ll_expires cur
               then (Inl ErrLeaseLost, b)
               else (Inr (l\<lparr>ls_Expires := now' + ttl\<rparr>),
                     b\<lparr>b_leases := mput key (cur\<lparr>ll_expires := now' + ttl\<rparr>) (b_leases b)\<rparr>))"

section \<open>Interleavings\<close>

record FenceWorld =
  lw_bus :: LocalBus
  lw_now :: instant
  lw_drawn :: "(string \<times> string \<times> duration \<times> 64 word) list" \<comment> \<open>calls past the draw: key, owner, ttl, token\<close>
  lw_timers :: "(string \<times> 64 word, instant) gomap" \<comment> \<open>armed reapers with their deadline\<close>
  lw_fired :: "(string \<times> 64 word) list" \<comment> \<open>reapers that fired and wait for the mutex\<close>
  lw_issued :: "(string \<times> 64 word) list" \<comment> \<open>tokens drawn\<close>
  lw_granted :: "(string \<times> 64 word) list" \<comment> \<open>leases granted, in order\<close>
  lw_released :: "(string \<times> 64 word) list" \<comment> \<open>cancel functions that ran\<close>

definition fence_init :: FenceWorld where
  "fence_init = \<lparr>lw_bus = NewLocalBus, lw_now = 0, lw_drawn = [], lw_timers = [], lw_fired = [],
     lw_issued = [], lw_granted = [], lw_released = []\<rparr>"

text \<open>
  In a grant or renewal the clock moves by \<open>d\<close> between its two readings; in a renewal the old timer
  may fire meanwhile.  A renewal is tried with any lease value, also a stale one.
\<close>

datatype fence_action =
    LTick nat
  | LDraw string string duration
  | LGrant nat nat
  | LRenew string Lease_bus duration nat bool
  | LFire string "64 word"
  | LReap string "64 word"
  | LCancel string "64 word"

definition drawnAt :: "(string \<times> string \<times> duration \<times> 64 word) \<Rightarrow> string \<times> 64 word" where
  "drawnAt c = (case c of (key, _, _, token) \<Rightarrow> (key, token))"

definition dropNth :: "nat \<Rightarrow> 'a list \<Rightarrow> 'a list" where
  "dropNth i xs = take i xs @ drop (Suc i) xs"

fun fence_step :: "FenceWorld \<Rightarrow> fence_action \<Rightarrow> FenceWorld" where
  "fence_step w (LTick d) = w\<lparr>lw_now := lw_now w + int d\<rparr>"
| "fence_step w (LDraw key owner ttl) =
     (case AcquireLease_draw False key (lw_bus w) of
        (Inl _, _) \<Rightarrow> w
      | (Inr t, b) \<Rightarrow> w\<lparr>lw_bus := b, lw_drawn := lw_drawn w @ [(key, owner, ttl, t)],
                        lw_issued := lw_issued w @ [(key, t)]\<rparr>)"
| "fence_step w (LGrant i d) =
     (if i < length (lw_drawn w) then
        case lw_drawn w ! i of (key, owner, ttl, t) \<Rightarrow>
          let w = w\<lparr>lw_drawn := dropNth i (lw_drawn w), lw_now := lw_now w + int d\<rparr>
          in case AcquireLease_grant (lw_now w - int d) (lw_now w) key owner ttl t (lw_bus w) of
               (Inl _, b) \<Rightarrow> w\<lparr>lw_bus := b\<rparr>
             | (Inr l, b) \<Rightarrow> w\<lparr>lw_bus := b, lw_granted := lw_granted w @ [(key, t)],
                 lw_timers := (if ttl > 0 then mput (key, t) (lw_now w + ttl) (lw_timers w) else lw_timers w)\<rparr>
      else w)"
| "fence_step w (LRenew key l ttl d fires) =
     (let t = (key, ls_Token l); now = lw_now w; w = w\<lparr>lw_now := lw_now w + int d\<rparr>
      in case RenewLease now (lw_now w) key l ttl (lw_bus w) of
           (Inl _, b) \<Rightarrow> w\<lparr>lw_bus := b\<rparr>
         | (Inr _, b) \<Rightarrow>
             let early = (case mget (lw_timers w) t of Some dl \<Rightarrow> fires \<and> dl \<le> lw_now w | None \<Rightarrow> False);
                 timed = (case mget (b_leases b) key of Some cur \<Rightarrow> ll_timer cur | None \<Rightarrow> False)
             in w\<lparr>lw_bus := b, lw_fired := (if early then t # lw_fired w else lw_fired w),
                  lw_timers := (if timed then mput t (lw_now w + ttl) (lw_timers w) else lw_timers w)\<rparr>)"
| "fence_step w (LFire key t) =
     (case mget (lw_timers w) (key, t) of
        Some dl \<Rightarrow> if dl \<le> lw_now w
          then w\<lparr>lw_timers := mdel (key, t) (lw_timers w), lw_fired := (key, t) # lw_fired w\<rparr> else w
      | None \<Rightarrow> w)"
| "fence_step w (LReap key t) =
     (if (key, t) \<in> set (lw_fired w)
      then w\<lparr>lw_bus := dropLease key t (lw_bus w), lw_fired := remove1 (key, t) (lw_fired w)\<rparr> else w)"
| "fence_step w (LCancel key t) =
     (if (key, t) \<in> set (lw_granted w) \<and> (key, t) \<notin> set (lw_released w)
      then w\<lparr>lw_bus := dropLease key t (lw_bus w), lw_timers := mdel (key, t) (lw_timers w),
             lw_released := (key, t) # lw_released w\<rparr> else w)"

definition fence_run :: "FenceWorld \<Rightarrow> fence_action list \<Rightarrow> FenceWorld" where
  "fence_run = run_ops fence_step"

section \<open>Tokens\<close>

definition drawCount :: "FenceWorld \<Rightarrow> string \<Rightarrow> nat" where
  "drawCount w key = length (filter (\<lambda>(k, _). k = key) (lw_issued w))"

definition tokens_ok :: "FenceWorld \<Rightarrow> bool" where
  "tokens_ok w \<longleftrightarrow>
     (\<forall>key. fenceOf (lw_bus w) key = of_nat (drawCount w key)) \<and>
     (\<forall>(key, t) \<in> set (lw_issued w). \<exists>n. 1 \<le> n \<and> n \<le> drawCount w key \<and> t = of_nat n) \<and>
     distinct (lw_issued w)"

definition calls_ok :: "FenceWorld \<Rightarrow> bool" where
  "calls_ok w \<longleftrightarrow>
     distinct (lw_granted w @ map drawnAt (lw_drawn w)) \<and>
     set (lw_granted w @ map drawnAt (lw_drawn w)) \<subseteq> set (lw_issued w)"

text \<open>Timers and records belong to granted leases, and no timer is due before the lease expires.\<close>

definition timers_ok :: "FenceWorld \<Rightarrow> bool" where
  "timers_ok w \<longleftrightarrow>
     \<not> b_closed (lw_bus w) \<and>
     (\<forall>kt dl. mget (lw_timers w) kt = Some dl \<longrightarrow> kt \<in> set (lw_granted w)) \<and>
     (\<forall>key r. mget (b_leases (lw_bus w)) key = Some r \<longrightarrow>
        (key, ls_Token (ll_lease r)) \<in> set (lw_granted w) \<and>
        (\<forall>dl. mget (lw_timers w) (key, ls_Token (ll_lease r)) = Some dl \<longrightarrow> ll_timer r \<and> ll_expires r \<le> dl))"

lemma set_dropNth: "set (dropNth i xs) \<subseteq> set xs"
  unfolding dropNth_def by (auto dest: in_set_takeD in_set_dropD)

lemma dropNth_split:
  assumes "i < length xs" and "distinct (gs @ map f xs)"
  shows "distinct (gs @ map f (dropNth i xs))" "f (xs ! i) \<notin> set gs" "f (xs ! i) \<notin> set (map f (dropNth i xs))"
proof -
  have xs: "xs = take i xs @ xs ! i # drop (Suc i) xs" by (rule id_take_nth_drop [OF assms(1)])
  have d: "distinct (gs @ map f (take i xs) @ f (xs ! i) # map f (drop (Suc i) xs))"
    using assms(2) by (subst (asm) xs) simp
  then show "distinct (gs @ map f (dropNth i xs))" "f (xs ! i) \<notin> set gs" "f (xs ! i) \<notin> set (map f (dropNth i xs))"
    by (auto simp: dropNth_def)
qed

lemma tokens_ok_draw:
  assumes ok: "tokens_ok w" and bound: "length (lw_issued w) < 2 ^ 64 - 1"
  shows "tokens_ok (fence_step w (LDraw key owner ttl))"
    and "(key, fenceOf (lw_bus w) key + 1) \<notin> set (lw_issued w)"
proof -
  let ?n = "drawCount w key"
  have n: "?n \<le> length (lw_issued w)" by (simp add: drawCount_def)
  have t: "fenceOf (lw_bus w) key + 1 = of_nat (Suc ?n)" using ok by (simp add: tokens_ok_def)
  show new: "(key, fenceOf (lw_bus w) key + 1) \<notin> set (lw_issued w)"
  proof
    assume "(key, fenceOf (lw_bus w) key + 1) \<in> set (lw_issued w)"
    with ok obtain m where m: "m \<le> ?n" "of_nat (Suc ?n) = (of_nat m :: 64 word)"
      unfolding tokens_ok_def t by fastforce
    have "unat (of_nat (Suc ?n) :: 64 word) = Suc ?n" "unat (of_nat m :: 64 word) = m"
      using bound n m(1) by (simp_all add: unat_of_nat take_bit_nat_eq_self del: of_nat_Suc)
    with m show False by simp
  qed
  let ?w = "fence_step w (LDraw key owner ttl)"
  have w: "lw_issued ?w = lw_issued w @ [(key, of_nat (Suc ?n))]"
    "b_fences (lw_bus ?w) = mput key (of_nat (Suc ?n)) (b_fences (lw_bus w))"
    using t by (simp_all add: AcquireLease_draw_def Let_def add.commute)
  have count: "drawCount ?w k = (if k = key then Suc ?n else drawCount w k)" for k
    unfolding drawCount_def w(1) by simp
  have "fenceOf (lw_bus ?w) k = of_nat (drawCount ?w k)" for k
  proof (cases "k = key")
    case False
    then have "fenceOf (lw_bus ?w) k = fenceOf (lw_bus w) k" by (simp add: fenceOf_def w(2) gomap_simps del: fence_step.simps)
    then show ?thesis using ok False count by (simp add: tokens_ok_def del: fence_step.simps)
  qed (simp add: fenceOf_def w(2) gomap_simps count del: fence_step.simps)
  moreover have "\<exists>n. 1 \<le> n \<and> n \<le> drawCount ?w k \<and> x = of_nat n" if "(k, x) \<in> set (lw_issued ?w)" for k x
  proof (cases "(k, x) = (key, of_nat (Suc ?n))")
    case True
    then show ?thesis by (intro exI [of _ "Suc ?n"]) (simp add: count del: fence_step.simps)
  next
    case False
    then have "(k, x) \<in> set (lw_issued w)" using that w(1) by auto
    with ok obtain n where "1 \<le> n" "n \<le> drawCount w k" "x = of_nat n"
      unfolding tokens_ok_def by fastforce
    then show ?thesis using count by (intro exI [of _ n]) auto
  qed
  moreover have "distinct (lw_issued ?w)"
    using ok new unfolding w(1) t by (simp add: tokens_ok_def)
  ultimately show "tokens_ok ?w" unfolding tokens_ok_def by blast
qed

lemma tokens_ok_other:
  assumes "tokens_ok w" and "\<forall>k o' t. a \<noteq> LDraw k o' t"
  shows "tokens_ok (fence_step w a) \<and> lw_issued (fence_step w a) = lw_issued w"
proof -
  have "b_fences (lw_bus (fence_step w a)) = b_fences (lw_bus w) \<and> lw_issued (fence_step w a) = lw_issued w"
    using assms(2)
    by (cases a) (auto simp: AcquireLease_grant_def RenewLease_def dropLease_def Let_def
        split: prod.splits option.splits if_splits sum.splits)
  then show ?thesis using assms(1) by (simp add: tokens_ok_def fenceOf_def drawCount_def)
qed

lemma calls_ok_step:
  assumes ok: "calls_ok w" and tok: "tokens_ok w" and bound: "length (lw_issued w) < 2 ^ 64 - 1"
  shows "calls_ok (fence_step w a)"
proof (cases a)
  case (LDraw key owner ttl)
  have "(key, fenceOf (lw_bus w) key + 1) \<notin> set (lw_issued w)" by (rule tokens_ok_draw(2) [OF tok bound])
  then show ?thesis using ok LDraw by (auto simp: calls_ok_def AcquireLease_draw_def Let_def drawnAt_def)
next
  case (LGrant i d)
  show ?thesis
  proof (cases "i < length (lw_drawn w)")
    case True
    obtain key owner ttl t where c: "lw_drawn w ! i = (key, owner, ttl, t)" by (metis prod_cases4)
    note s = dropNth_split [OF True, of "lw_granted w" drawnAt]
    have "drawnAt (lw_drawn w ! i) \<in> set (map drawnAt (lw_drawn w))" using True by simp
    then have "(key, t) \<in> set (lw_issued w)" using ok c by (auto simp: calls_ok_def drawnAt_def)
    moreover have "set (map drawnAt (dropNth i (lw_drawn w))) \<subseteq> set (lw_issued w)"
      using image_mono [OF set_dropNth [of i "lw_drawn w"], of drawnAt] ok
      unfolding calls_ok_def set_append set_map by (meson Un_subset_iff order_trans)
    moreover obtain res b where "AcquireLease_grant (lw_now w) (lw_now w + int d) key owner ttl t (lw_bus w) = (res, b)"
      by fastforce
    moreover have "drawnAt (lw_drawn w ! i) = (key, t)" by (simp add: c drawnAt_def)
    ultimately show ?thesis
      using ok s c True LGrant by (cases res) (simp_all add: calls_ok_def Let_def)
  qed (use ok LGrant in simp)
qed (use ok in \<open>auto simp: calls_ok_def Let_def split: prod.splits option.splits sum.splits\<close>)

lemma dropLease_get:
  "mget (b_leases (dropLease key t b)) k =
    (if k = key \<and> (\<exists>r. mget (b_leases b) key = Some r \<and> ls_Token (ll_lease r) = t) then None
     else mget (b_leases b) k)"
  by (auto simp: dropLease_def gomap_simps split: option.splits)

lemma dropLease_open [simp]: "b_closed (dropLease key t b) = b_closed b"
  by (simp add: dropLease_def split: option.splits)

lemma timers_ok_grant:
  assumes ok: "timers_ok w" and calls: "calls_ok w"
  shows "timers_ok (fence_step w (LGrant i d))"
proof (cases "i < length (lw_drawn w)")
  case True
  obtain key owner ttl t where c: "lw_drawn w ! i = (key, owner, ttl, t)" by (metis prod_cases4)
  have "distinct (lw_granted w @ map drawnAt (lw_drawn w))" using calls by (simp add: calls_ok_def)
  from dropNth_split(2) [OF True this] have new: "(key, t) \<notin> set (lw_granted w)"
    by (simp add: c drawnAt_def)
  obtain res b where g: "AcquireLease_grant (lw_now w) (lw_now w + int d) key owner ttl t (lw_bus w) = (res, b)"
    by fastforce
  show ?thesis
  proof (cases res)
    case (Inl e)
    then have "b = lw_bus w" using g by (auto simp: AcquireLease_grant_def Let_def split: if_splits)
    then show ?thesis using ok g c True Inl by (simp add: timers_ok_def Let_def)
  next
    case (Inr l)
    then have "b = (lw_bus w)\<lparr>b_leases := mput key
        \<lparr>ll_lease = \<lparr>ls_Key = key, ls_Owner = owner, ls_Token = t, ls_Expires = lw_now w + int d + ttl\<rparr>,
         ll_expires = lw_now w + int d + ttl, ll_timer = (ttl > 0)\<rparr> (b_leases (lw_bus w))\<rparr>"
      using g by (auto simp: AcquireLease_grant_def Let_def split: if_splits)
    then show ?thesis using ok g c True Inr new by (fastforce simp: timers_ok_def Let_def gomap_simps)
  qed
qed (use ok in simp)

lemma timers_ok_extend:
  assumes ok: "timers_ok w" and cur: "mget (b_leases (lw_bus w)) key = Some cur"
    and w': "lw_bus w' = (lw_bus w)\<lparr>b_leases := mput key (cur\<lparr>ll_expires := e\<rparr>) (b_leases (lw_bus w))\<rparr>"
      "lw_granted w' = lw_granted w"
      "lw_timers w' = (if ll_timer cur then mput (key, ls_Token (ll_lease cur)) e (lw_timers w) else lw_timers w)"
  shows "timers_ok w'"
proof -
  have c: "(key, ls_Token (ll_lease cur)) \<in> set (lw_granted w)"
    "mget (lw_timers w) (key, ls_Token (ll_lease cur)) = Some dl \<Longrightarrow> ll_timer cur" for dl
    using ok cur unfolding timers_ok_def by blast+
  have g: "mget (lw_timers w') kt = Some dl \<Longrightarrow> kt \<in> set (lw_granted w')" for kt dl
    using ok c(1) w'(2,3) unfolding timers_ok_def by (cases kt) (auto simp: gomap_simps split: if_splits)
  have "(k, ls_Token (ll_lease r)) \<in> set (lw_granted w') \<and>
      (\<forall>dl. mget (lw_timers w') (k, ls_Token (ll_lease r)) = Some dl \<longrightarrow> ll_timer r \<and> ll_expires r \<le> dl)"
    if "mget (b_leases (lw_bus w')) k = Some r" for k r
  proof (cases "k = key")
    case True
    then have "r = cur\<lparr>ll_expires := e\<rparr>" using that w'(1) by (simp add: gomap_simps)
    moreover have "mget (lw_timers w) (key, ls_Token (ll_lease cur)) = None" if "\<not> ll_timer cur"
      using c(2) that by fastforce
    ultimately show ?thesis using True c(1) w'(2,3) by (auto simp: gomap_simps split: if_splits)
  next
    case False
    then have "mget (b_leases (lw_bus w)) k = Some r" using that w'(1) by (simp add: gomap_simps)
    moreover have "mget (lw_timers w') (k, x) = mget (lw_timers w) (k, x)" for x
      using False w'(3) by (simp add: gomap_simps)
    ultimately show ?thesis using ok w'(2) unfolding timers_ok_def by simp
  qed
  then show ?thesis using ok w'(1) g unfolding timers_ok_def by simp
qed

lemma timers_ok_renew:
  assumes ok: "timers_ok w"
  shows "timers_ok (fence_step w (LRenew key l ttl d fires))"
proof -
  obtain res b where g: "RenewLease (lw_now w) (lw_now w + int d) key l ttl (lw_bus w) = (res, b)"
    by fastforce
  show ?thesis
  proof (cases res)
    case (Inl e)
    then have "b = lw_bus w" using g by (auto simp: RenewLease_def split: if_splits option.splits)
    then show ?thesis using ok g Inl by (simp add: timers_ok_def Let_def)
  next
    case (Inr l')
    then obtain cur where cur: "mget (b_leases (lw_bus w)) key = Some cur" "ls_Token (ll_lease cur) = ls_Token l"
      "b = (lw_bus w)\<lparr>b_leases := mput key (cur\<lparr>ll_expires := lw_now w + int d + ttl\<rparr>) (b_leases (lw_bus w))\<rparr>"
      using g by (auto simp: RenewLease_def split: if_splits option.splits)
    have "lw_bus (fence_step w (LRenew key l ttl d fires)) = b"
      "lw_granted (fence_step w (LRenew key l ttl d fires)) = lw_granted w"
      "lw_timers (fence_step w (LRenew key l ttl d fires)) =
        (if ll_timer cur then mput (key, ls_Token l) (lw_now w + int d + ttl) (lw_timers w) else lw_timers w)"
      using g Inr cur by (simp_all add: Let_def gomap_simps)
    then show ?thesis by (intro timers_ok_extend [OF ok cur(1), where e = "lw_now w + int d + ttl"]) (simp_all add: cur(2,3) del: fence_step.simps)
  qed
qed

lemma timers_ok_step: "timers_ok w \<Longrightarrow> calls_ok w \<Longrightarrow> timers_ok (fence_step w a)"
proof (cases a)
  case (LDraw key owner ttl)
  assume "timers_ok w"
  then show ?thesis by (simp add: LDraw timers_ok_def AcquireLease_draw_def Let_def)
next
  case (LFire key t)
  assume "timers_ok w"
  then show ?thesis by (auto simp: LFire timers_ok_def gomap_simps split: option.splits)
next
  case (LReap key t)
  assume "timers_ok w"
  then show ?thesis by (auto simp: LReap timers_ok_def dropLease_get)
next
  case (LCancel key t)
  assume "timers_ok w"
  then show ?thesis by (auto simp: LCancel timers_ok_def dropLease_get gomap_simps)
qed (simp_all add: timers_ok_grant timers_ok_renew timers_ok_def [of "_\<lparr>lw_now := _\<rparr>"] timers_ok_def [of w]
    del: fence_step.simps(3,4))

lemma issued_step: "length (lw_issued w) \<le> length (lw_issued (fence_step w a)) \<and>
  length (lw_issued (fence_step w a)) \<le> Suc (length (lw_issued w))"
proof (cases "\<exists>k o' t. a = LDraw k o' t")
  case False
  then have "lw_issued (fence_step w a) = lw_issued w"
    by (cases a) (auto simp: Let_def split: prod.splits option.splits if_splits sum.splits)
  then show ?thesis by simp
qed (auto simp: AcquireLease_draw_def Let_def)

definition fence_inv :: "FenceWorld \<Rightarrow> bool" where
  "fence_inv w \<longleftrightarrow> tokens_ok w \<and> calls_ok w \<and> timers_ok w"

lemma fence_inv_init: "fence_inv fence_init"
  by (simp add: fence_inv_def tokens_ok_def calls_ok_def timers_ok_def fence_init_def NewLocalBus_def
      fenceOf_def drawCount_def)

lemma fence_inv_step:
  assumes "fence_inv w" and "length (lw_issued w) < 2 ^ 64 - 1"
  shows "fence_inv (fence_step w a)"
  using assms tokens_ok_draw(1) [of w] tokens_ok_other [of w a] calls_ok_step [of w a] timers_ok_step [of w a]
  unfolding fence_inv_def by (cases a) blast+

text \<open>Runs of fewer than \<open>2 ^ 64\<close> steps draw fewer tokens than the counter can count.\<close>

lemma fence_inv_run:
  assumes "fence_inv w" and "length (lw_issued w) + length ops < 2 ^ 64"
  shows "fence_inv (fence_run w ops) \<and> length (lw_issued (fence_run w ops)) \<le> length (lw_issued w) + length ops"
  using assms
proof (induction ops arbitrary: w)
  case (Cons a ops)
  then have "fence_inv (fence_step w a)" using fence_inv_step by simp
  then show ?case using Cons.IH [of "fence_step w a"] Cons.prems(2) issued_step [of w a]
    by (simp add: fence_run_def)
qed (simp add: fence_run_def)

section \<open>A lease that does not lapse\<close>

text \<open>
  Along the actions, the record of \<open>key\<close> is still unexpired when each action is over, and its
  holder does not release it.
\<close>

fun keepsAlive :: "string \<Rightarrow> FenceWorld \<Rightarrow> fence_action list \<Rightarrow> bool" where
  "keepsAlive key w [] = True"
| "keepsAlive key w (a # ops) =
     ((case mget (b_leases (lw_bus w)) key of
         None \<Rightarrow> True
       | Some r \<Rightarrow> lw_now (fence_step w a) < ll_expires r \<and> a \<noteq> LCancel key (ls_Token (ll_lease r))) \<and>
      keepsAlive key (fence_step w a) ops)"

text \<open>The lease: its owner and token.\<close>

definition holder :: "FenceWorld \<Rightarrow> string \<Rightarrow> (string \<times> 64 word) option" where
  "holder w key = map_option (\<lambda>r. (ls_Owner (ll_lease r), ls_Token (ll_lease r))) (mget (b_leases (lw_bus w)) key)"

definition reaperPending :: "FenceWorld \<Rightarrow> string \<Rightarrow> bool" where
  "reaperPending w key \<longleftrightarrow>
     (case mget (b_leases (lw_bus w)) key of None \<Rightarrow> False | Some r \<Rightarrow> (key, ls_Token (ll_lease r)) \<in> set (lw_fired w))"

lemma lw_now_step: "lw_now w \<le> lw_now (fence_step w a)"
  by (cases a) (auto simp: Let_def AcquireLease_draw_def split: prod.splits option.splits if_splits sum.splits)

lemma keeps_step:
  assumes ok: "timers_ok w" and h: "holder w key = Some (owner, t)" and p: "\<not> reaperPending w key"
    and alive: "keepsAlive key w [a]"
  shows "holder (fence_step w a) key = Some (owner, t) \<and> \<not> reaperPending (fence_step w a) key"
proof -
  from h obtain r where r: "mget (b_leases (lw_bus w)) key = Some r" "ls_Owner (ll_lease r) = owner"
    "ls_Token (ll_lease r) = t" by (auto simp: holder_def)
  have nf: "(key, t) \<notin> set (lw_fired w)" using p r by (simp add: reaperPending_def)
  have live: "lw_now (fence_step w a) < ll_expires r" "a \<noteq> LCancel key t" using alive r by simp_all
  have now: "lw_now w < ll_expires r" using lw_now_step [of w a] live(1) by simp
  have due: "ll_expires r \<le> dl" if "mget (lw_timers w) (key, t) = Some dl" for dl
    using ok r that unfolding timers_ok_def by blast
  have "\<exists>r'. mget (b_leases (lw_bus (fence_step w a))) key = Some r' \<and> ls_Owner (ll_lease r') = owner \<and>
      ls_Token (ll_lease r') = t \<and> (key, t) \<notin> set (lw_fired (fence_step w a))"
  proof (cases a)
    case (LGrant i d)
    show ?thesis
      using r nf now LGrant
      by (cases "i < length (lw_drawn w)")
        (auto simp: AcquireLease_grant_def Let_def gomap_simps split: prod.splits)
  next
    case (LRenew k l ttl d fires)
    then show ?thesis using r nf live(1) due
      by (auto simp: RenewLease_def Let_def gomap_simps split: option.splits if_splits)
  next
    case (LFire k x)
    then show ?thesis using r nf now due by (auto split: option.splits)
  qed (use r nf live(2) in \<open>auto simp: AcquireLease_draw_def Let_def dropLease_get dest: notin_set_remove1\<close>)
  then show ?thesis by (auto simp: holder_def reaperPending_def)
qed

lemma keeps_run:
  assumes "fence_inv w" and "length (lw_issued w) + length ops < 2 ^ 64"
    and "holder w key = Some (owner, t)" and "\<not> reaperPending w key" and "keepsAlive key w ops"
  shows "holder (fence_run w ops) key = Some (owner, t)"
  using assms
proof (induction ops arbitrary: w)
  case (Cons a ops)
  have "fence_inv (fence_step w a)" using fence_inv_step Cons.prems(1,2) by simp
  moreover have "holder (fence_step w a) key = Some (owner, t) \<and> \<not> reaperPending (fence_step w a) key"
    using keeps_step [of w key owner t a] Cons.prems by (simp add: fence_inv_def split: option.splits)
  ultimately show ?case
    using Cons.IH [of "fence_step w a"] Cons.prems(2,5) issued_step [of w a] by (simp add: fence_run_def)
qed (simp add: fence_run_def)

lemma granted_grows: "\<exists>gs. lw_granted (fence_step w a) = lw_granted w @ gs"
  by (cases a) (auto simp: Let_def AcquireLease_draw_def split: prod.splits option.splits if_splits sum.splits)

text \<open>While the lease is alive, another grant for its key is refused.\<close>

lemma keeps_out:
  assumes "mget (b_leases (lw_bus w)) key = Some r" and "lw_now w < ll_expires r"
  shows "AcquireLease_grant (lw_now w) now' key owner ttl t (lw_bus w) =
    (Inl (if b_closed (lw_bus w) then ErrClosed else ErrLeaseHeld_bus), lw_bus w)"
  using assms by (simp add: AcquireLease_grant_def)

end
