(* ===== verification/Plan_DAG.thy ===== *)
theory Plan_DAG
  imports Prelude
begin

text \<open>
  Plans as dependency graphs (plan/dag_executor.go, the data of plan/enhanced.go): validation,
  the batches of Kahn's algorithm, and the steps that are ready.  The order in which Go visits a
  map is the parameter \<open>ord\<close>.
\<close>

section \<open>Plans (enhanced.go)\<close>

datatype PlanState = PlanStateActive | PlanStateDone | PlanStateAbandoned

text \<open>The zero value of a subtask's state is the empty string.\<close>

datatype SubtaskState = SubtaskUnset | SubtaskTodo | SubtaskInProgress | SubtaskDone | SubtaskAbandoned

record Subtask =
  st_ID :: string
  st_Name :: string
  st_Description :: string
  st_ExpectedOutcome :: string
  st_State :: SubtaskState
  st_Outcome :: string
  st_Dependencies :: "string list"

record RichPlan =
  rp_ID :: string
  rp_Name :: string
  rp_Description :: string
  rp_ExpectedOutcome :: string
  rp_State :: PlanState
  rp_Subtasks :: "Subtask list"
  rp_CreatedAt :: instant
  rp_UpdatedAt :: instant

section \<open>Validation\<close>

datatype plan_error =
    NilPlan
  | NoSubtaskID nat
  | UnknownDependency string string
  | CycleDetected "string list"

text \<open>The map from a subtask's ID to its place: a later subtask with the same ID replaces an earlier one.\<close>

fun stepIndex :: "nat \<Rightarrow> Subtask list \<Rightarrow> (string, nat) gomap \<Rightarrow> plan_error + (string, nat) gomap" where
  "stepIndex i [] m = Inr m"
| "stepIndex i (s # ss) m =
     (if st_ID s = [] then Inl (NoSubtaskID i) else stepIndex (Suc i) ss (mput (st_ID s) i m))"

text \<open>The first dependency that names no subtask.\<close>

fun unknownIn :: "(string, 'a) gomap \<Rightarrow> string \<Rightarrow> string list \<Rightarrow> plan_error option" where
  "unknownIn m sid [] = None"
| "unknownIn m sid (d # ds) = (if mget m d = None then Some (UnknownDependency sid d) else unknownIn m sid ds)"

fun unknownDep :: "(string, 'a) gomap \<Rightarrow> Subtask list \<Rightarrow> plan_error option" where
  "unknownDep m [] = None"
| "unknownDep m (s # ss) =
     (case unknownIn m (st_ID s) (st_Dependencies s) of Some e \<Rightarrow> Some e | None \<Rightarrow> unknownDep m ss)"

section \<open>Kahn's algorithm\<close>

text \<open>A graph here: every step's ID with its dependencies, in the order the step map is visited.\<close>

type_synonym graph = "(string, string list) gomap"

definition initDegrees :: "graph \<Rightarrow> (string, int) gomap" where
  "initDegrees g = map (\<lambda>(i, deps). (i, int (length deps))) g"

text \<open>\<^verbatim>\<open>dependents[dep] = append(dependents[dep], id)\<close>\<close>

fun addDependents :: "string \<Rightarrow> string list \<Rightarrow> (string, string list) gomap \<Rightarrow> (string, string list) gomap" where
  "addDependents i [] m = m"
| "addDependents i (d # ds) m = addDependents i ds (mpush d i m)"

definition dependentsOf :: "graph \<Rightarrow> (string, string list) gomap" where
  "dependentsOf g = fold (\<lambda>(i, deps). addDependents i deps) g []"

text \<open>\<^verbatim>\<open>inDegree[dependent]--\<close>; an absent key counts as zero and is created.\<close>

definition decr :: "string \<Rightarrow> (string, int) gomap \<Rightarrow> (string, int) gomap" where
  "decr i m = mput i ((case mget m i of None \<Rightarrow> 0 | Some d \<Rightarrow> d) - 1) m"

definition release :: "(string, string list) gomap \<Rightarrow> string list \<Rightarrow> (string, int) gomap \<Rightarrow> (string, int) gomap" where
  "release dependents ready m = fold (\<lambda>i. fold decr (mlist dependents i)) ready m"

definition zeros :: "(string, int) gomap \<Rightarrow> string list" where
  "zeros m = map fst (filter (\<lambda>(_, d). d = 0) m)"

definition nonzeros :: "(string, int) gomap \<Rightarrow> (string, int) gomap" where
  "nonzeros m = filter (\<lambda>(_, d). d \<noteq> 0) m"

definition openCount :: "(string, int) gomap \<Rightarrow> nat" where
  "openCount m = length (filter (\<lambda>(_, d). 0 \<le> d) m)"

lemma openCount_decr: "openCount (decr i m) \<le> openCount m"
proof -
  have "openCount (mput i (c - 1) m) \<le> openCount m" if "mget m i = Some c \<or> mget m i = None \<and> c = 0" for c
    using that
  proof (induction m)
    case (Cons p m)
    then show ?case by (cases p) (auto simp: openCount_def split: if_splits)
  qed (simp add: openCount_def)
  then show ?thesis by (cases "mget m i") (simp_all add: decr_def)
qed

lemma openCount_release: "openCount (release dependents ready m) \<le> openCount m"
proof -
  have "openCount (fold decr ds m) \<le> openCount m" for ds m
    by (induction ds arbitrary: m) (auto intro: order_trans openCount_decr)
  then show ?thesis
    unfolding release_def by (induction ready arbitrary: m) (auto intro: order_trans)
qed

lemma openCount_nonzeros: "openCount m = length (zeros m) + openCount (nonzeros m)"
  by (induction m) (auto simp: openCount_def zeros_def nonzeros_def)

text \<open>
  The loop: take every step of degree zero as one batch, release their dependents, repeat until
  no step is ready.  It returns the batches and the degrees that are left.
\<close>

function kahn :: "(string list \<Rightarrow> string list) \<Rightarrow> (string, string list) gomap \<Rightarrow> (string, int) gomap \<Rightarrow>
    string list list \<Rightarrow> string list list \<times> (string, int) gomap" where
  "kahn ord dependents m batches =
     (if zeros m = [] then (batches, m)
      else let ready = ord (zeros m)
           in kahn ord dependents (release dependents ready (nonzeros m)) (batches @ [ready]))"
  by auto
termination
proof (relation "measure (\<lambda>(_, _, m, _). openCount m)", goal_cases)
  case (2 ord dependents m batches ready)
  have "0 < length (zeros m)" using 2 by simp
  then have "openCount (nonzeros m) < openCount m" using openCount_nonzeros [of m] by linarith
  then show ?case
    using openCount_release [of dependents ready "nonzeros m"] by simp
qed simp

declare kahn.simps [simp del]

definition topologicalSort :: "(string list \<Rightarrow> string list) \<Rightarrow> graph \<Rightarrow> plan_error + string list list" where
  "topologicalSort ord g =
     (let (batches, left) = kahn ord (dependentsOf g) (initDegrees g) []
      in if left \<noteq> [] then Inl (CycleDetected (ord (map fst left))) else Inr batches)"

text \<open>The graph of a plan, from its step map.\<close>

definition graphOf :: "RichPlan \<Rightarrow> (string, nat) gomap \<Rightarrow> graph" where
  "graphOf p steps = map (\<lambda>(i, k). (i, st_Dependencies (rp_Subtasks p ! k))) steps"

definition ValidateDAG :: "(string list \<Rightarrow> string list) \<Rightarrow> RichPlan option \<Rightarrow> plan_error option" where
  "ValidateDAG ord plan =
     (case plan of
        None \<Rightarrow> Some NilPlan
      | Some p \<Rightarrow>
          (case stepIndex 0 (rp_Subtasks p) [] of
             Inl e \<Rightarrow> Some e
           | Inr steps \<Rightarrow>
               (case unknownDep steps (rp_Subtasks p) of
                  Some e \<Rightarrow> Some e
                | None \<Rightarrow>
                    (case topologicalSort ord (graphOf p steps) of Inl e \<Rightarrow> Some e | Inr _ \<Rightarrow> None))))"

definition ReadySteps :: "RichPlan option \<Rightarrow> string list" where
  "ReadySteps plan =
     (case plan of
        None \<Rightarrow> []
      | Some p \<Rightarrow>
          let fin = map st_ID (filter (\<lambda>s. st_State s = SubtaskDone) (rp_Subtasks p))
          in map st_ID (filter (\<lambda>s. \<not> (st_State s = SubtaskDone \<or> st_State s = SubtaskInProgress) \<and>
               list_all (\<lambda>d. d \<in> set fin) (st_Dependencies s)) (rp_Subtasks p)))"

section \<open>The degrees count the open dependencies\<close>

definition known :: "graph \<Rightarrow> bool" where
  "known g \<longleftrightarrow> mwf g \<and> (\<forall>(i, deps) \<in> set g. set deps \<subseteq> fst ` set g)"

definition depsOf :: "graph \<Rightarrow> string \<Rightarrow> string list" where
  "depsOf g i = mlist g i"

text \<open>\<open>R\<close> is the set of the steps already in a batch.\<close>

definition kahn_inv :: "graph \<Rightarrow> string set \<Rightarrow> (string, int) gomap \<Rightarrow> bool" where
  "kahn_inv g R m \<longleftrightarrow> mwf m \<and> fst ` set m = fst ` set g - R \<and> R \<subseteq> fst ` set g \<and>
     (\<forall>i \<in> R. set (depsOf g i) \<subseteq> R) \<and>
     (\<forall>i d. mget m i = Some d \<longrightarrow> d = int (length (filter (\<lambda>x. x \<notin> R) (depsOf g i))))"

lemma count_addDependents:
  "count_list (mlist (addDependents i ds m) d) j =
    count_list (mlist m d) j + (if j = i then count_list ds d else 0)"
  by (induction ds arbitrary: m) (auto simp: gomap_simps count_list_append)

lemma count_dependentsOf:
  assumes "mwf g"
  shows "count_list (mlist (dependentsOf g) d) j = count_list (depsOf g j) d"
proof -
  have "count_list (mlist (fold (\<lambda>(i, deps). addDependents i deps) g m) d) j =
      count_list (mlist m d) j + count_list (mlist g j) d" for m
    using assms
  proof (induction g arbitrary: m)
    case (Cons p g)
    obtain i deps where p: "p = (i, deps)" by (cases p)
    have "mlist g i = []" using Cons.prems p by (auto simp: mwf_def mlist_def image_iff split: option.splits dest: map_of_SomeD)
    moreover have "mlist (p # g) j = (if j = i then deps else mlist g j)" using p by (simp add: mlist_def)
    ultimately show ?case using Cons p by (simp add: count_addDependents mwf_def)
  qed (simp add: mlist_def)
  then show ?thesis by (simp add: dependentsOf_def depsOf_def)
qed

lemma decr_get: "mget (decr i m) j = (if j = i then Some ((case mget m i of None \<Rightarrow> 0 | Some d \<Rightarrow> d) - 1) else mget m j)"
  by (simp add: decr_def gomap_simps)

lemma fold_decr_keys: "set ds \<subseteq> fst ` set m \<Longrightarrow> fst ` set (fold decr ds m) = fst ` set m"
proof (induction ds arbitrary: m)
  case (Cons d ds)
  have "fst ` set (decr d m) = fst ` set m" using Cons.prems by (auto simp: decr_def dom_update)
  then show ?case using Cons by simp
qed simp

lemma fold_decr_get:
  assumes "set ds \<subseteq> fst ` set m" and "mget m j = Some c"
  shows "mget (fold decr ds m) j = Some (c - int (count_list ds j))"
  using assms
proof (induction ds arbitrary: m c)
  case (Cons d ds)
  have "fst ` set (decr d m) = fst ` set m" using Cons.prems(1) by (auto simp: decr_def dom_update)
  then show ?case
    using Cons.prems Cons.IH [of "decr d m" "if j = d then c - 1 else c"] by (auto simp: decr_get)
qed simp

lemma mwf_fold_decr: "mwf m \<Longrightarrow> mwf (fold decr ds m)"
  by (induction ds arbitrary: m) (simp_all add: decr_def mwf_put)

lemma release_concat: "release dependents ready m = fold decr (concat (map (mlist dependents) ready)) m"
  by (induction ready arbitrary: m) (simp_all add: release_def)

lemma mem_depsOf: "x \<in> set (depsOf g i) \<Longrightarrow> i \<in> fst ` set g"
  by (cases "mget g i") (force simp: depsOf_def mlist_def dest: map_of_SomeD)+

lemma known_deps: "known g \<Longrightarrow> set (depsOf g i) \<subseteq> fst ` set g"
  by (cases "mget g i") (force simp: known_def depsOf_def mlist_def dest: map_of_SomeD)+

lemma kahn_inv_init:
  assumes "known g"
  shows "kahn_inv g {} (initDegrees g)"
proof -
  have "mwf (initDegrees g)" using assms by (simp add: initDegrees_def known_def mwf_map_snd)
  moreover have "fst ` set (initDegrees g) = fst ` set g" by (force simp: initDegrees_def)
  moreover have "mget (initDegrees g) i = map_option (\<lambda>ds. int (length ds)) (mget g i)" for i
    unfolding initDegrees_def by (rule mget_map_snd)
  ultimately show ?thesis by (auto simp: kahn_inv_def depsOf_def mlist_def)
qed

lemma length_filter_release:
  assumes "distinct ready" and "set ready \<inter> R = {}"
  shows "length (filter (\<lambda>x. x \<notin> R) xs) =
    length (filter (\<lambda>x. x \<notin> R \<union> set ready) xs) + (\<Sum>r\<leftarrow>ready. count_list xs r)"
  using assms
proof (induction ready arbitrary: R)
  case (Cons r ready)
  have "length (filter (\<lambda>x. x \<notin> R) xs) = length (filter (\<lambda>x. x \<notin> insert r R) xs) + count_list xs r"
    using Cons.prems(2) by (induction xs) auto
  then show ?case using Cons.IH [of "insert r R"] Cons.prems by simp
qed simp

lemma mget_key_iff: "mwf m \<Longrightarrow> (i, d) \<in> set m \<longleftrightarrow> mget m i = Some d"
  by (auto simp: mwf_def)

lemma zeros_iff: "mwf m \<Longrightarrow> i \<in> set (zeros m) \<longleftrightarrow> mget m i = Some 0"
  by (auto simp: zeros_def mget_key_iff [symmetric] image_iff)

lemma nonzeros_iff: "mwf m \<Longrightarrow> mget (nonzeros m) i = Some d \<longleftrightarrow> mget m i = Some d \<and> d \<noteq> 0"
  using mwf_filter [of m "\<lambda>(_, d). d \<noteq> 0"] by (auto simp: nonzeros_def mget_key_iff [symmetric])

lemma distinct_zeros: "mwf m \<Longrightarrow> distinct (zeros m)"
  unfolding zeros_def mwf_def by (rule distinct_map_filter)

lemma kahn_inv_step:
  assumes inv: "kahn_inv g R m" and g: "known g" and ready: "distinct ready" "set ready = set (zeros m)"
  shows "kahn_inv g (R \<union> set ready) (release (dependentsOf g) ready (nonzeros m))"
    and "set ready \<inter> R = {}"
    and "\<forall>i \<in> set ready. set (depsOf g i) \<subseteq> R"
proof -
  have m: "mwf m" "fst ` set m = fst ` set g - R" and closed: "\<forall>i \<in> R. set (depsOf g i) \<subseteq> R"
    and deg: "\<And>i d. mget m i = Some d \<Longrightarrow> d = int (length (filter (\<lambda>x. x \<notin> R) (depsOf g i)))"
    using inv by (auto simp: kahn_inv_def)
  have nz: "mwf (nonzeros m)" unfolding nonzeros_def by (rule mwf_filter [OF m(1)])
  have zero: "mget m i = Some 0" if "i \<in> set ready" for i using that ready(2) zeros_iff [OF m(1)] by simp
  then show disj: "set ready \<inter> R = {}" using m(2) by (force dest: map_of_SomeD)
  show deps: "\<forall>i \<in> set ready. set (depsOf g i) \<subseteq> R" using zero deg by (fastforce simp: filter_empty_conv)
  let ?ds = "concat (map (mlist (dependentsOf g)) ready)"
  have cnt: "count_list ?ds j = (\<Sum>r\<leftarrow>ready. count_list (depsOf g j) r)" for j
    using g by (induction ready) (simp_all add: count_list_append count_dependentsOf known_def)
  have sub: "set ?ds \<subseteq> fst ` set (nonzeros m)"
  proof
    fix x assume "x \<in> set ?ds"
    then obtain r where r: "r \<in> set ready" "x \<in> set (mlist (dependentsOf g) r)" by auto
    then have "r \<in> set (depsOf g x)"
      using g count_dependentsOf [of g r x] by (metis count_list_0_iff known_def)
    moreover have "r \<notin> R" using disj r(1) by blast
    ultimately have "x \<notin> R" "x \<in> fst ` set g" "filter (\<lambda>x. x \<notin> R) (depsOf g x) \<noteq> []"
      using closed mem_depsOf by (auto simp: filter_empty_conv)
    moreover from this(1,2) obtain d where "mget m x = Some d"
      using m(2) by (metis DiffI map_of_eq_None_iff not_None_eq)
    ultimately have "mget (nonzeros m) x = Some d" using deg nonzeros_iff [OF m(1)] by fastforce
    then show "x \<in> fst ` set (nonzeros m)" by (force dest: map_of_SomeD)
  qed
  have keys: "fst ` set (release (dependentsOf g) ready (nonzeros m)) = fst ` set g - (R \<union> set ready)"
  proof -
    have "fst ` set (nonzeros m) = fst ` set m - set ready"
      using m(1) ready(2) zeros_iff [OF m(1)]
      by (force simp: nonzeros_def mget_key_iff)
    then show ?thesis using m(2) fold_decr_keys [OF sub] by (auto simp: release_concat)
  qed
  have "d = int (length (filter (\<lambda>x. x \<notin> R \<union> set ready) (depsOf g i)))"
    if "mget (release (dependentsOf g) ready (nonzeros m)) i = Some d" for i d
  proof -
    have "i \<in> fst ` set (nonzeros m)"
      using that fold_decr_keys [OF sub] by (force simp: release_concat dest: map_of_SomeD)
    then obtain c where c: "mget (nonzeros m) i = Some c" by (metis map_of_eq_None_iff not_None_eq)
    then have "d = c - int (count_list ?ds i)" using that fold_decr_get [OF sub c] by (simp add: release_concat)
    moreover have "c = int (length (filter (\<lambda>x. x \<notin> R) (depsOf g i)))"
      using c deg nonzeros_iff [OF m(1)] by blast
    ultimately show ?thesis using length_filter_release [OF ready(1) disj, of "depsOf g i"] cnt by simp
  qed
  moreover have "R \<union> set ready \<subseteq> fst ` set g"
  proof -
    have "i \<in> fst ` set m" if "i \<in> set ready" for i
      using map_of_SomeD [OF zero [OF that]] by (metis fst_conv image_eqI)
    moreover have "R \<subseteq> fst ` set g" using inv by (simp add: kahn_inv_def)
    ultimately show ?thesis unfolding m(2) by blast
  qed
  moreover have "\<forall>i \<in> R \<union> set ready. set (depsOf g i) \<subseteq> R \<union> set ready" using deps closed by blast
  moreover have "mwf (release (dependentsOf g) ready (nonzeros m))"
    unfolding release_concat by (rule mwf_fold_decr [OF nz])
  ultimately show "kahn_inv g (R \<union> set ready) (release (dependentsOf g) ready (nonzeros m))"
    using keys unfolding kahn_inv_def by simp
qed

section \<open>Batches respect the dependencies\<close>

definition layered :: "graph \<Rightarrow> string list list \<Rightarrow> bool" where
  "layered g bs \<longleftrightarrow>
     (\<forall>k < length bs. \<forall>i \<in> set (bs ! k). set (depsOf g i) \<subseteq> set (concat (take k bs)))"

text \<open>A way to visit maps: some order of the keys, each once.\<close>

definition visitOrder :: "(string list \<Rightarrow> string list) \<Rightarrow> bool" where
  "visitOrder ord \<longleftrightarrow> (\<forall>xs. distinct xs \<longrightarrow> visits ord xs)"

definition dependsOn :: "graph \<Rightarrow> (string \<times> string) set" where
  "dependsOn g = {(d, i). d \<in> set (depsOf g i)}"

lemma layered_snoc:
  "layered g bs \<Longrightarrow> \<forall>i \<in> set b. set (depsOf g i) \<subseteq> set (concat bs) \<Longrightarrow> layered g (bs @ [b])"
  unfolding layered_def by (auto simp: nth_append less_Suc_eq split: if_splits)

lemma kahn_correct:
  assumes "known g" and "visitOrder ord" and "kahn_inv g (set (concat bs)) m"
    and "distinct (concat bs)" and "layered g bs"
  shows "case kahn ord (dependentsOf g) m bs of (bs', left) \<Rightarrow>
    kahn_inv g (set (concat bs')) left \<and> zeros left = [] \<and> distinct (concat bs') \<and> layered g bs'"
  using assms
proof (induction ord "dependentsOf g" m bs rule: kahn.induct)
  case (1 ord m bs)
  show ?case
  proof (cases "zeros m = []")
    case True
    then show ?thesis using 1 by (subst kahn.simps) simp
  next
    case False
    let ?r = "ord (zeros m)"
    have "mwf m" using 1 by (simp add: kahn_inv_def)
    then have r: "distinct ?r" "set ?r = set (zeros m)"
      using 1 distinct_zeros by (auto simp: visitOrder_def visits_def)
    note s = kahn_inv_step [OF 1(4,2) r]
    have "layered g (bs @ [?r])" using s(3) 1 by (intro layered_snoc) auto
    then have "case kahn ord (dependentsOf g) (release (dependentsOf g) ?r (nonzeros m)) (bs @ [?r]) of (bs', left) \<Rightarrow>
        kahn_inv g (set (concat bs')) left \<and> zeros left = [] \<and> distinct (concat bs') \<and> layered g bs'"
      using 1 False r s by (intro 1(1)) auto
    then show ?thesis using False by (subst kahn.simps) (simp add: Let_def)
  qed
qed

lemma mem_concat_take:
  assumes "x \<in> set (concat (take n bs))"
  obtains j where "j < n" "j < length bs" "x \<in> set (bs ! j)"
proof -
  from assms obtain b where "b \<in> set (take n bs)" "x \<in> set b" by auto
  then show thesis using that by (force simp: in_set_conv_nth [of b])
qed

lemma layered_acyclic:
  assumes "layered g bs" and "set (concat bs) = fst ` set g"
  shows "acyclic (dependsOn g)"
proof -
  let ?rank = "\<lambda>i. LEAST k. k < length bs \<and> i \<in> set (bs ! k)"
  have "dependsOn g \<subseteq> measure ?rank"
  proof (clarsimp simp: dependsOn_def)
    fix d i assume di: "d \<in> set (depsOf g i)"
    then have "i \<in> set (concat bs)" using mem_depsOf assms(2) by blast
    then have "\<exists>k. k < length bs \<and> i \<in> set (bs ! k)" by (metis (no_types, lifting) UN_iff in_set_conv_nth set_concat)
    then have k: "?rank i < length bs \<and> i \<in> set (bs ! ?rank i)" by (rule LeastI_ex)
    then have "d \<in> set (concat (take (?rank i) bs))" using assms(1) di unfolding layered_def by blast
    then obtain j where "j < ?rank i" "j < length bs" "d \<in> set (bs ! j)" by (rule mem_concat_take)
    then show "?rank d < ?rank i" by (metis (mono_tags, lifting) Least_le order.strict_trans1)
  qed
  then show ?thesis by (meson wf_acyclic wf_measure wf_subset)
qed

lemma topologicalSort_ok:
  assumes "known g" and "visitOrder ord" and "topologicalSort ord g = Inr bs"
  shows "layered g bs \<and> distinct (concat bs) \<and> set (concat bs) = fst ` set g"
proof -
  obtain left where k: "kahn ord (dependentsOf g) (initDegrees g) [] = (bs, left)" "left = []"
    using assms(3) by (auto simp: topologicalSort_def split: prod.splits if_splits)
  have "kahn_inv g (set (concat bs)) left \<and> distinct (concat bs) \<and> layered g bs"
    using kahn_correct [OF assms(1,2), of "[]" "initDegrees g"] kahn_inv_init [OF assms(1)] k
    by (simp add: layered_def)
  then show ?thesis using k(2) by (auto simp: kahn_inv_def)
qed

lemma topologicalSort_cycle:
  assumes "known g" and "visitOrder ord" and "topologicalSort ord g = Inl e"
  shows "\<not> acyclic (dependsOn g)"
proof
  assume ac: "acyclic (dependsOn g)"
  obtain bs left where k: "kahn ord (dependentsOf g) (initDegrees g) [] = (bs, left)" "left \<noteq> []"
    using assms(3) by (auto simp: topologicalSort_def split: prod.splits if_splits)
  have inv: "kahn_inv g (set (concat bs)) left" "zeros left = []"
    using kahn_correct [OF assms(1,2), of "[]" "initDegrees g"] kahn_inv_init [OF assms(1)] k(1)
    by (simp_all add: layered_def)
  have "dependsOn g \<subseteq> fst ` set g \<times> fst ` set g"
    using known_deps [OF assms(1)] mem_depsOf by (auto simp: dependsOn_def)
  then have "finite (dependsOn g)" by (rule finite_subset) simp
  then have wf: "wf (dependsOn g)" using ac by (rule finite_acyclic_wf)
  have "fst ` set left \<noteq> {}" using k(2) by simp
  then obtain i where i: "i \<in> fst ` set left" "\<And>d. (d, i) \<in> dependsOn g \<Longrightarrow> d \<notin> fst ` set left"
    using wf unfolding wf_eq_minimal by (metis ex_in_conv)
  have l: "mwf left" "fst ` set left = fst ` set g - set (concat bs)" using inv(1) by (auto simp: kahn_inv_def)
  from i(1) obtain c where c: "mget left i = Some c" by (metis map_of_eq_None_iff not_None_eq)
  have "c \<noteq> 0" using c inv(2) zeros_iff [OF l(1), of i] by auto
  then obtain d where "d \<in> set (depsOf g i)" "d \<notin> set (concat bs)"
  proof -
    have "c = int (length (filter (\<lambda>x. x \<notin> set (concat bs)) (depsOf g i)))"
      using inv(1) c unfolding kahn_inv_def by blast
    with \<open>c \<noteq> 0\<close> have "filter (\<lambda>x. x \<notin> set (concat bs)) (depsOf g i) \<noteq> []" by auto
    then show thesis using that by (auto simp: filter_empty_conv)
  qed
  then have "d \<in> fst ` set left" "(d, i) \<in> dependsOn g"
    using l(2) known_deps [OF assms(1), of i] by (auto simp: dependsOn_def)
  with i(2) show False by blast
qed

end
