(* ===== verification/Plan_Exec.thy ===== *)
theory Plan_Exec
  imports Plan_DAG
begin

text \<open>
  Execution of a plan (plan/dag_executor.go): retries, and the batches of goroutines as an
  interleaving of atomic steps.  What a step's executor returns on each attempt, when the context
  is cancelled and in which order the goroutines run are chosen by the actions; the executor is
  taken not to change the subtask it is handed.
\<close>

section \<open>Retries\<close>

datatype 'e run_error = RunCtx | RunFailed 'e

record RetryPolicy =
  rt_MaxRetries :: int
  rt_Backoff :: duration

definition DefaultRetryPolicy :: RetryPolicy where
  "DefaultRetryPolicy = \<lparr>rt_MaxRetries = 1, rt_Backoff = time_Second\<rparr>"

text \<open>
  \<open>doneAt n\<close>: the context is done when attempt \<open>n\<close> is about to run (checked before the attempt and
  during the backoff).  With no attempts left the last error is returned, or success when there
  was no attempt at all.
\<close>

fun retryLoop :: "(nat \<Rightarrow> bool) \<Rightarrow> (nat \<Rightarrow> 'e + string) \<Rightarrow> nat \<Rightarrow> nat \<Rightarrow> 'e option \<Rightarrow> 'e run_error + string" where
  "retryLoop doneAt outs 0 attempt lastErr = (case lastErr of None \<Rightarrow> Inr [] | Some e \<Rightarrow> Inl (RunFailed e))"
| "retryLoop doneAt outs (Suc left) attempt lastErr =
     (if doneAt attempt then Inl RunCtx
      else case outs attempt of
             Inr outcome \<Rightarrow> Inr outcome
           | Inl e \<Rightarrow> retryLoop doneAt outs left (Suc attempt) (Some e))"

definition executeWithRetry :: "RetryPolicy \<Rightarrow> (nat \<Rightarrow> bool) \<Rightarrow> (nat \<Rightarrow> 'e + string) \<Rightarrow> 'e run_error + string" where
  "executeWithRetry p doneAt outs = retryLoop doneAt outs (nat (rt_MaxRetries p + 1)) 0 None"

section \<open>State of a run\<close>

datatype gphase = Spawned | Running "(string, string) gomap" | Ended

datatype 'e exec_error = EPlan plan_error | ECtx | EStepFailed string "'e run_error" | EStopped string

record 'e DAGExecutor =
  ex_retry :: RetryPolicy
  ex_stopOnError :: bool

record 'e ExecState =
  es_plan :: RichPlan
  es_steps :: "(string, nat) gomap"
  es_results :: "(string, string) gomap"
  es_past :: "string list list" \<comment> \<open>batches that are over\<close>
  es_batch :: "string list" \<comment> \<open>the current batch, at first an empty one\<close>
  es_todo :: "string list list"
  es_gos :: "(string, gphase) gomap" \<comment> \<open>goroutines of the current batch\<close>
  es_failed :: "(string \<times> 'e run_error) option"
  es_ctx :: bool \<comment> \<open>the caller's context is done\<close>
  es_gctx :: bool \<comment> \<open>the group's context is done\<close>
  es_log :: "(string \<times> (string, string) gomap) list" \<comment> \<open>steps started, with the outcomes handed to them\<close>
  es_ret :: "'e exec_error option option" \<comment> \<open>the result of Execute\<close>

definition getStep :: "'e ExecState \<Rightarrow> string \<Rightarrow> Subtask" where
  "getStep s i = rp_Subtasks (es_plan s) ! the (mget (es_steps s) i)"

text \<open>A change of one subtask under the batch mutex, which also stamps the plan.\<close>

definition setStep :: "string \<Rightarrow> instant \<Rightarrow> (Subtask \<Rightarrow> Subtask) \<Rightarrow> 'e ExecState \<Rightarrow> 'e ExecState" where
  "setStep i now f s =
     (let k = the (mget (es_steps s) i)
      in s\<lparr>es_plan := (es_plan s)\<lparr>rp_Subtasks := (rp_Subtasks (es_plan s))[k := f (rp_Subtasks (es_plan s) ! k)],
           rp_UpdatedAt := now\<rparr>\<rparr>)"

section \<open>Execute\<close>

text \<open>The part before the loop over the batches: it returns at once, or starts a run.\<close>

definition Execute_begin :: "(string list \<Rightarrow> string list) \<Rightarrow> bool \<Rightarrow> RichPlan option \<Rightarrow>
    'e exec_error option + 'e ExecState" where
  "Execute_begin ord ctx plan =
     (case plan of
        None \<Rightarrow> Inl (Some (EPlan NilPlan))
      | Some p \<Rightarrow>
          if rp_Subtasks p = [] then Inl None
          else case stepIndex 0 (rp_Subtasks p) [] of
             Inl e \<Rightarrow> Inl (Some (EPlan e))
           | Inr steps \<Rightarrow>
               (case unknownDep steps (rp_Subtasks p) of
                  Some e \<Rightarrow> Inl (Some (EPlan e))
                | None \<Rightarrow>
                    (case topologicalSort ord (graphOf p steps) of
                       Inl e \<Rightarrow> Inl (Some (EPlan e))
                     | Inr order \<Rightarrow>
                         Inr \<lparr>es_plan = p, es_steps = steps, es_results = [], es_past = [], es_batch = [],
                           es_todo = order, es_gos = [], es_failed = None, es_ctx = ctx, es_gctx = False,
                           es_log = [], es_ret = None\<rparr>)))"

text \<open>Spawning a batch: one goroutine for each step that is not done.\<close>

definition spawnBatch :: "string list \<Rightarrow> 'e ExecState \<Rightarrow> 'e ExecState" where
  "spawnBatch b s = s\<lparr>es_past := es_past s @ [es_batch s], es_batch := b, es_todo := tl (es_todo s),
     es_gos := map (\<lambda>i. (i, Spawned)) (filter (\<lambda>i. st_State (getStep s i) \<noteq> SubtaskDone) b),
     es_failed := None, es_gctx := False\<rparr>"

text \<open>What follows the last batch.\<close>

definition finishPlan :: "'e ExecState \<Rightarrow> 'e ExecState" where
  "finishPlan s =
     (if list_all (\<lambda>t. st_State t = SubtaskDone) (rp_Subtasks (es_plan s))
      then s\<lparr>es_plan := (es_plan s)\<lparr>rp_State := PlanStateDone\<rparr>, es_ret := Some None\<rparr>
      else s\<lparr>es_ret := Some None\<rparr>)"

text \<open>The main goroutine when all goroutines of the batch have ended (\<^verbatim>\<open>g.Wait()\<close> returned).\<close>

definition mainStep :: "'e DAGExecutor \<Rightarrow> 'e ExecState \<Rightarrow> 'e ExecState" where
  "mainStep e s =
     (case (if ex_stopOnError e then es_failed s else None) of
        Some (name, err) \<Rightarrow> s\<lparr>es_ret := Some (Some (EStepFailed name err))\<rparr>
      | None \<Rightarrow>
          (case (if ex_stopOnError e then find (\<lambda>i. st_State (getStep s i) = SubtaskAbandoned) (es_batch s) else None) of
             Some i \<Rightarrow> s\<lparr>es_ret := Some (Some (EStopped (st_Name (getStep s i))))\<rparr>
           | None \<Rightarrow>
               (case es_todo s of
                  [] \<Rightarrow> finishPlan s
                | b # _ \<Rightarrow> if es_ctx s then s\<lparr>es_ret := Some (Some ECtx)\<rparr> else spawnBatch b s)))"

text \<open>The outcomes of the dependencies that were stored in this run.\<close>

fun gatherDeps :: "string list \<Rightarrow> (string, string) gomap \<Rightarrow> (string, string) gomap \<Rightarrow> (string, string) gomap" where
  "gatherDeps [] results dr = dr"
| "gatherDeps (d # ds) results dr =
     gatherDeps ds results (case mget results d of None \<Rightarrow> dr | Some v \<Rightarrow> mput d v dr)"

definition startStep :: "string \<Rightarrow> instant \<Rightarrow> 'e ExecState \<Rightarrow> 'e ExecState" where
  "startStep i now s =
     (let dr = gatherDeps (st_Dependencies (getStep s i)) (es_results s) [];
          s = setStep i now (\<lambda>t. t\<lparr>st_State := SubtaskInProgress\<rparr>) s
      in s\<lparr>es_gos := mput i (Running dr) (es_gos s), es_log := es_log s @ [(i, dr)]\<rparr>)"

definition endStep :: "'e DAGExecutor \<Rightarrow> string \<Rightarrow> instant \<Rightarrow> (nat \<Rightarrow> bool) \<Rightarrow> (nat \<Rightarrow> 'e + string) \<Rightarrow>
    'e ExecState \<Rightarrow> 'e ExecState" where
  "endStep e i now doneAt outs s =
     (case executeWithRetry (ex_retry e) (\<lambda>n. doneAt n \<and> (es_ctx s \<or> es_gctx s)) outs of
        Inl err \<Rightarrow>
          let s' = setStep i now (\<lambda>t. t\<lparr>st_State := SubtaskAbandoned\<rparr>) s;
              s' = s'\<lparr>es_gos := mput i Ended (es_gos s')\<rparr>
          in if ex_stopOnError e
             then s'\<lparr>es_failed := Some (st_Name (getStep s i), err), es_gctx := True\<rparr> else s'
      | Inr outcome \<Rightarrow>
          let s' = setStep i now (\<lambda>t. t\<lparr>st_State := SubtaskDone, st_Outcome := outcome\<rparr>) s
          in s'\<lparr>es_gos := mput i Ended (es_gos s'), es_results := mput i outcome (es_results s')\<rparr>)"

datatype 'e exec_action =
    AMain
  | AStart string instant
  | AEnd string instant "nat \<Rightarrow> bool" "nat \<Rightarrow> 'e + string"
  | ACancel

text \<open>A step that is not possible leaves the state as it is.\<close>

fun exec_step :: "'e DAGExecutor \<Rightarrow> 'e ExecState \<Rightarrow> 'e exec_action \<Rightarrow> 'e ExecState" where
  "exec_step e s AMain =
     (if es_ret s = None \<and> list_all (\<lambda>(_, g). g = Ended) (es_gos s) then mainStep e s else s)"
| "exec_step e s (AStart i now) =
     (if es_ret s = None \<and> mget (es_gos s) i = Some Spawned then startStep i now s else s)"
| "exec_step e s (AEnd i now doneAt outs) =
     (case mget (es_gos s) i of
        Some (Running _) \<Rightarrow> if es_ret s = None then endStep e i now doneAt outs s else s
      | _ \<Rightarrow> s)"
| "exec_step e s ACancel = s\<lparr>es_ctx := True\<rparr>"

definition exec_run :: "'e DAGExecutor \<Rightarrow> 'e ExecState \<Rightarrow> 'e exec_action list \<Rightarrow> 'e ExecState" where
  "exec_run e = run_ops (exec_step e)"

section \<open>Access to the steps of a run\<close>

definition index_ok :: "(string, nat) gomap \<Rightarrow> Subtask list \<Rightarrow> bool" where
  "index_ok steps ts \<longleftrightarrow> mwf steps \<and>
     (\<forall>i k. mget steps i = Some k \<longrightarrow> k < length ts \<and> st_ID (ts ! k) = i)"

lemma stepIndex_ok:
  "stepIndex n ss m = Inr steps \<Longrightarrow> mwf m \<Longrightarrow>
   (\<forall>i k. mget m i = Some k \<longrightarrow> k < n \<and> st_ID (ts ! k) = i) \<Longrightarrow> n + length ss = length ts \<Longrightarrow>
   (\<forall>j < length ss. ts ! (n + j) = ss ! j) \<Longrightarrow> index_ok steps ts"
proof (induction n ss m rule: stepIndex.induct)
  case (1 i m)
  then show ?case by (auto simp: index_ok_def)
next
  case (2 i s ss m)
  from 2(2) have s: "st_ID s \<noteq> []" "stepIndex (Suc i) ss (mput (st_ID s) i m) = Inr steps"
    by (auto split: if_splits)
  have ts: "ts ! i = s" "\<forall>j < length ss. ts ! (Suc i + j) = ss ! j" using 2(6) by auto
  show ?case
    using s(1) 2(3,4,5) ts by (intro 2(1) [OF s(1) s(2)]) (auto simp: gomap_simps mwf_put less_Suc_eq)
qed

lemma stepIndex_keys: "stepIndex n ss m = Inr steps \<Longrightarrow> fst ` set steps = fst ` set m \<union> st_ID ` set ss"
  by (induction n ss m rule: stepIndex.induct) (auto simp: dom_update split: if_splits)

lemma getStep_setStep:
  assumes "index_ok (es_steps s) (rp_Subtasks (es_plan s))" and "mget (es_steps s) i \<noteq> None" "mget (es_steps s) j \<noteq> None"
  shows "getStep (setStep i now f s) j = (if j = i then f (getStep s i) else getStep s j)"
proof -
  from assms(2,3) obtain k l where kl: "mget (es_steps s) i = Some k" "mget (es_steps s) j = Some l" by blast
  then have "k < length (rp_Subtasks (es_plan s))" "l = k \<longleftrightarrow> j = i"
    using assms(1) unfolding index_ok_def by auto
  then show ?thesis using kl by (auto simp: getStep_def setStep_def Let_def)
qed

lemma setStep_sel [simp]:
  "es_steps (setStep i now f s) = es_steps s" "es_results (setStep i now f s) = es_results s"
  "es_past (setStep i now f s) = es_past s" "es_batch (setStep i now f s) = es_batch s"
  "es_todo (setStep i now f s) = es_todo s" "es_gos (setStep i now f s) = es_gos s"
  "es_failed (setStep i now f s) = es_failed s" "es_ctx (setStep i now f s) = es_ctx s"
  "es_gctx (setStep i now f s) = es_gctx s" "es_log (setStep i now f s) = es_log s"
  "es_ret (setStep i now f s) = es_ret s"
  by (simp_all add: setStep_def Let_def)

lemma gatherDeps_get:
  "mget (gatherDeps ds results dr) d =
    (if d \<in> set ds \<and> mget results d \<noteq> None then mget results d else mget dr d)"
  by (induction ds results dr rule: gatherDeps.induct) (auto simp: gomap_simps split: option.splits)

end
