(* ===== verification/Plan_Laws.thy ===== *)
theory Plan_Laws
  imports Plan_Exec
begin

text \<open>
  What a run that stops on errors keeps: batches follow the dependencies, a step starts once and
  after its dependencies are done, and it is handed the outcomes stored in this run.
\<close>

abbreviation isDone :: "'e ExecState \<Rightarrow> string \<Rightarrow> bool" where
  "isDone s i \<equiv> st_State (getStep s i) = SubtaskDone"

definition started :: "'e ExecState \<Rightarrow> string set" where
  "started s = fst ` set (es_log s)"

definition stepIDs :: "'e ExecState \<Rightarrow> string set" where
  "stepIDs s = fst ` set (es_steps s)"

lemma stepIDs_iff: "i \<in> stepIDs s \<longleftrightarrow> mget (es_steps s) i \<noteq> None"
  by (simp add: stepIDs_def map_of_eq_None_iff)

definition frame_ok :: "'e ExecState \<Rightarrow> 'e ExecState \<Rightarrow> bool" where
  "frame_ok s0 s \<longleftrightarrow> es_steps s = es_steps s0 \<and>
     index_ok (es_steps s) (rp_Subtasks (es_plan s)) \<and>
     map st_ID (rp_Subtasks (es_plan s)) = map st_ID (rp_Subtasks (es_plan s0)) \<and>
     (\<forall>i \<in> stepIDs s0. st_Dependencies (getStep s i) = st_Dependencies (getStep s0 i)) \<and>
     (\<forall>i \<in> stepIDs s0 - started s. getStep s i = getStep s0 i)"

text \<open>\<open>deps\<close> gives the dependencies of a step.\<close>

definition batches_ok :: "'e ExecState \<Rightarrow> 'e ExecState \<Rightarrow> bool" where
  "batches_ok s0 s \<longleftrightarrow>
     set (concat (es_past s @ es_batch s # es_todo s)) = stepIDs s0 \<and>
     distinct (concat (es_past s @ es_batch s # es_todo s)) \<and>
     layered (graphOf (es_plan s0) (es_steps s0)) (es_past s @ es_batch s # es_todo s) \<and>
     (\<forall>i \<in> set (concat (es_past s)). isDone s i)"

definition gos_ok :: "'e ExecState \<Rightarrow> 'e ExecState \<Rightarrow> bool" where
  "gos_ok s0 s \<longleftrightarrow> mwf (es_gos s) \<and> fst ` set (es_gos s) \<subseteq> set (es_batch s) \<and>
     (\<forall>i \<in> set (es_batch s). case mget (es_gos s) i of
        None \<Rightarrow> isDone s i
      | Some Spawned \<Rightarrow> i \<notin> started s \<and> \<not> isDone s i
      | Some (Running dr) \<Rightarrow> i \<in> started s \<and> \<not> isDone s i
      | Some Ended \<Rightarrow> i \<in> started s \<and> st_State (getStep s i) \<in> {SubtaskDone, SubtaskAbandoned}) \<and>
     (\<forall>i \<in> set (concat (es_todo s)). i \<notin> started s)"

definition log_ok :: "'e ExecState \<Rightarrow> 'e ExecState \<Rightarrow> bool" where
  "log_ok s0 s \<longleftrightarrow> distinct (map fst (es_log s)) \<and>
     (\<forall>(i, dr) \<in> set (es_log s). i \<in> stepIDs s0 \<and> \<not> isDone s0 i \<and>
        (\<forall>d \<in> set (st_Dependencies (getStep s0 i)).
           d \<in> set (concat (es_past s)) \<and> mget dr d = mget (es_results s) d)) \<and>
     (\<forall>i \<in> stepIDs s0. mget (es_results s) i =
        (if i \<in> started s \<and> isDone s i then Some (st_Outcome (getStep s i)) else None))"

definition ret_ok :: "'e ExecState \<Rightarrow> 'e ExecState \<Rightarrow> bool" where
  "ret_ok s0 s \<longleftrightarrow> (es_ret s = Some None \<longrightarrow> (\<forall>i \<in> stepIDs s0. isDone s i) \<and>
     (list_all (\<lambda>t. st_State t = SubtaskDone) (rp_Subtasks (es_plan s)) \<longrightarrow> rp_State (es_plan s) = PlanStateDone))"

definition exec_inv :: "'e ExecState \<Rightarrow> 'e ExecState \<Rightarrow> bool" where
  "exec_inv s0 s \<longleftrightarrow> frame_ok s0 s \<and> batches_ok s0 s \<and> gos_ok s0 s \<and> log_ok s0 s \<and> ret_ok s0 s"

lemmas exec_inv_defs = exec_inv_def frame_ok_def batches_ok_def gos_ok_def log_ok_def ret_ok_def

text \<open>A step of the current batch is a step of the plan and in no earlier batch.\<close>

lemma batch_step:
  assumes "batches_ok s0 s" and "i \<in> set (es_batch s)"
  shows "i \<in> stepIDs s0" and "i \<notin> set (concat (es_past s))" and "i \<notin> set (concat (es_todo s))"
  using assms by (auto simp: batches_ok_def)

lemma gos_batch: "gos_ok s0 s \<Longrightarrow> mget (es_gos s) i = Some g \<Longrightarrow> i \<in> set (es_batch s)"
  unfolding gos_ok_def by (force dest: map_of_SomeD)

lemma depsOf_graph:
  assumes "frame_ok s0 s0" and "i \<in> stepIDs s0"
  shows "depsOf (graphOf (es_plan s0) (es_steps s0)) i = st_Dependencies (getStep s0 i)"
proof -
  obtain k where "mget (es_steps s0) i = Some k" using assms(2) by (auto simp: stepIDs_iff)
  then show ?thesis by (simp add: depsOf_def graphOf_def mlist_def mget_map_snd getStep_def)
qed

text \<open>The dependencies of a step of the current batch lie in earlier batches.\<close>

lemma batch_deps:
  assumes "batches_ok s0 s" and "frame_ok s0 s0" and "i \<in> set (es_batch s)"
  shows "set (st_Dependencies (getStep s0 i)) \<subseteq> set (concat (es_past s))"
proof -
  let ?bs = "es_past s @ es_batch s # es_todo s"
  have "layered (graphOf (es_plan s0) (es_steps s0)) ?bs" using assms(1) by (simp add: batches_ok_def)
  then have "set (depsOf (graphOf (es_plan s0) (es_steps s0)) i) \<subseteq> set (concat (take (length (es_past s)) ?bs))"
    using assms(3) unfolding layered_def by (drule_tac x = "length (es_past s)" in spec) simp
  then show ?thesis using depsOf_graph [OF assms(2) batch_step(1) [OF assms(1,3)]] by simp
qed

section \<open>Each action keeps the invariant\<close>

lemma setStep_getStep:
  assumes "frame_ok s0 s" and "i \<in> stepIDs s0" and "j \<in> stepIDs s0"
  shows "getStep (setStep i now f s) j = (if j = i then f (getStep s i) else getStep s j)"
proof (rule getStep_setStep)
  show "index_ok (es_steps s) (rp_Subtasks (es_plan s))" using assms(1) unfolding frame_ok_def by blast
  show "mget (es_steps s) i \<noteq> None" "mget (es_steps s) j \<noteq> None"
    using assms unfolding frame_ok_def stepIDs_iff by simp_all
qed

lemma map_update_same: "f x = f (xs ! k) \<Longrightarrow> map f (xs[k := x]) = map f xs"
  by (metis linorder_not_less list_update_beyond list_update_id map_update nth_map)

text \<open>A goroutine's change of its own step, with the bookkeeping around it.\<close>

lemma setStep_frame:
  assumes fr: "frame_ok s0 s" and i: "i \<in> stepIDs s0"
    and f: "\<And>t. st_ID (f t) = st_ID t \<and> st_Dependencies (f t) = st_Dependencies t"
    and s': "es_plan s' = es_plan (setStep i now f s)" "es_steps s' = es_steps s" "started s' = insert i (started s)"
  shows "frame_ok s0 s'"
proof -
  have eq: "getStep s' j = getStep (setStep i now f s) j" for j by (simp add: getStep_def s')
  have "map st_ID (rp_Subtasks (es_plan s')) = map st_ID (rp_Subtasks (es_plan s))"
    using f by (simp add: s'(1) setStep_def Let_def map_update_same)
  moreover from this have "index_ok (es_steps s') (rp_Subtasks (es_plan s'))"
    using fr s'(2) unfolding frame_ok_def index_ok_def by (metis length_map nth_map)
  ultimately show ?thesis
    using fr i f setStep_getStep [OF fr i] unfolding frame_ok_def eq s'(2,3) by auto
qed

lemma exec_inv_start:
  assumes inv: "exec_inv s0 s" and s0: "frame_ok s0 s0" and i: "mget (es_gos s) i = Some Spawned"
    and ret: "es_ret s = None"
  shows "exec_inv s0 (startStep i now s)"
proof -
  note p = inv [unfolded exec_inv_def]
  have b: "i \<in> set (es_batch s)" using gos_batch [of s0 s] p i by blast
  have bt: "batches_ok s0 s" using p by blast
  have ids: "i \<in> stepIDs s0" and np: "i \<notin> set (concat (es_past s))" and nt: "i \<notin> set (concat (es_todo s))"
    using batch_step [OF bt b] by blast+
  have deps: "set (st_Dependencies (getStep s0 i)) \<subseteq> set (concat (es_past s))" by (rule batch_deps [OF bt s0 b])
  have go: "i \<notin> started s" "\<not> isDone s i" using p b i unfolding gos_ok_def by fastforce+
  let ?s = "startStep i now s" and ?dr = "gatherDeps (st_Dependencies (getStep s i)) (es_results s) []"
  have sel: "es_plan ?s = es_plan (setStep i now (\<lambda>t. t\<lparr>st_State := SubtaskInProgress\<rparr>) s)"
    "es_steps ?s = es_steps s" "started ?s = insert i (started s)" "es_past ?s = es_past s" "es_batch ?s = es_batch s"
    "es_todo ?s = es_todo s" "es_gos ?s = mput i (Running ?dr) (es_gos s)" "es_log ?s = es_log s @ [(i, ?dr)]"
    "es_results ?s = es_results s" "es_ret ?s = es_ret s"
    by (auto simp: startStep_def Let_def started_def)
  have fr: "frame_ok s0 s" using p by blast
  have get: "getStep ?s j = (if j = i then (getStep s i)\<lparr>st_State := SubtaskInProgress\<rparr> else getStep s j)"
    if "j \<in> stepIDs s0" for j
    using setStep_getStep [OF fr ids that, of now "\<lambda>t. t\<lparr>st_State := SubtaskInProgress\<rparr>"] sel(1,2)
    by (simp add: getStep_def)
  have past: "j \<in> stepIDs s0 \<and> j \<noteq> i" if "j \<in> set (concat (es_past s))" for j
    using that np bt by (auto simp: batches_ok_def)
  have "frame_ok s0 ?s" by (rule setStep_frame [OF fr ids _ sel(1-3)]) simp
  moreover have "batches_ok s0 ?s"
    using bt past get unfolding batches_ok_def sel by simp
  moreover have "gos_ok s0 ?s"
  proof -
    have "case mget (es_gos ?s) j of None \<Rightarrow> isDone ?s j | Some Spawned \<Rightarrow> j \<notin> started ?s \<and> \<not> isDone ?s j
        | Some (Running dr) \<Rightarrow> j \<in> started ?s \<and> \<not> isDone ?s j
        | Some Ended \<Rightarrow> j \<in> started ?s \<and> st_State (getStep ?s j) \<in> {SubtaskDone, SubtaskAbandoned}"
      if j: "j \<in> set (es_batch ?s)" for j
    proof (cases "j = i")
      case True
      then show ?thesis using get ids by (simp add: sel gomap_simps)
    next
      case False
      have "j \<in> set (es_batch s)" using j sel by simp
      then show ?thesis using False get p batch_step(1) [OF bt] unfolding gos_ok_def
        by (auto simp: sel gomap_simps split: option.splits gphase.splits)
    qed
    then show ?thesis using p nt b unfolding gos_ok_def by (auto simp: sel mwf_put dom_update)
  qed
  moreover have "log_ok s0 ?s"
  proof -
    have dr: "mget ?dr d = mget (es_results s) d" if "d \<in> set (st_Dependencies (getStep s0 i))" for d
      using that fr ids by (auto simp: frame_ok_def gatherDeps_get)
    have "\<not> isDone s0 i" using fr ids go unfolding frame_ok_def by auto
    moreover have "mget (es_results ?s) j = (if j \<in> started ?s \<and> isDone ?s j then Some (st_Outcome (getStep ?s j)) else None)"
      if "j \<in> stepIDs s0" for j
      using that go get p unfolding log_ok_def sel by simp
    ultimately show ?thesis
      using p dr deps ids go(1) unfolding log_ok_def by (auto simp: sel started_def)
  qed
  moreover have "ret_ok s0 ?s" using ret by (simp add: ret_ok_def sel)
  ultimately show ?thesis by (simp add: exec_inv_def)
qed

text \<open>The two ways a goroutine ends: \<open>f\<close> sets the state, and the outcome is stored when it is done.\<close>

lemma exec_inv_finish:
  assumes inv: "exec_inv s0 s" and i: "mget (es_gos s) i = Some (Running dr)" and ret: "es_ret s = None"
    and f: "\<And>t. st_ID (f t) = st_ID t \<and> st_Dependencies (f t) = st_Dependencies t"
      "\<And>t. st_State (f t) \<in> {SubtaskDone, SubtaskAbandoned}"
    and res: "es_results s' = (if st_State (f (getStep s i)) = SubtaskDone
      then mput i (st_Outcome (f (getStep s i))) (es_results s) else es_results s)"
    and sel: "es_plan s' = es_plan (setStep i now f s)" "es_steps s' = es_steps s"
      "es_past s' = es_past s" "es_batch s' = es_batch s" "es_todo s' = es_todo s"
      "es_gos s' = mput i Ended (es_gos s)" "es_log s' = es_log s" "es_ret s' = es_ret s"
  shows "exec_inv s0 s'"
proof -
  note p = inv [unfolded exec_inv_def]
  have b: "i \<in> set (es_batch s)" using gos_batch [of s0 s] p i by blast
  have bt: "batches_ok s0 s" and fr: "frame_ok s0 s" using p by blast+
  have ids: "i \<in> stepIDs s0" and np: "i \<notin> set (concat (es_past s))"
    using batch_step [OF bt b] by blast+
  have go: "i \<in> started s" using p b i unfolding gos_ok_def by fastforce
  have st: "started s' = started s" by (simp add: started_def sel)
  have get: "getStep s' j = (if j = i then f (getStep s i) else getStep s j)" if "j \<in> stepIDs s0" for j
    using setStep_getStep [OF fr ids that, of now f] sel(1,2) by (simp add: getStep_def)
  have past: "j \<in> stepIDs s0 \<and> j \<noteq> i" if "j \<in> set (concat (es_past s))" for j
    using that np bt by (auto simp: batches_ok_def)
  have "frame_ok s0 s'" by (rule setStep_frame [OF fr ids f(1) sel(1,2)]) (use st go in auto)
  moreover have "batches_ok s0 s'" using bt past get unfolding batches_ok_def sel by simp
  moreover have "gos_ok s0 s'"
  proof -
    have "case mget (es_gos s') j of None \<Rightarrow> isDone s' j | Some Spawned \<Rightarrow> j \<notin> started s' \<and> \<not> isDone s' j
        | Some (Running dr) \<Rightarrow> j \<in> started s' \<and> \<not> isDone s' j
        | Some Ended \<Rightarrow> j \<in> started s' \<and> st_State (getStep s' j) \<in> {SubtaskDone, SubtaskAbandoned}"
      if j: "j \<in> set (es_batch s)" for j
    proof (cases "j = i")
      case True
      then show ?thesis using get ids go f(2) by (simp add: sel st gomap_simps)
    next
      case False
      then show ?thesis using j get p batch_step(1) [OF bt] unfolding gos_ok_def
        by (auto simp: sel st gomap_simps split: option.splits gphase.splits)
    qed
    then show ?thesis using p b unfolding gos_ok_def by (auto simp: sel st mwf_put dom_update)
  qed
  moreover have "log_ok s0 s'"
  proof -
    have keep: "mget (es_results s') d = mget (es_results s) d" if "d \<in> set (concat (es_past s))" for d
      using past [OF that] by (simp add: res gomap_simps)
    have "mget (es_results s') j = (if j \<in> started s' \<and> isDone s' j then Some (st_Outcome (getStep s' j)) else None)"
      if j: "j \<in> stepIDs s0" for j
    proof (cases "j = i")
      case True
      have "mget (es_results s) i = None"
        using p ids b i unfolding log_ok_def gos_ok_def by (fastforce split: option.splits)
      then show ?thesis using True get [OF ids] go by (simp add: res st gomap_simps)
    next
      case False
      then show ?thesis using j get p unfolding log_ok_def by (simp add: res st gomap_simps)
    qed
    then show ?thesis using p keep unfolding log_ok_def by (fastforce simp: sel)
  qed
  moreover have "ret_ok s0 s'" using ret by (simp add: ret_ok_def sel)
  ultimately show ?thesis by (simp add: exec_inv_def)
qed

lemma exec_inv_end:
  assumes inv: "exec_inv s0 s" and i: "mget (es_gos s) i = Some (Running dr)" and ret: "es_ret s = None"
  shows "exec_inv s0 (endStep e i now doneAt outs s)"
proof (cases "executeWithRetry (ex_retry e) (\<lambda>n. doneAt n \<and> (es_ctx s \<or> es_gctx s)) outs")
  case (Inl err)
  show ?thesis
    by (rule exec_inv_finish [OF inv i ret, where f = "\<lambda>t. t\<lparr>st_State := SubtaskAbandoned\<rparr>" and now = now])
      (simp_all add: endStep_def Inl Let_def)
next
  case (Inr outcome)
  show ?thesis
    by (rule exec_inv_finish [OF inv i ret,
          where f = "\<lambda>t. t\<lparr>st_State := SubtaskDone, st_Outcome := outcome\<rparr>" and now = now])
      (simp_all add: endStep_def Inr Let_def)
qed


text \<open>What the main goroutine does outside the subtasks.\<close>

lemma exec_inv_same:
  assumes inv: "exec_inv s0 s"
    and sel: "rp_Subtasks (es_plan s') = rp_Subtasks (es_plan s)" "es_steps s' = es_steps s"
      "es_results s' = es_results s" "es_past s' = es_past s" "es_batch s' = es_batch s" "es_todo s' = es_todo s"
      "es_gos s' = es_gos s" "es_log s' = es_log s"
    and ret: "ret_ok s0 s'"
  shows "exec_inv s0 s'"
proof -
  have get: "getStep s' i = getStep s i" for i by (simp only: getStep_def sel)
  have st: "started s' = started s" by (simp only: started_def sel)
  show ?thesis
    using inv ret unfolding exec_inv_def frame_ok_def batches_ok_def gos_ok_def log_ok_def get st sel by blast
qed

lemma exec_inv_ret_error: "exec_inv s0 s \<Longrightarrow> exec_inv s0 (s\<lparr>es_ret := Some (Some x)\<rparr>)"
  by (erule exec_inv_same) (simp_all add: ret_ok_def)

lemma exec_inv_cancel: "exec_inv s0 s \<Longrightarrow> exec_inv s0 (s\<lparr>es_ctx := True\<rparr>)"
  by (rule exec_inv_same, assumption) (simp_all add: exec_inv_def ret_ok_def getStep_def)

lemma map_of_map_const: "map_of (map (\<lambda>i. (i, c)) xs) i = (if i \<in> set xs then Some c else None)"
  by (induction xs) auto

lemma exec_inv_main:
  assumes inv: "exec_inv s0 s" and ended: "list_all (\<lambda>(_, g). g = Ended) (es_gos s)" and stop: "ex_stopOnError e"
  shows "exec_inv s0 (mainStep e s)"
proof (cases "es_failed s = None \<and> find (\<lambda>i. st_State (getStep s i) = SubtaskAbandoned) (es_batch s) = None")
  case False
  then show ?thesis using inv stop
    by (auto simp: mainStep_def exec_inv_ret_error split: option.splits)
next
  case True
  note p = inv [unfolded exec_inv_def]
  have bt: "batches_ok s0 s" using p by blast
  have done_batch: "isDone s i" if "i \<in> set (es_batch s)" for i
  proof -
    have "st_State (getStep s i) \<noteq> SubtaskAbandoned" using True that by (simp add: find_None_iff)
    moreover have "mget (es_gos s) i = Some Ended \<or> mget (es_gos s) i = None"
      using ended by (cases "mget (es_gos s) i") (auto simp: list_all_iff dest: map_of_SomeD)
    ultimately show ?thesis using p that unfolding gos_ok_def by fastforce
  qed
  show ?thesis
  proof (cases "es_todo s")
    case Nil
    have "isDone s i" if "i \<in> stepIDs s0" for i
    proof -
      have "i \<in> set (concat (es_past s)) \<or> i \<in> set (es_batch s)"
        using bt that Nil by (auto simp: batches_ok_def)
      then show ?thesis using bt done_batch unfolding batches_ok_def by blast
    qed
    then have "exec_inv s0 (finishPlan s)"
      by (intro exec_inv_same [OF inv]) (simp_all add: finishPlan_def ret_ok_def getStep_def)
    then show ?thesis using True stop Nil by (simp add: mainStep_def)
  next
    case (Cons b bs)
    show ?thesis
    proof (cases "es_ctx s")
      case True
      then show ?thesis using inv stop Cons \<open>es_failed s = None \<and> _\<close>
        by (simp add: mainStep_def exec_inv_ret_error)
    next
      case False
      let ?s = "spawnBatch b s"
      have get: "getStep ?s i = getStep s i" "started ?s = started s" for i
        by (simp_all add: spawnBatch_def getStep_def started_def)
      have sub: "set b \<subseteq> stepIDs s0" using bt Cons by (auto simp: batches_ok_def)
      have "distinct b" using bt Cons by (simp add: batches_ok_def)
      have fresh: "i \<notin> started s" if "i \<in> set b" for i using p that Cons by (auto simp: gos_ok_def)
      have gos: "mget (es_gos ?s) i = (if i \<in> set b \<and> \<not> isDone s i then Some Spawned else None)" for i
        unfolding spawnBatch_def by (simp add: map_of_map_const)
      have "batches_ok s0 ?s"
        using bt done_batch Cons unfolding batches_ok_def get by (auto simp: spawnBatch_def)
      moreover have "gos_ok s0 ?s"
        unfolding gos_ok_def get gos
        using p fresh Cons \<open>distinct b\<close> unfolding gos_ok_def
        by (auto simp: spawnBatch_def mwf_def comp_def distinct_filter)
      moreover have "es_steps ?s = es_steps s" "es_plan ?s = es_plan s" "es_ret ?s = es_ret s"
        by (simp_all add: spawnBatch_def)
      then have "frame_ok s0 ?s" "ret_ok s0 ?s"
        using p unfolding frame_ok_def ret_ok_def get by metis+
      moreover have "log_ok s0 ?s"
        using p unfolding log_ok_def get by (fastforce simp: spawnBatch_def)
      ultimately have "exec_inv s0 ?s" by (simp add: exec_inv_def)
      then show ?thesis using True stop Cons False by (simp add: mainStep_def)
    qed
  qed
qed

lemma exec_inv_step:
  assumes "exec_inv s0 s" and "frame_ok s0 s0" and "ex_stopOnError e"
  shows "exec_inv s0 (exec_step e s a)"
  using assms
  by (cases a) (auto simp: exec_inv_main exec_inv_start exec_inv_end exec_inv_cancel split: option.splits gphase.splits)

text \<open>A run begins in a state that satisfies the invariant.\<close>

lemma unknownIn_None: "unknownIn m i ds = None \<Longrightarrow> d \<in> set ds \<Longrightarrow> mget m d \<noteq> None"
  by (induction m i ds rule: unknownIn.induct) (auto split: if_splits)

lemma unknownDep_None:
  "unknownDep m ss = None \<Longrightarrow> t \<in> set ss \<Longrightarrow> d \<in> set (st_Dependencies t) \<Longrightarrow> mget m d \<noteq> None"
  by (induction m ss rule: unknownDep.induct) (auto split: option.splits dest: unknownIn_None)

lemma known_graphOf:
  assumes "stepIndex 0 (rp_Subtasks p) [] = Inr steps" and "unknownDep steps (rp_Subtasks p) = None"
  shows "known (graphOf p steps)" and "index_ok steps (rp_Subtasks p)" and "fst ` set (graphOf p steps) = fst ` set steps"
proof -
  show ix: "index_ok steps (rp_Subtasks p)" by (rule stepIndex_ok [OF assms(1)]) auto
  show keys: "fst ` set (graphOf p steps) = fst ` set steps" by (force simp: graphOf_def)
  have "set ds \<subseteq> fst ` set steps" if h: "(i, ds) \<in> set (graphOf p steps)" for i ds
  proof -
    obtain k where k: "(i, k) \<in> set steps" "ds = st_Dependencies (rp_Subtasks p ! k)"
      using h by (auto simp: graphOf_def)
    then have "k < length (rp_Subtasks p)" using ix by (auto simp: index_ok_def mget_key_iff)
    from unknownDep_None [OF assms(2) nth_mem [OF this]]
    have "mget steps d \<noteq> None" if "d \<in> set ds" for d
      using that k(2) by blast
    then show ?thesis by (metis map_of_eq_None_iff subsetI)
  qed
  then have "\<forall>(i, ds) \<in> set (graphOf p steps). set ds \<subseteq> fst ` set (graphOf p steps)" unfolding keys by blast
  moreover have "mwf (graphOf p steps)" using ix by (simp add: index_ok_def graphOf_def mwf_map_snd)
  ultimately show "known (graphOf p steps)" by (simp add: known_def)
qed

lemma layered_Nil_Cons:
  assumes "layered g bs"
  shows "layered g ([] # bs)"
  unfolding layered_def
proof (intro allI impI ballI)
  fix k i
  assume k: "k < length ([] # bs)" "i \<in> set (([] # bs) ! k)"
  then obtain j where "k = Suc j" by (cases k) auto
  then show "set (depsOf g i) \<subseteq> set (concat (take k ([] # bs)))"
    using k assms unfolding layered_def by simp
qed

lemma Execute_begin_inv:
  assumes "visitOrder ord" and "Execute_begin ord ctx plan = Inr s0"
  shows "exec_inv s0 s0"
proof -
  obtain p steps order where p: "plan = Some p" "stepIndex 0 (rp_Subtasks p) [] = Inr steps"
    "unknownDep steps (rp_Subtasks p) = None" "topologicalSort ord (graphOf p steps) = Inr order"
    "s0 = \<lparr>es_plan = p, es_steps = steps, es_results = [], es_past = [], es_batch = [],
        es_todo = order, es_gos = [], es_failed = None, es_ctx = ctx, es_gctx = False, es_log = [], es_ret = None\<rparr>"
    using assms(2) unfolding Execute_begin_def by (auto split: option.splits sum.splits if_splits)
  note k = known_graphOf [OF p(2,3)]
  note t = topologicalSort_ok [OF k(1) assms(1) p(4)]
  have "layered (graphOf p steps) ([] # order)" using t layered_Nil_Cons by blast
  then show ?thesis
    using t k(2,3) by (simp add: exec_inv_defs p(5) stepIDs_def started_def)
qed

lemma exec_run_inv:
  assumes "visitOrder ord" and "Execute_begin ord ctx plan = Inr s0" and "ex_stopOnError e"
  shows "exec_inv s0 (exec_run e s0 ops)"
proof -
  have i: "exec_inv s0 s0" by (rule Execute_begin_inv [OF assms(1,2)])
  then have "frame_ok s0 s0" by (simp add: exec_inv_def)
  then show ?thesis
    unfolding exec_run_def using i exec_inv_step assms(3) by (intro run_ops_invariant [where I = "exec_inv s0"]) auto
qed

lemma log_entry:
  assumes inv: "exec_inv s0 s" and l: "(i, dr) \<in> set (es_log s)"
  shows "\<not> isDone s0 i \<and> (\<forall>d \<in> set (st_Dependencies (getStep s0 i)). isDone s d \<and>
      mget dr d = (if isDone s0 d then None else Some (st_Outcome (getStep s d))))"
proof (intro conjI ballI)
  have lg: "log_ok s0 s" and bt: "batches_ok s0 s" and fr: "frame_ok s0 s" using inv by (simp_all add: exec_inv_def)
  show "\<not> isDone s0 i" using lg l unfolding log_ok_def by blast
  fix d assume d: "d \<in> set (st_Dependencies (getStep s0 i))"
  have past: "d \<in> set (concat (es_past s))" and dr: "mget dr d = mget (es_results s) d"
    using lg l d unfolding log_ok_def by blast+
  then show dn: "isDone s d" using bt unfolding batches_ok_def by blast
  have ids: "d \<in> stepIDs s0" using bt past by (auto simp: batches_ok_def)
  have "d \<in> started s \<longleftrightarrow> \<not> isDone s0 d"
  proof
    assume "d \<in> started s"
    then obtain dr' where "(d, dr') \<in> set (es_log s)" unfolding started_def by auto
    then show "\<not> isDone s0 d" using lg unfolding log_ok_def by blast
  next
    assume "\<not> isDone s0 d"
    with dn have "getStep s d \<noteq> getStep s0 d" by auto
    then show "d \<in> started s" using fr ids unfolding frame_ok_def by blast
  qed
  then show "mget dr d = (if isDone s0 d then None else Some (st_Outcome (getStep s d)))"
    using lg ids dn dr unfolding log_ok_def by auto
qed

text \<open>With distinct IDs every subtask is in the index.\<close>

lemma all_done_plan:
  assumes inv: "exec_inv s0 s" and b: "Execute_begin ord ctx plan = Inr s0" and ret: "es_ret s = Some None"
    and d: "distinct (map st_ID (rp_Subtasks (es_plan s0)))"
  shows "rp_State (es_plan s) = PlanStateDone"
proof -
  have fr: "frame_ok s0 s" and rt: "ret_ok s0 s" using inv by (simp_all add: exec_inv_def)
  have "stepIndex 0 (rp_Subtasks (es_plan s0)) [] = Inr (es_steps s0)"
    using b unfolding Execute_begin_def by (auto split: option.splits sum.splits if_splits)
  from stepIndex_keys [OF this] have keys: "stepIDs s0 = st_ID ` set (rp_Subtasks (es_plan s0))"
    by (simp add: stepIDs_def)
  have ids: "map st_ID (rp_Subtasks (es_plan s)) = map st_ID (rp_Subtasks (es_plan s0))"
    using fr by (simp add: frame_ok_def)
  have "st_State (rp_Subtasks (es_plan s) ! k) = SubtaskDone" if k: "k < length (rp_Subtasks (es_plan s))" for k
  proof -
    let ?i = "st_ID (rp_Subtasks (es_plan s) ! k)"
    have "st_ID ` set (rp_Subtasks (es_plan s)) = st_ID ` set (rp_Subtasks (es_plan s0))"
      using ids by (metis set_map)
    then have i: "?i \<in> stepIDs s0" using k unfolding keys by (metis image_eqI nth_mem)
    then obtain l where l: "mget (es_steps s) ?i = Some l"
      using fr unfolding frame_ok_def by (auto simp: stepIDs_iff)
    then have "l < length (rp_Subtasks (es_plan s))" "st_ID (rp_Subtasks (es_plan s) ! l) = ?i"
      using fr unfolding frame_ok_def index_ok_def by blast+
    then have "l = k" using d k unfolding ids [symmetric] by (simp add: distinct_conv_nth) metis
    then show ?thesis using rt ret i l unfolding ret_ok_def by (auto simp: getStep_def)
  qed
  then have "list_all (\<lambda>t. st_State t = SubtaskDone) (rp_Subtasks (es_plan s))" by (simp add: list_all_length)
  then show ?thesis using rt ret unfolding ret_ok_def by blast
qed

end
