(* ===== verification/SOP_Engine.thy ===== *)
theory SOP_Engine
  imports Go_Strings
begin

text \<open>
  Standard operating procedures (sop/sop.go): the serialisable state of a run, one step with its
  attempts, and the engine that drives the steps.  The agents are outside: what they answer is
  given by functions of the calls made so far, so that every behaviour of theirs is covered.
\<close>

section \<open>Data\<close>

datatype Phase = PhasePending | PhaseRunning | PhaseAwaiting | PhaseCompleted | PhaseFailed

record VerificationResult =
  vr_Passed :: bool
  vr_Message :: string
  vr_Verifier :: string
  vr_CreatedAt :: instant

record StepState =
  ss_Phase :: Phase
  ss_Given :: string
  ss_Submission :: string
  ss_HasSubmission :: bool
  ss_Verifications :: "VerificationResult list"

record RunState =
  rs_ID :: string
  rs_Inputs :: string
  rs_Steps :: "StepState list"
  rs_CreatedAt :: instant

text \<open>A step of the procedure; its agents are known by the step's index.\<close>

record Step =
  sp_Subject :: string
  sp_Description :: string
  sp_MaxAttempts :: int
  sp_Executor :: bool \<comment> \<open>not nil\<close>
  sp_Verifier :: bool \<comment> \<open>not nil\<close>
  sp_VerifierName :: string

record SOP =
  so_Name :: string
  so_Description :: string
  so_Steps :: "Step list"

definition maxAttempts :: "Step \<Rightarrow> nat" where
  "maxAttempts s = (if sp_MaxAttempts s \<le> 0 then 3 else nat (sp_MaxAttempts s))"

definition NewRunState :: "string \<Rightarrow> instant \<Rightarrow> SOP \<Rightarrow> string \<Rightarrow> RunState" where
  "NewRunState uuid now sop inputs =
     \<lparr>rs_ID = uuid, rs_Inputs = inputs,
      rs_Steps = map (\<lambda>_. \<lparr>ss_Phase = PhasePending, ss_Given = [], ss_Submission = [], ss_HasSubmission = False,
        ss_Verifications = []\<rparr>) (so_Steps sop), rs_CreatedAt = now\<rparr>"

text \<open>The phase of a run; the loop returns at the first failed step.\<close>

definition RunPhase :: "RunState option \<Rightarrow> Phase" where
  "RunPhase rs =
     (case rs of
        None \<Rightarrow> PhasePending
      | Some s \<Rightarrow>
          let ph = map ss_Phase (rs_Steps s)
          in if ph = [] then PhasePending
             else if PhaseFailed \<in> set ph then PhaseFailed
             else if PhaseAwaiting \<in> set ph then PhaseAwaiting
             else if PhaseRunning \<in> set ph then PhaseRunning
             else if PhaseCompleted \<in> set ph \<and> PhasePending \<notin> set ph then PhaseCompleted
             else if PhasePending \<in> set ph \<and> PhaseCompleted \<notin> set ph then PhasePending
             else PhaseRunning)"

section \<open>Agents\<close>

text \<open>Events of an executor's stream, as far as the engine looks at them.\<close>

datatype agent_event = EvPark string | EvInterrupt | EvOther string

definition isParkEvent :: "agent_event \<Rightarrow> bool" where
  "isParkEvent ev = (case ev of EvPark _ \<Rightarrow> True | _ \<Rightarrow> False)"

text \<open>Calls to agents: a new stream with its instruction, reading a parked stream on, the two structured calls.\<close>

datatype agent_call = CallReply nat string | CallResume nat | CallHandover nat | CallVerify nat string

text \<open>
  What the agents answer: the events of a stream until it closes (\<open>None\<close>: ReplyStream failed),
  the further events of a resumed one, the handover and the verdict (\<open>None\<close>: an error).  The
  clock and \<^verbatim>\<open>strconv.Quote\<close> (the verb \<open>%q\<close>) are given as well.
\<close>

record Agents =
  ag_Reply :: "agent_call list \<Rightarrow> nat \<Rightarrow> string \<Rightarrow> agent_event list option"
  ag_Resume :: "agent_call list \<Rightarrow> nat \<Rightarrow> agent_event list"
  ag_Handover :: "agent_call list \<Rightarrow> nat \<Rightarrow> string option"
  ag_Verdict :: "agent_call list \<Rightarrow> nat \<Rightarrow> string \<Rightarrow> (bool \<times> string) option"
  ag_Now :: "agent_call list \<Rightarrow> instant"
  ag_Quote :: "string \<Rightarrow> string"

section \<open>Engine\<close>

datatype sop_event =
    RunStarted
  | RunEnded Phase
  | StepStarted nat nat \<comment> \<open>step and attempt\<close>
  | StepEnded nat nat
  | Forwarded agent_event

record execSession =
  xs_stepIdx :: nat
  xs_rest :: "agent_event list" \<comment> \<open>events of the stream not read yet\<close>

record SopEngine =
  en_sop :: SOP
  en_state :: "RunState option"
  en_suspended :: "execSession option"
  en_out :: "sop_event list" \<comment> \<open>events sent to the caller\<close>
  en_calls :: "agent_call list" \<comment> \<open>calls made to agents\<close>

datatype sop_error = NilSOP | NoSteps | NoSubject nat | NoExecutor nat | ProcedureChanged

fun checkSteps :: "nat \<Rightarrow> Step list \<Rightarrow> sop_error option" where
  "checkSteps i [] = None"
| "checkSteps i (s # ss) =
     (if TrimSpace (sp_Subject s) = [] then Some (NoSubject i)
      else if \<not> sp_Executor s then Some (NoExecutor i)
      else checkSteps (Suc i) ss)"

definition NewSopEngine :: "SOP option \<Rightarrow> RunState option \<Rightarrow> sop_error + SopEngine" where
  "NewSopEngine sop state =
     (case sop of
        None \<Rightarrow> Inl NilSOP
      | Some p \<Rightarrow>
          if so_Steps p = [] then Inl NoSteps
          else case checkSteps 0 (so_Steps p) of
             Some e \<Rightarrow> Inl e
           | None \<Rightarrow>
               if (case state of None \<Rightarrow> False | Some s \<Rightarrow> length (rs_Steps s) \<noteq> length (so_Steps p))
               then Inl ProcedureChanged
               else Inr \<lparr>en_sop = p, en_state = state, en_suspended = None, en_out = [], en_calls = []\<rparr>)"

definition Suspended :: "SopEngine \<Rightarrow> bool" where
  "Suspended e \<longleftrightarrow> en_suspended e \<noteq> None"

text \<open>InjectEvent hands the answer to the parked executor; what follows is in \<open>ag_Resume\<close>.\<close>

definition InjectEvent :: "SopEngine \<Rightarrow> nat option" where
  "InjectEvent e = map_option xs_stepIdx (en_suspended e)"

definition emit :: "sop_event \<Rightarrow> SopEngine \<Rightarrow> SopEngine" where
  "emit ev e = e\<lparr>en_out := en_out e @ [ev]\<rparr>"

definition called :: "agent_call \<Rightarrow> SopEngine \<Rightarrow> SopEngine" where
  "called c e = e\<lparr>en_calls := en_calls e @ [c]\<rparr>"

section \<open>One attempt\<close>

text \<open>The loop over the stream: what was forwarded, how it ended, what is left unread.\<close>

datatype read_end = StreamClosed | StreamParked | StreamInterrupted

fun readStream :: "agent_event list \<Rightarrow> agent_event list \<times> read_end \<times> agent_event list" where
  "readStream [] = ([], StreamClosed, [])"
| "readStream (ev # evs) =
     (if isParkEvent ev then ([ev], StreamParked, evs)
      else if ev = EvInterrupt then ([ev], StreamInterrupted, evs)
      else case readStream evs of (fwd, r, rest) \<Rightarrow> (ev # fwd, r, rest))"

datatype exec_result = Handover string | Parked | Interrupted | ExecFailed

definition instruction :: "Step \<Rightarrow> string \<Rightarrow> string" where
  "instruction step given =
     ''Subject: '' @ sp_Subject step @ ''\<newline>\<newline>'' @ sp_Description step @ ''\<newline>\<newline><input>\<newline>'' @ given @
     ''\<newline></input>\<newline>\<newline>Complete the subject above. The input carries everything handed over so far.''"

text \<open>The stream is the parked one of this step, or a new one.\<close>

definition openStream :: "Agents \<Rightarrow> nat \<Rightarrow> Step \<Rightarrow> string \<Rightarrow> SopEngine \<Rightarrow> agent_event list option \<times> SopEngine" where
  "openStream ag index step given e =
     (case en_suspended e of
        Some xs \<Rightarrow>
          if xs_stepIdx xs = index
          then (Some (xs_rest xs @ ag_Resume ag (en_calls e) index), called (CallResume index) (e\<lparr>en_suspended := None\<rparr>))
          else (ag_Reply ag (en_calls e) index (instruction step given), called (CallReply index (instruction step given)) e)
      | None \<Rightarrow>
          (ag_Reply ag (en_calls e) index (instruction step given), called (CallReply index (instruction step given)) e))"

definition runExecutor :: "Agents \<Rightarrow> nat \<Rightarrow> Step \<Rightarrow> string \<Rightarrow> SopEngine \<Rightarrow> exec_result \<times> SopEngine" where
  "runExecutor ag index step given e =
     (case openStream ag index step given e of
        (None, e) \<Rightarrow> (ExecFailed, e)
      | (Some evs, e) \<Rightarrow>
          (case readStream evs of (fwd, r, rest) \<Rightarrow>
             let e = e\<lparr>en_out := en_out e @ map Forwarded fwd\<rparr>
             in case r of
                  StreamParked \<Rightarrow> (Parked, e\<lparr>en_suspended := Some \<lparr>xs_stepIdx = index, xs_rest = rest\<rparr>\<rparr>)
                | StreamInterrupted \<Rightarrow> (Interrupted, e)
                | StreamClosed \<Rightarrow>
                    (case ag_Handover ag (en_calls e) index of
                       None \<Rightarrow> (ExecFailed, called (CallHandover index) e)
                     | Some h \<Rightarrow> (if TrimSpace h = [] then ExecFailed else Handover h, called (CallHandover index) e))))"

definition runVerifier :: "Agents \<Rightarrow> nat \<Rightarrow> Step \<Rightarrow> string \<Rightarrow> SopEngine \<Rightarrow> VerificationResult option \<times> SopEngine" where
  "runVerifier ag index step submission e =
     (case ag_Verdict ag (en_calls e) index submission of
        None \<Rightarrow> (None, called (CallVerify index submission) e)
      | Some (passed, msg) \<Rightarrow>
          (Some \<lparr>vr_Passed = passed, vr_Message = msg, vr_Verifier = sp_VerifierName step,
             vr_CreatedAt = ag_Now ag (en_calls e)\<rparr>, called (CallVerify index submission) e))"

section \<open>One step\<close>

text \<open>The loop of runStep: at most \<open>maxAttempts\<close> settled judgments.\<close>

function attempts :: "Agents \<Rightarrow> nat \<Rightarrow> Step \<Rightarrow> StepState \<Rightarrow> SopEngine \<Rightarrow> StepState \<times> SopEngine" where
  "attempts ag index step st e =
     (if \<not> length (ss_Verifications st) < maxAttempts step then (st\<lparr>ss_Phase := PhaseFailed\<rparr>, e)
      else
        let st = st\<lparr>ss_Phase := PhaseRunning\<rparr>;
            e = emit (StepStarted index (length (ss_Verifications st) + 1)) e
        in case runExecutor ag index step (ss_Given st) e of
             (Parked, e) \<Rightarrow> (st\<lparr>ss_Phase := PhaseAwaiting\<rparr>, e)
           | (Interrupted, e) \<Rightarrow> (st\<lparr>ss_Phase := PhasePending\<rparr>, e)
           | (ExecFailed, e) \<Rightarrow> (st\<lparr>ss_Phase := PhaseFailed\<rparr>, e)
           | (Handover h, e) \<Rightarrow>
               let st = st\<lparr>ss_Submission := h, ss_HasSubmission := True\<rparr>
               in if \<not> sp_Verifier step
                  then let v = \<lparr>vr_Passed = True, vr_Message = [], vr_Verifier = [], vr_CreatedAt = ag_Now ag (en_calls e)\<rparr>;
                           st = st\<lparr>ss_Verifications := ss_Verifications st @ [v], ss_Phase := PhaseCompleted\<rparr>
                       in (st, emit (StepEnded index (length (ss_Verifications st))) e)
                  else case runVerifier ag index step h e of
                         (None, e) \<Rightarrow> (st\<lparr>ss_Phase := PhaseFailed\<rparr>, e)
                       | (Some v, e) \<Rightarrow>
                           let st = st\<lparr>ss_Verifications := ss_Verifications st @ [v]\<rparr>
                           in if vr_Passed v
                              then (st\<lparr>ss_Phase := PhaseCompleted\<rparr>, emit (StepEnded index (length (ss_Verifications st))) e)
                              else attempts ag index step
                                     (st\<lparr>ss_Submission := [], ss_HasSubmission := False, ss_Phase := PhasePending\<rparr>) e)"
  by pat_completeness auto
termination
  by (relation "measure (\<lambda>(_, _, step, st, _). maxAttempts step - length (ss_Verifications st))") auto

declare attempts.simps [simp del]

definition handover :: "Agents \<Rightarrow> SOP \<Rightarrow> RunState \<Rightarrow> nat \<Rightarrow> string" where
  "handover ag sop rs index =
     (if index = 0 then rs_Inputs rs
      else let prev = rs_Steps rs ! (index - 1)
           in if \<not> ss_HasSubmission prev \<or> ss_Submission prev = [] then []
              else ''<handover from='' @ ag_Quote ag (sp_Subject (so_Steps sop ! (index - 1))) @ ''>\<newline>'' @
                ss_Submission prev @ ''\<newline></handover>'')"

definition runStep :: "Agents \<Rightarrow> nat \<Rightarrow> RunState \<Rightarrow> SopEngine \<Rightarrow> RunState \<times> SopEngine" where
  "runStep ag index rs e =
     (let step = so_Steps (en_sop e) ! index;
          st = rs_Steps rs ! index;
          st = (if (case en_suspended e of None \<Rightarrow> True | Some xs \<Rightarrow> xs_stepIdx xs \<noteq> index)
                then st\<lparr>ss_Given := handover ag (en_sop e) rs index\<rparr> else st)
      in case attempts ag index step st e of
           (st, e) \<Rightarrow> (rs\<lparr>rs_Steps := (rs_Steps rs)[index := st]\<rparr>, e))"

section \<open>The run\<close>

text \<open>The loop of drive over the indexes that are left.\<close>

fun driveFrom :: "Agents \<Rightarrow> nat list \<Rightarrow> RunState \<Rightarrow> SopEngine \<Rightarrow> RunState \<times> SopEngine" where
  "driveFrom ag [] rs e = (rs, e)"
| "driveFrom ag (i # is) rs e =
     (if ss_Phase (rs_Steps rs ! i) = PhaseCompleted then driveFrom ag is rs e
      else if ss_Phase (rs_Steps rs ! i) = PhaseFailed then (rs, e)
      else case runStep ag i rs e of (rs, e) \<Rightarrow>
        if en_suspended e \<noteq> None then (rs, e)
        else if ss_Phase (rs_Steps rs ! i) = PhaseFailed then (rs, e)
        else driveFrom ag is rs e)"

text \<open>ReplyStream, up to the closing of the stream it returns; \<open>uuid\<close> and \<open>now\<close> are for a fresh run.\<close>

definition SOP_ReplyStream :: "Agents \<Rightarrow> string \<Rightarrow> instant \<Rightarrow> string \<Rightarrow> SopEngine \<Rightarrow> SopEngine" where
  "SOP_ReplyStream ag uuid now inputs e =
     (let e = emit RunStarted e;
          start = (case en_suspended e of Some xs \<Rightarrow> xs_stepIdx xs | None \<Rightarrow> 0);
          rs = (case en_state e of Some rs \<Rightarrow> rs | None \<Rightarrow> NewRunState uuid now (en_sop e) inputs)
      in case driveFrom ag [start..<length (so_Steps (en_sop e))] rs e of
           (rs, e) \<Rightarrow> emit (RunEnded (RunPhase (Some rs))) (e\<lparr>en_state := Some rs\<rparr>))"

end
