(* ===== verification/SOP_Laws.thy ===== *)
theory SOP_Laws
  imports SOP_Engine
begin

text \<open>
  The shape of run states, the order of the calls to agents, and the completion of a run whose
  agents cooperate.
\<close>

section \<open>Well-formed states\<close>

definition step_ok :: "Step \<Rightarrow> StepState \<Rightarrow> bool" where
  "step_ok step st \<longleftrightarrow>
     length (ss_Verifications st) \<le> maxAttempts step \<and>
     (\<forall>v \<in> set (butlast (ss_Verifications st)). \<not> vr_Passed v) \<and>
     (ss_Phase st = PhaseCompleted \<longleftrightarrow> ss_Verifications st \<noteq> [] \<and> vr_Passed (last (ss_Verifications st))) \<and>
     (ss_Phase st = PhaseCompleted \<longrightarrow> ss_HasSubmission st \<and> TrimSpace (ss_Submission st) \<noteq> []) \<and>
     (ss_Phase st = PhaseAwaiting \<longrightarrow> length (ss_Verifications st) < maxAttempts step) \<and>
     (ss_HasSubmission st \<longrightarrow> ss_Phase st \<in> {PhaseCompleted, PhaseFailed}) \<and>
     (\<not> ss_HasSubmission st \<longrightarrow> ss_Submission st = [])"

text \<open>The state between the attempts of a step: no submission, no passed verdict.\<close>

definition step_open :: "Step \<Rightarrow> StepState \<Rightarrow> bool" where
  "step_open step st \<longleftrightarrow>
     length (ss_Verifications st) \<le> maxAttempts step \<and>
     (\<forall>v \<in> set (ss_Verifications st). \<not> vr_Passed v) \<and>
     \<not> ss_HasSubmission st \<and> ss_Submission st = []"

lemma step_open_iff:
  "step_ok step st \<Longrightarrow> ss_Phase st \<notin> {PhaseCompleted, PhaseFailed} \<Longrightarrow> step_open step st"
  unfolding step_ok_def step_open_def
  by (cases "ss_Verifications st" rule: rev_cases) auto

lemma maxAttempts_pos: "0 < maxAttempts s"
  by (auto simp: maxAttempts_def)

section \<open>Streams and calls\<close>

definition callStep :: "agent_call \<Rightarrow> nat" where
  "callStep c = (case c of CallReply i _ \<Rightarrow> i | CallResume i \<Rightarrow> i | CallHandover i \<Rightarrow> i | CallVerify i _ \<Rightarrow> i)"

definition isReply :: "nat \<Rightarrow> agent_call \<Rightarrow> bool" where
  "isReply i c \<longleftrightarrow> (case c of CallReply j _ \<Rightarrow> j = i | _ \<Rightarrow> False)"

definition replyCount :: "nat \<Rightarrow> agent_call list \<Rightarrow> nat" where
  "replyCount i cs = length (filter (isReply i) cs)"

definition verifyCount :: "nat \<Rightarrow> agent_call list \<Rightarrow> nat" where
  "verifyCount i cs = length (filter (\<lambda>c. case c of CallVerify j _ \<Rightarrow> j = i | _ \<Rightarrow> False) cs)"

lemma replyCount_append [simp]: "replyCount i (xs @ ys) = replyCount i xs + replyCount i ys"
  by (simp add: replyCount_def)

lemma verifyCount_append [simp]: "verifyCount i (xs @ ys) = verifyCount i xs + verifyCount i ys"
  by (simp add: verifyCount_def)

lemma readStream_interrupt:
  "readStream evs = (fwd, r, rest) \<Longrightarrow> (r = StreamInterrupted \<longrightarrow> EvInterrupt \<in> set evs) \<and>
     (EvInterrupt \<in> set rest \<longrightarrow> EvInterrupt \<in> set evs)"
  by (induction evs arbitrary: fwd r rest) (auto split: if_splits prod.splits)

text \<open>The session of a parked step belongs to it, and nothing else is parked.\<close>

definition parkedAt :: "SopEngine \<Rightarrow> nat \<Rightarrow> bool" where
  "parkedAt e i \<longleftrightarrow> (case en_suspended e of None \<Rightarrow> False | Some xs \<Rightarrow> xs_stepIdx xs = i)"

definition quiet :: "Agents \<Rightarrow> bool" where
  "quiet ag \<longleftrightarrow>
     (\<forall>tr i s evs. ag_Reply ag tr i s = Some evs \<longrightarrow> EvInterrupt \<notin> set evs) \<and>
     (\<forall>tr i. EvInterrupt \<notin> set (ag_Resume ag tr i))"

definition quietRest :: "SopEngine \<Rightarrow> bool" where
  "quietRest e \<longleftrightarrow> (case en_suspended e of None \<Rightarrow> True | Some xs \<Rightarrow> EvInterrupt \<notin> set (xs_rest xs))"

text \<open>How an attempt gets its stream.\<close>

definition firstCall :: "SopEngine \<Rightarrow> nat \<Rightarrow> Step \<Rightarrow> string \<Rightarrow> agent_call" where
  "firstCall e index step given =
     (if parkedAt e index then CallResume index else CallReply index (instruction step given))"

lemma call_simps [simp]:
  "callStep (CallReply i s) = i" "callStep (CallResume i) = i" "callStep (CallHandover i) = i" "callStep (CallVerify i s) = i"
  "replyCount j [] = 0" "verifyCount j [] = 0"
  "replyCount j (CallReply i s # cs) = (if i = j then Suc (replyCount j cs) else replyCount j cs)"
  "replyCount j (CallResume i # cs) = replyCount j cs" "replyCount j (CallHandover i # cs) = replyCount j cs"
  "replyCount j (CallVerify i s # cs) = replyCount j cs"
  "verifyCount j (CallReply i s # cs) = verifyCount j cs" "verifyCount j (CallResume i # cs) = verifyCount j cs"
  "verifyCount j (CallHandover i # cs) = verifyCount j cs"
  "verifyCount j (CallVerify i s # cs) = (if i = j then Suc (verifyCount j cs) else verifyCount j cs)"
  by (simp_all add: callStep_def replyCount_def verifyCount_def isReply_def)

lemma firstCall_simps [simp]:
  "callStep (firstCall e i step given) = i"
  "verifyCount j (firstCall e i step given # cs) = verifyCount j cs"
  "replyCount i (firstCall e i step given # cs) = (if parkedAt e i then 0 else 1) + replyCount i cs"
  "CallReply j s = firstCall e i step given \<Longrightarrow> s = instruction step given"
  by (auto simp: firstCall_def split: if_splits)

text \<open>What one call of runExecutor does to the engine.\<close>

definition exec_post :: "Agents \<Rightarrow> nat \<Rightarrow> Step \<Rightarrow> string \<Rightarrow> SopEngine \<Rightarrow> exec_result \<Rightarrow> SopEngine \<Rightarrow> bool" where
  "exec_post ag index step given e r e' \<longleftrightarrow>
     en_sop e' = en_sop e \<and> en_state e' = en_state e \<and>
     (if r = Parked then parkedAt e' index else en_suspended e' = None) \<and>
     (\<forall>h. r = Handover h \<longrightarrow> TrimSpace h \<noteq> []) \<and>
     (quiet ag \<and> quietRest e \<longrightarrow> r \<noteq> Interrupted \<and> quietRest e') \<and>
     (\<exists>cs. en_calls e' = en_calls e @ firstCall e index step given # cs \<and> set cs \<subseteq> {CallHandover index} \<and>
        replyCount index cs = 0 \<and> verifyCount index cs = 0)"

lemma openStream_post:
  assumes "en_suspended e = None \<or> parkedAt e index" and "openStream ag index step given e = (evs, e')"
  shows "en_sop e' = en_sop e \<and> en_state e' = en_state e \<and> en_suspended e' = None \<and> en_out e' = en_out e \<and>
    (quiet ag \<and> quietRest e \<longrightarrow> (\<forall>l. evs = Some l \<longrightarrow> EvInterrupt \<notin> set l)) \<and>
    en_calls e' = en_calls e @ [firstCall e index step given]"
  using assms
  by (auto simp: openStream_def called_def parkedAt_def quiet_def quietRest_def firstCall_def split: option.splits if_splits)

lemma runExecutor_post:
  assumes "en_suspended e = None \<or> parkedAt e index" and "runExecutor ag index step given e = (r, e')"
  shows "exec_post ag index step given e r e'"
proof -
  obtain evs e1 where o1: "openStream ag index step given e = (evs, e1)" by fastforce
  note p = openStream_post [OF assms(1) o1]
  show ?thesis
  proof (cases evs)
    case None
    then show ?thesis using assms(2) o1 p by (auto simp: runExecutor_def exec_post_def quietRest_def)
  next
    case (Some l)
    obtain fwd s rest where rd: "readStream l = (fwd, s, rest)" by (metis prod_cases3)
    note ri = readStream_interrupt [OF rd]
    show ?thesis using assms(2) o1 p Some rd ri
      by (cases s) (auto simp: runExecutor_def exec_post_def quietRest_def parkedAt_def Let_def called_def
          split: option.splits if_splits)
  qed
qed

lemma emit_simps [simp]:
  "en_sop (emit ev e) = en_sop e" "en_state (emit ev e) = en_state e" "en_suspended (emit ev e) = en_suspended e"
  "en_calls (emit ev e) = en_calls e" "parkedAt (emit ev e) i = parkedAt e i" "quietRest (emit ev e) = quietRest e"
  "firstCall (emit ev e) i step given = firstCall e i step given"
  by (simp_all add: emit_def parkedAt_def quietRest_def firstCall_def)

lemma exec_post_emit: "exec_post ag i step given (emit ev e) r e' = exec_post ag i step given e r e'"
  by (simp add: exec_post_def)

section \<open>The attempts of a step\<close>

text \<open>
  What the loop of a step leaves behind: a well-formed step that is parked, interrupted, failed or
  completed; the engine is parked just when the step waits; the calls are this step's own, with
  its instruction, and its streams are bounded by its attempts.
\<close>

definition attempts_post :: "Agents \<Rightarrow> nat \<Rightarrow> Step \<Rightarrow> StepState \<Rightarrow> SopEngine \<Rightarrow> StepState \<Rightarrow> SopEngine \<Rightarrow> bool" where
  "attempts_post ag index step st e st' e' \<longleftrightarrow>
     step_ok step st' \<and> ss_Given st' = ss_Given st \<and> ss_Phase st' \<noteq> PhaseRunning \<and>
     en_sop e' = en_sop e \<and> en_state e' = en_state e \<and>
     (if ss_Phase st' = PhaseAwaiting then parkedAt e' index else en_suspended e' = None) \<and>
     (quiet ag \<and> quietRest e \<longrightarrow> ss_Phase st' \<noteq> PhasePending \<and> quietRest e') \<and>
     (\<exists>cs. en_calls e' = en_calls e @ cs \<and> (\<forall>c \<in> set cs. callStep c = index) \<and>
        (\<forall>j s. CallReply j s \<in> set cs \<longrightarrow> s = instruction step (ss_Given st)) \<and>
        (replyCount index (en_calls e) \<le> length (ss_Verifications st) + (if parkedAt e index then 1 else 0) \<longrightarrow>
         (ss_Phase st' \<noteq> PhasePending \<longrightarrow> replyCount index (en_calls e') \<le> length (ss_Verifications st') +
            (if ss_Phase st' \<in> {PhaseAwaiting, PhaseFailed} then 1 else 0)) \<and>
         replyCount index (en_calls e') \<le> maxAttempts step))"

text \<open>An attempt that is settled against the step, followed by the rest of the loop.\<close>

lemma attempts_post_reject:
  assumes x: "exec_post ag index step (ss_Given st) e (Handover h) e1"
    and e2: "en_sop e2 = en_sop e1" "en_state e2 = en_state e1" "en_suspended e2 = en_suspended e1"
      "en_calls e2 = en_calls e1 @ [CallVerify index h]"
    and st2: "ss_Given st2 = ss_Given st" "length (ss_Verifications st2) = Suc (length (ss_Verifications st))"
    and p: "attempts_post ag index step st2 e2 st' e'"
  shows "attempts_post ag index step st e st' e'"
proof -
  have q: "quietRest e2 = quietRest e1" "parkedAt e2 i = parkedAt e1 i" for i
    by (simp_all add: quietRest_def parkedAt_def e2)
  have np: "\<not> parkedAt e2 index" using x by (simp add: parkedAt_def e2 exec_post_def)
  obtain cs where cs: "en_calls e1 = en_calls e @ firstCall e index step (ss_Given st) # cs"
    "set cs \<subseteq> {CallHandover index}" "replyCount index cs = 0" using x by (auto simp: exec_post_def)
  obtain cs' where cs': "en_calls e' = en_calls e2 @ cs'" "\<forall>c \<in> set cs'. callStep c = index"
    "\<forall>j s. CallReply j s \<in> set cs' \<longrightarrow> s = instruction step (ss_Given st)"
    "replyCount index (en_calls e2) \<le> length (ss_Verifications st2) \<longrightarrow>
     (ss_Phase st' \<noteq> PhasePending \<longrightarrow> replyCount index (en_calls e') \<le> length (ss_Verifications st') +
        (if ss_Phase st' \<in> {PhaseAwaiting, PhaseFailed} then 1 else 0)) \<and>
     replyCount index (en_calls e') \<le> maxAttempts step"
    using p np st2(1) unfolding attempts_post_def by auto
  have "replyCount index (en_calls e2) \<le> length (ss_Verifications st2)"
    if "replyCount index (en_calls e) \<le> length (ss_Verifications st) + (if parkedAt e index then 1 else 0)"
    using that by (auto simp: e2(4) cs st2(2))
  then have "\<exists>cs. en_calls e' = en_calls e @ cs \<and> (\<forall>c \<in> set cs. callStep c = index) \<and>
        (\<forall>j s. CallReply j s \<in> set cs \<longrightarrow> s = instruction step (ss_Given st)) \<and>
        (replyCount index (en_calls e) \<le> length (ss_Verifications st) + (if parkedAt e index then 1 else 0) \<longrightarrow>
         (ss_Phase st' \<noteq> PhasePending \<longrightarrow> replyCount index (en_calls e') \<le> length (ss_Verifications st') +
            (if ss_Phase st' \<in> {PhaseAwaiting, PhaseFailed} then 1 else 0)) \<and>
         replyCount index (en_calls e') \<le> maxAttempts step)"
    using cs cs' e2(4)
    by (intro exI [of _ "firstCall e index step (ss_Given st) # cs @ CallVerify index h # cs'"]) auto
  then show ?thesis
    using x p unfolding attempts_post_def exec_post_def e2 q st2(1) by (auto split: if_splits)
qed

text \<open>An attempt that ends the loop; \<open>vs\<close> is the call to the verifier, if there was one.\<close>

lemma attempts_post_end:
  assumes x: "exec_post ag index step (ss_Given st) e r e1" and len: "length (ss_Verifications st) < maxAttempts step"
    and e': "en_sop e' = en_sop e1" "en_state e' = en_state e1" "en_suspended e' = en_suspended e1"
      "en_calls e' = en_calls e1 @ vs" "set vs \<subseteq> range (CallVerify index)" "replyCount index vs = 0"
    and st': "step_ok step st'" "ss_Given st' = ss_Given st" "ss_Phase st' \<noteq> PhaseRunning"
      "ss_Phase st' = PhaseAwaiting \<longleftrightarrow> r = Parked" "ss_Phase st' = PhasePending \<longrightarrow> r = Interrupted"
      "ss_Phase st' \<in> {PhaseAwaiting, PhaseFailed} \<or> ss_Phase st' = PhasePending \<or>
        length (ss_Verifications st') = Suc (length (ss_Verifications st))"
      "length (ss_Verifications st) \<le> length (ss_Verifications st')"
  shows "attempts_post ag index step st e st' e'"
proof -
  obtain cs where cs: "en_calls e1 = en_calls e @ firstCall e index step (ss_Given st) # cs"
    "set cs \<subseteq> {CallHandover index}" "replyCount index cs = 0" using x by (auto simp: exec_post_def)
  have q: "quietRest e' = quietRest e1" "parkedAt e' i = parkedAt e1 i" for i
    by (simp_all add: quietRest_def parkedAt_def e')
  have "\<exists>cs. en_calls e' = en_calls e @ cs \<and> (\<forall>c \<in> set cs. callStep c = index) \<and>
        (\<forall>j s. CallReply j s \<in> set cs \<longrightarrow> s = instruction step (ss_Given st)) \<and>
        (replyCount index (en_calls e) \<le> length (ss_Verifications st) + (if parkedAt e index then 1 else 0) \<longrightarrow>
         (ss_Phase st' \<noteq> PhasePending \<longrightarrow> replyCount index (en_calls e') \<le> length (ss_Verifications st') +
            (if ss_Phase st' \<in> {PhaseAwaiting, PhaseFailed} then 1 else 0)) \<and>
         replyCount index (en_calls e') \<le> maxAttempts step)"
    using cs e'(4-6) len st'(6,7)
    by (intro exI [of _ "firstCall e index step (ss_Given st) # cs @ vs"]) (fastforce split: if_splits)
  then show ?thesis
    using x st' unfolding attempts_post_def exec_post_def e'(1-3) q by (auto split: if_splits)
qed

lemma attempts_ok:
  assumes "step_open step st" and "en_suspended e = None \<or> parkedAt e index \<and> length (ss_Verifications st) < maxAttempts step"
    and "attempts ag index step st e = (st', e')"
  shows "attempts_post ag index step st e st' e'"
  using assms
proof (induction "maxAttempts step - length (ss_Verifications st)" arbitrary: st e rule: less_induct)
  case less
  show ?case
  proof (cases "length (ss_Verifications st) < maxAttempts step")
    case False
    then show ?thesis
      using less(2,3,4) by (auto simp: attempts.simps attempts_post_def step_ok_def step_open_def parkedAt_def dest: in_set_butlastD)
  next
    case True
    let ?st = "st\<lparr>ss_Phase := PhaseRunning\<rparr>" and ?e = "emit (StepStarted index (Suc (length (ss_Verifications st)))) e"
    obtain r e1 where r: "runExecutor ag index step (ss_Given st) ?e = (r, e1)" by fastforce
    have x: "exec_post ag index step (ss_Given st) e r e1"
      using runExecutor_post [OF _ r] less(3) by (auto simp: exec_post_emit)
    obtain cs where cs: "en_calls e1 = en_calls e @ firstCall e index step (ss_Given st) # cs"
      "set cs \<subseteq> {CallHandover index}" "replyCount index cs = 0" using x by (auto simp: exec_post_def)
    note run = less(4) [unfolded attempts.simps [of ag index step st e], simplified True not_True_eq_False if_False Let_def
        StepState.select_convs StepState.simps r]
    show ?thesis
    proof (cases r)
      case (Handover h)
      show ?thesis
      proof (cases "sp_Verifier step")
        case False
        show ?thesis
          using run less(2) True x Handover False by (intro attempts_post_end [OF x True, where vs = "[]"])
            (auto simp: r step_ok_def step_open_def exec_post_def)
      next
        case verifier: True
        obtain vr e2 where v: "runVerifier ag index step h e1 = (vr, e2)" by fastforce
        then have e2: "en_sop e2 = en_sop e1" "en_state e2 = en_state e1" "en_suspended e2 = en_suspended e1"
          "en_calls e2 = en_calls e1 @ [CallVerify index h]"
          by (auto simp: runVerifier_def called_def split: option.splits)
        have h: "TrimSpace h \<noteq> []" and nosus: "en_suspended e1 = None"
          using x Handover by (auto simp: exec_post_def)
        show ?thesis
        proof (cases "\<exists>w. vr = Some w \<and> \<not> vr_Passed w")
          case False
          then show ?thesis
            using run less(2) True h e2 Handover verifier
            by (intro attempts_post_end [OF x True, where vs = "[CallVerify index h]"])
              (auto simp: r v step_ok_def step_open_def split: option.splits if_splits dest: in_set_butlastD)
        next
          case rejected: True
          then obtain w where w: "vr = Some w" "\<not> vr_Passed w" by blast
          let ?st2 = "st\<lparr>ss_Verifications := ss_Verifications st @ [w], ss_Submission := [],
            ss_HasSubmission := False, ss_Phase := PhasePending\<rparr>"
          have rec: "attempts ag index step ?st2 e2 = (st', e')"
            using run by (simp add: r v Handover verifier w)
          have "attempts_post ag index step ?st2 e2 st' e'"
          proof (rule less(1) [OF _ _ _ rec])
            show "step_open step ?st2" using less(2) True w by (auto simp: step_open_def)
          qed (use True e2 nosus in auto)
          then show ?thesis
            using attempts_post_reject [OF x [unfolded Handover] e2, of ?st2] by simp
        qed
      qed
    next
      case Parked
      show ?thesis
        using run less(2) True by (intro attempts_post_end [OF x True, where vs = "[]"])
          (auto simp: r Parked step_ok_def step_open_def dest: in_set_butlastD)
    next
      case Interrupted
      show ?thesis
        using run less(2) True by (intro attempts_post_end [OF x True, where vs = "[]"])
          (auto simp: r Interrupted step_ok_def step_open_def dest: in_set_butlastD)
    next
      case ExecFailed
      show ?thesis
        using run less(2) True by (intro attempts_post_end [OF x True, where vs = "[]"])
          (auto simp: r ExecFailed step_ok_def step_open_def dest: in_set_butlastD)
    qed
  qed
qed

section \<open>The run\<close>

definition steps_ok :: "SOP \<Rightarrow> RunState \<Rightarrow> bool" where
  "steps_ok sop rs \<longleftrightarrow> length (rs_Steps rs) = length (so_Steps sop) \<and>
     (\<forall>i < length (so_Steps sop). step_ok (so_Steps sop ! i) (rs_Steps rs ! i))"

text \<open>The parked step is the one that waits.\<close>

definition parked_ok :: "SOP \<Rightarrow> RunState \<Rightarrow> SopEngine \<Rightarrow> bool" where
  "parked_ok sop rs e \<longleftrightarrow>
     (\<forall>i. parkedAt e i \<longrightarrow> i < length (so_Steps sop) \<and> ss_Phase (rs_Steps rs ! i) = PhaseAwaiting)"

lemma en_suspended_iff: "en_suspended e = None \<longleftrightarrow> (\<forall>i. \<not> parkedAt e i)"
  by (cases "en_suspended e") (auto simp: parkedAt_def)

lemma parkedAt_unique: "parkedAt e i \<Longrightarrow> parkedAt e j \<Longrightarrow> i = j"
  by (auto simp: parkedAt_def split: option.splits)

lemma step_ok_given [simp]: "step_ok step (st\<lparr>ss_Given := g\<rparr>) = step_ok step st"
  by (simp add: step_ok_def)

text \<open>One step of the run, for a step that is neither completed nor failed.\<close>

lemma runStep_ok:
  assumes ok: "steps_ok (en_sop e) rs" and i: "i < length (so_Steps (en_sop e))"
    and ph: "ss_Phase (rs_Steps rs ! i) \<notin> {PhaseCompleted, PhaseFailed}"
    and park: "en_suspended e = None \<or> parkedAt e i \<and> ss_Phase (rs_Steps rs ! i) = PhaseAwaiting"
    and run: "runStep ag i rs e = (rs', e')"
  obtains st st' where "rs' = rs\<lparr>rs_Steps := (rs_Steps rs)[i := st']\<rparr>"
    and "ss_Verifications st = ss_Verifications (rs_Steps rs ! i)"
    and "parkedAt e i \<or> ss_Given st = handover ag (en_sop e) rs i"
    and "parkedAt e i \<longrightarrow> st = rs_Steps rs ! i"
    and "attempts_post ag i (so_Steps (en_sop e) ! i) st e st' e'"
proof -
  define st where "st = (if (case en_suspended e of None \<Rightarrow> True | Some xs \<Rightarrow> xs_stepIdx xs \<noteq> i)
    then (rs_Steps rs ! i)\<lparr>ss_Given := handover ag (en_sop e) rs i\<rparr> else rs_Steps rs ! i)"
  obtain st' e1 where a: "attempts ag i (so_Steps (en_sop e) ! i) st e = (st', e1)" by fastforce
  then have r: "rs' = rs\<lparr>rs_Steps := (rs_Steps rs)[i := st']\<rparr>" "e1 = e'"
    using run by (simp_all add: runStep_def Let_def st_def [symmetric])
  have sok: "step_ok (so_Steps (en_sop e) ! i) (rs_Steps rs ! i)" using ok i by (simp add: steps_ok_def)
  have "step_open (so_Steps (en_sop e) ! i) (rs_Steps rs ! i)" by (rule step_open_iff [OF sok ph])
  then have "step_open (so_Steps (en_sop e) ! i) st" by (simp add: st_def step_open_def)
  moreover have "en_suspended e = None \<or> parkedAt e i \<and> length (ss_Verifications st) < maxAttempts (so_Steps (en_sop e) ! i)"
    using park sok by (auto simp: st_def step_ok_def)
  ultimately have "attempts_post ag i (so_Steps (en_sop e) ! i) st e st' e'"
    using attempts_ok a r(2) by blast
  moreover have "parkedAt e i \<or> ss_Given st = handover ag (en_sop e) rs i" "parkedAt e i \<longrightarrow> st = rs_Steps rs ! i"
    by (auto simp: st_def parkedAt_def split: option.splits)
  moreover have "ss_Verifications st = ss_Verifications (rs_Steps rs ! i)" by (simp add: st_def)
  ultimately show thesis using that r(1) by blast
qed

text \<open>The loop of drive keeps the run well formed.\<close>

lemma driveFrom_ok:
  assumes "steps_ok (en_sop e) rs" and "parked_ok (en_sop e) rs e"
    and "set is \<subseteq> {..<length (so_Steps (en_sop e))}"
    and "en_suspended e = None \<or> is \<noteq> [] \<and> parkedAt e (hd is)"
    and "driveFrom ag is rs e = (rs', e')"
  shows "steps_ok (en_sop e) rs' \<and> parked_ok (en_sop e) rs' e' \<and> en_sop e' = en_sop e \<and> en_state e' = en_state e"
  using assms
proof (induction ag "is" rs e rule: driveFrom.induct)
  case (1 ag rs e)
  then show ?case by simp
next
  case (2 ag i "is" rs e)
  let ?ph = "ss_Phase (rs_Steps rs ! i)"
  have park: "en_suspended e = None \<or> parkedAt e i \<and> ?ph = PhaseAwaiting"
    using 2(4,6) by (auto simp: parked_ok_def)
  show ?case
  proof (cases "?ph \<in> {PhaseCompleted, PhaseFailed}")
    case True
    then have ns: "en_suspended e = None" using park by auto
    show ?thesis
    proof (cases "?ph = PhaseCompleted")
      case comp: True
      have d: "driveFrom ag is rs e = (rs', e')" using 2(7) comp by simp
      have "set is \<subseteq> {..<length (so_Steps (en_sop e))}" using 2(5) by simp
      then show ?thesis using 2(1) [OF comp 2(3,4) _ _ d] \<open>en_suspended e = None\<close> by blast
    next
      case failed: False
      then have "rs' = rs \<and> e' = e" using 2(7) True by simp
      then show ?thesis using 2(3,4) by simp
    qed
  next
    case False
    obtain rs1 e1 where r: "runStep ag i rs e = (rs1, e1)" by fastforce
    have i: "i < length (so_Steps (en_sop e))" using 2(5) by simp
    obtain st st' where s: "rs1 = rs\<lparr>rs_Steps := (rs_Steps rs)[i := st']\<rparr>"
      "attempts_post ag i (so_Steps (en_sop e) ! i) st e st' e1"
      using runStep_ok [OF 2(3) i False park r] by metis
    have len: "length (rs_Steps rs) = length (so_Steps (en_sop e))" using 2(3) by (simp add: steps_ok_def)
    have e1: "en_sop e1 = en_sop e" "en_state e1 = en_state e" "step_ok (so_Steps (en_sop e) ! i) st'"
      "if ss_Phase st' = PhaseAwaiting then parkedAt e1 i else en_suspended e1 = None"
      using s(2) by (simp_all add: attempts_post_def)
    have ok1: "steps_ok (en_sop e1) rs1"
      using 2(3) e1 i by (auto simp: steps_ok_def s(1) nth_list_update)
    have ph1: "ss_Phase (rs_Steps rs1 ! i) = ss_Phase st'" using i len by (simp add: s(1))
    have pk1: "parked_ok (en_sop e1) rs1 e1"
      unfolding parked_ok_def
    proof (intro allI impI)
      fix j
      assume j: "parkedAt e1 j"
      then have "ss_Phase st' = PhaseAwaiting" using e1(4) by (auto simp: en_suspended_iff split: if_splits)
      then have "j = i" using e1(4) parkedAt_unique [OF j] by simp
      then show "j < length (so_Steps (en_sop e1)) \<and> ss_Phase (rs_Steps rs1 ! j) = PhaseAwaiting"
        using i e1(1) ph1 \<open>ss_Phase st' = PhaseAwaiting\<close> by simp
    qed
    show ?thesis
    proof (cases "en_suspended e1 \<noteq> None \<or> ss_Phase (rs_Steps rs1 ! i) = PhaseFailed")
      case True
      then have "rs' = rs1 \<and> e' = e1" using 2(7) False r by (simp split: if_splits)
      then show ?thesis using ok1 pk1 e1(1,2) by simp
    next
      case go: False
      then have d: "driveFrom ag is rs1 e1 = (rs', e')" using 2(7) False r by simp
      have "steps_ok (en_sop e1) rs' \<and> parked_ok (en_sop e1) rs' e' \<and> en_sop e' = en_sop e1 \<and> en_state e' = en_state e1"
        by (rule 2(2) [OF _ _ r [symmetric] _ _ ok1 pk1 _ _ d]) (use 2(5) False go e1(1) in auto)
      then show ?thesis using e1(1,2) by simp
    qed
  qed
qed

text \<open>The engine between two calls of ReplyStream.\<close>

definition engine_ok :: "SopEngine \<Rightarrow> bool" where
  "engine_ok e \<longleftrightarrow>
     (case en_state e of
        None \<Rightarrow> en_suspended e = None
      | Some rs \<Rightarrow> steps_ok (en_sop e) rs \<and> parked_ok (en_sop e) rs e)"

lemma step_ok_fresh: "step_ok step \<lparr>ss_Phase = PhasePending, ss_Given = [], ss_Submission = [],
    ss_HasSubmission = False, ss_Verifications = []\<rparr>"
  by (simp add: step_ok_def)

lemma steps_ok_NewRunState: "steps_ok sop (NewRunState uuid now sop inputs)"
  by (simp add: steps_ok_def NewRunState_def step_ok_fresh)

lemma engine_ok_ReplyStream:
  assumes ok: "engine_ok e"
  shows "engine_ok (SOP_ReplyStream ag uuid now inputs e) \<and> en_sop (SOP_ReplyStream ag uuid now inputs e) = en_sop e"
proof -
  define e0 where "e0 = emit RunStarted e"
  define start where "start = (case en_suspended e0 of Some xs \<Rightarrow> xs_stepIdx xs | None \<Rightarrow> 0)"
  define rs where "rs = (case en_state e0 of Some rs \<Rightarrow> rs | None \<Rightarrow> NewRunState uuid now (en_sop e0) inputs)"
  obtain rs' e' where d: "driveFrom ag [start..<length (so_Steps (en_sop e0))] rs e0 = (rs', e')" by fastforce
  have o1: "steps_ok (en_sop e0) rs" "parked_ok (en_sop e0) rs e0"
    using ok steps_ok_NewRunState
    by (auto simp: engine_ok_def rs_def e0_def parked_ok_def parkedAt_def split: option.splits)
  have "en_suspended e0 = None \<or> [start..<length (so_Steps (en_sop e0))] \<noteq> [] \<and>
      parkedAt e0 (hd [start..<length (so_Steps (en_sop e0))])"
  proof (cases "en_suspended e0")
    case (Some xs)
    then have "parkedAt e0 start" by (simp add: start_def parkedAt_def)
    then show ?thesis using o1(2) by (auto simp: parked_ok_def hd_upt)
  qed simp
  moreover have "set [start..<length (so_Steps (en_sop e0))] \<subseteq> {..<length (so_Steps (en_sop e0))}" by auto
  ultimately have "steps_ok (en_sop e0) rs' \<and> parked_ok (en_sop e0) rs' e' \<and> en_sop e' = en_sop e0"
    using driveFrom_ok [OF o1 _ _ d] by blast
  then show ?thesis
    using d unfolding SOP_ReplyStream_def Let_def e0_def [symmetric] start_def [symmetric] rs_def [symmetric]
    by (auto simp: engine_ok_def e0_def parked_ok_def parkedAt_def emit_def)
qed

end
