(* ===== verification/SOP_Order.thy ===== *)
theory SOP_Order
  imports SOP_Laws
begin

text \<open>
  The calls to the agents of a run over any number of ReplyStream calls, and the completion of a
  run whose agents cooperate.
\<close>

section \<open>Several calls\<close>

text \<open>One call of ReplyStream after another; \<open>xs\<close> has the identifier, the time and the inputs of each.\<close>

fun replyStreams :: "Agents \<Rightarrow> (string \<times> instant \<times> string) list \<Rightarrow> SopEngine \<Rightarrow> SopEngine" where
  "replyStreams ag [] e = e"
| "replyStreams ag ((uuid, now, inputs) # xs) e = replyStreams ag xs (SOP_ReplyStream ag uuid now inputs e)"

lemma engine_ok_replyStreams:
  "engine_ok e \<Longrightarrow> engine_ok (replyStreams ag xs e) \<and> en_sop (replyStreams ag xs e) = en_sop e"
  by (induction ag xs e rule: replyStreams.induct) (auto simp: engine_ok_ReplyStream)

lemma NewSopEngine_ok:
  assumes "NewSopEngine (Some p) state = Inr e" and "\<And>rs. state = Some rs \<Longrightarrow> steps_ok p rs"
  shows "engine_ok e \<and> en_sop e = p \<and> en_state e = state \<and> en_suspended e = None \<and> en_calls e = [] \<and> so_Steps p \<noteq> []"
  using assms
  by (auto simp: NewSopEngine_def engine_ok_def parked_ok_def parkedAt_def split: if_splits option.splits)

section \<open>The order of the calls\<close>

text \<open>
  Every call belongs to a step whose predecessors are completed, calls come in the order of the
  steps, and an executor's instruction is built from what its predecessor handed over.
\<close>

definition agent_calls_ok :: "Agents \<Rightarrow> SOP \<Rightarrow> RunState \<Rightarrow> agent_call list \<Rightarrow> bool" where
  "agent_calls_ok ag sop rs cs \<longleftrightarrow>
     sorted (map callStep cs) \<and>
     (\<forall>c \<in> set cs. callStep c < length (so_Steps sop)) \<and>
     (\<forall>c \<in> set cs. \<forall>i < callStep c. ss_Phase (rs_Steps rs ! i) = PhaseCompleted) \<and>
     (\<forall>j s. CallReply j s \<in> set cs \<longrightarrow> s = instruction (so_Steps sop ! j) (handover ag sop rs j)) \<and>
     (\<forall>j < length (so_Steps sop). replyCount j cs \<le> maxAttempts (so_Steps sop ! j))"

text \<open>The step states beside the calls made for them.\<close>

definition counts_ok :: "SOP \<Rightarrow> RunState \<Rightarrow> SopEngine \<Rightarrow> bool" where
  "counts_ok sop rs e \<longleftrightarrow> (\<forall>j < length (so_Steps sop).
     (ss_Phase (rs_Steps rs ! j) = PhasePending \<longrightarrow>
        ss_Verifications (rs_Steps rs ! j) = [] \<and> replyCount j (en_calls e) = 0) \<and>
     (ss_Phase (rs_Steps rs ! j) = PhaseAwaiting \<longrightarrow>
        replyCount j (en_calls e) \<le> Suc (length (ss_Verifications (rs_Steps rs ! j)))) \<and>
     (ss_Phase (rs_Steps rs ! j) = PhaseAwaiting \<longrightarrow> parkedAt e j) \<and>
     ss_Phase (rs_Steps rs ! j) \<noteq> PhaseRunning)"

definition order_inv :: "Agents \<Rightarrow> RunState \<Rightarrow> SopEngine \<Rightarrow> bool" where
  "order_inv ag rs e \<longleftrightarrow>
     steps_ok (en_sop e) rs \<and> parked_ok (en_sop e) rs e \<and> agent_calls_ok ag (en_sop e) rs (en_calls e) \<and>
     counts_ok (en_sop e) rs e \<and> quietRest e \<and>
     (\<forall>i. parkedAt e i \<longrightarrow> ss_Given (rs_Steps rs ! i) = handover ag (en_sop e) rs i \<and>
        (\<forall>j < i. ss_Phase (rs_Steps rs ! j) = PhaseCompleted))"

lemma handover_update:
  "j \<le> i \<Longrightarrow> handover ag sop (rs\<lparr>rs_Steps := (rs_Steps rs)[i := st]\<rparr>) j = handover ag sop rs j"
  by (simp add: handover_def)

text \<open>The calls of one step, when all steps before it are completed and it is not.\<close>

lemma agent_calls_ok_step:
  assumes c: "agent_calls_ok ag sop rs cs" and i: "i < length (so_Steps sop)"
    and before: "\<forall>j < i. ss_Phase (rs_Steps rs ! j) = PhaseCompleted"
    and ph: "ss_Phase (rs_Steps rs ! i) \<noteq> PhaseCompleted"
    and own: "\<forall>c \<in> set cs'. callStep c = i" "\<forall>j s. CallReply j s \<in> set cs' \<longrightarrow> s = instruction (so_Steps sop ! i) given"
    and given: "given = handover ag sop rs i"
    and count: "replyCount i (cs @ cs') \<le> maxAttempts (so_Steps sop ! i)"
  shows "agent_calls_ok ag sop (rs\<lparr>rs_Steps := (rs_Steps rs)[i := st']\<rparr>) (cs @ cs')"
proof -
  have upto: "callStep c \<le> i" if "c \<in> set cs" for c
    using c that ph unfolding agent_calls_ok_def by (meson not_le_imp_less)
  have other: "replyCount j cs' = 0" if "j \<noteq> i" for j
    using own(1) that by (auto simp: replyCount_def isReply_def filter_empty_conv callStep_def split: agent_call.splits)
  have ownj: "j = i \<and> s = instruction (so_Steps sop ! i) given" if "CallReply j s \<in> set cs'" for j s
    using own that by (metis call_simps(1))
  have "sorted (map callStep cs')" using own(1) by (induction cs') auto
  then have "sorted (map callStep (cs @ cs'))"
    using c own(1) upto by (auto simp: agent_calls_ok_def sorted_append)
  moreover have "s = instruction (so_Steps sop ! j) (handover ag sop (rs\<lparr>rs_Steps := (rs_Steps rs)[i := st']\<rparr>) j)"
    if "CallReply j s \<in> set (cs @ cs')" for j s
  proof (cases "CallReply j s \<in> set cs")
    case True
    then have "j \<le> i" using upto by fastforce
    then show ?thesis using c True by (simp add: handover_update agent_calls_ok_def)
  next
    case False
    then show ?thesis using that ownj given by (auto simp: handover_update)
  qed
  moreover have "ss_Phase ((rs_Steps rs)[i := st'] ! k) = PhaseCompleted" if "c \<in> set (cs @ cs')" "k < callStep c" for c k
  proof -
    have "callStep c \<le> i" using that(1) own(1) upto by auto
    then have "k < i" using that(2) by simp
    then show ?thesis using before by simp
  qed
  moreover have "callStep c < length (so_Steps sop)" if "c \<in> set (cs @ cs')" for c
    using that c own(1) i by (auto simp: agent_calls_ok_def)
  moreover have "replyCount j (cs @ cs') \<le> maxAttempts (so_Steps sop ! j)" if "j < length (so_Steps sop)" for j
    using c count other [of j] that by (cases "j = i") (auto simp: agent_calls_ok_def)
  ultimately show ?thesis unfolding agent_calls_ok_def by simp
qed

lemma runStep_order:
  assumes inv: "order_inv ag rs e" and q: "quiet ag" and i: "i < length (so_Steps (en_sop e))"
    and before: "\<forall>j < i. ss_Phase (rs_Steps rs ! j) = PhaseCompleted"
    and ph: "ss_Phase (rs_Steps rs ! i) \<notin> {PhaseCompleted, PhaseFailed}"
    and run: "runStep ag i rs e = (rs', e')"
  shows "order_inv ag rs' e' \<and> en_sop e' = en_sop e \<and> en_state e' = en_state e \<and>
    (\<forall>j < i. ss_Phase (rs_Steps rs' ! j) = PhaseCompleted) \<and>
    ss_Phase (rs_Steps rs' ! i) \<in> {PhaseAwaiting, PhaseFailed, PhaseCompleted} \<and>
    (en_suspended e' = None \<longleftrightarrow> ss_Phase (rs_Steps rs' ! i) \<noteq> PhaseAwaiting)"
proof -
  let ?sop = "en_sop e"
  have ok: "steps_ok ?sop rs" and qr: "quietRest e" and ct: "counts_ok ?sop rs e" and co: "agent_calls_ok ag ?sop rs (en_calls e)"
    and po: "parked_ok ?sop rs e" using inv by (simp_all add: order_inv_def)
  have len: "length (rs_Steps rs) = length (so_Steps ?sop)" using ok by (simp add: steps_ok_def)
  have only: "j = i" if "parkedAt e j" for j
  proof (rule ccontr)
    assume "j \<noteq> i"
    then consider "j < i" | "i < j" by linarith
    then show False
      using that before inv ph po by cases (auto simp: order_inv_def parked_ok_def)
  qed
  have park: "en_suspended e = None \<or> parkedAt e i \<and> ss_Phase (rs_Steps rs ! i) = PhaseAwaiting"
    using only po by (auto simp: en_suspended_iff parked_ok_def)
  obtain st st' where s: "rs' = rs\<lparr>rs_Steps := (rs_Steps rs)[i := st']\<rparr>"
    "ss_Verifications st = ss_Verifications (rs_Steps rs ! i)"
    "parkedAt e i \<or> ss_Given st = handover ag ?sop rs i"
    "parkedAt e i \<longrightarrow> st = rs_Steps rs ! i"
    "attempts_post ag i (so_Steps ?sop ! i) st e st' e'"
    using runStep_ok [OF ok i ph park run] by metis
  have given: "ss_Given st = handover ag ?sop rs i" using s(3,4) inv by (auto simp: order_inv_def)
  have st': "step_ok (so_Steps ?sop ! i) st'" "ss_Given st' = ss_Given st" "ss_Phase st' \<noteq> PhaseRunning"
    "en_sop e' = ?sop" "en_state e' = en_state e" "if ss_Phase st' = PhaseAwaiting then parkedAt e' i else en_suspended e' = None"
    "ss_Phase st' \<noteq> PhasePending" "quietRest e'"
    using s(5) q qr by (simp_all add: attempts_post_def)
  obtain cs where cs: "en_calls e' = en_calls e @ cs" "\<forall>c \<in> set cs. callStep c = i"
    "\<forall>j u. CallReply j u \<in> set cs \<longrightarrow> u = instruction (so_Steps ?sop ! i) (ss_Given st)"
    "replyCount i (en_calls e) \<le> length (ss_Verifications st) + (if parkedAt e i then 1 else 0) \<longrightarrow>
     (ss_Phase st' \<noteq> PhasePending \<longrightarrow> replyCount i (en_calls e') \<le> length (ss_Verifications st') +
       (if ss_Phase st' \<in> {PhaseAwaiting, PhaseFailed} then 1 else 0)) \<and>
     replyCount i (en_calls e') \<le> maxAttempts (so_Steps ?sop ! i)"
    using s(5) unfolding attempts_post_def by blast
  have "ss_Phase (rs_Steps rs ! i) \<in> {PhasePending, PhaseAwaiting}"
    using ph ct i by (cases "ss_Phase (rs_Steps rs ! i)") (auto simp: counts_ok_def)
  then have "replyCount i (en_calls e) \<le> length (ss_Verifications st) + (if parkedAt e i then 1 else 0)"
    using ct i s(2) by (auto simp: counts_ok_def)
  then have count: "replyCount i (en_calls e') \<le> maxAttempts (so_Steps ?sop ! i)"
    "ss_Phase st' = PhaseAwaiting \<Longrightarrow> replyCount i (en_calls e') \<le> Suc (length (ss_Verifications st'))"
    using cs(4) st'(7) by auto
  have others: "replyCount j (en_calls e') = replyCount j (en_calls e)" if "j \<noteq> i" for j
    using cs(1,2) that by (auto simp: replyCount_def isReply_def filter_empty_conv callStep_def split: agent_call.splits)
  have calls: "agent_calls_ok ag ?sop rs' (en_calls e')"
    unfolding s(1) cs(1)
    using ph count(1) cs(1) by (intro agent_calls_ok_step [OF co i before _ cs(2,3) given]) auto
  have nsus: "en_suspended e' = None \<longleftrightarrow> ss_Phase st' \<noteq> PhaseAwaiting"
    using st'(6) by (auto simp: en_suspended_iff split: if_splits)
  have pk: "j = i \<and> ss_Phase st' = PhaseAwaiting" if "parkedAt e' j" for j
    using st'(6) that parkedAt_unique by (auto simp: en_suspended_iff split: if_splits)
  have ph': "ss_Phase (rs_Steps rs' ! j) = (if j = i then ss_Phase st' else ss_Phase (rs_Steps rs ! j))" for j
    using i len by (simp add: s(1) nth_list_update)
  have "counts_ok ?sop rs' e'"
    unfolding counts_ok_def
  proof (intro allI impI)
    fix j
    assume j: "j < length (so_Steps ?sop)"
    show "(ss_Phase (rs_Steps rs' ! j) = PhasePending \<longrightarrow>
        ss_Verifications (rs_Steps rs' ! j) = [] \<and> replyCount j (en_calls e') = 0) \<and>
     (ss_Phase (rs_Steps rs' ! j) = PhaseAwaiting \<longrightarrow>
        replyCount j (en_calls e') \<le> Suc (length (ss_Verifications (rs_Steps rs' ! j)))) \<and>
     (ss_Phase (rs_Steps rs' ! j) = PhaseAwaiting \<longrightarrow> parkedAt e' j) \<and>
     ss_Phase (rs_Steps rs' ! j) \<noteq> PhaseRunning"
    proof (cases "j = i")
      case True
      then show ?thesis using st'(3,6,7) count(2) i len by (simp add: s(1))
    next
      case False
      then have "ss_Phase (rs_Steps rs ! j) \<noteq> PhaseAwaiting" using ct j only by (auto simp: counts_ok_def)
      then show ?thesis using False ct j others by (simp add: s(1) counts_ok_def)
    qed
  qed
  moreover have "steps_ok ?sop rs'" using ok st'(1) i by (auto simp: steps_ok_def s(1) nth_list_update)
  moreover have "parked_ok ?sop rs' e'" using pk i by (auto simp: parked_ok_def ph')
  moreover have "ss_Given (rs_Steps rs' ! j) = handover ag ?sop rs' j \<and> (\<forall>k < j. ss_Phase (rs_Steps rs' ! k) = PhaseCompleted)"
    if "parkedAt e' j" for j
    using pk [OF that] given st'(2) before i len by (simp add: s(1) handover_update)
  ultimately have "order_inv ag rs' e'" using calls st'(4,8) by (simp add: order_inv_def)
  moreover have "ss_Phase st' \<in> {PhaseAwaiting, PhaseFailed, PhaseCompleted}"
    using st'(3,7) by (cases "ss_Phase st'") auto
  ultimately show ?thesis using st'(4,5) before nsus by (simp add: ph')
qed

lemma driveFrom_order:
  assumes "order_inv ag rs e" and "quiet ag" and "\<forall>j < k. ss_Phase (rs_Steps rs ! j) = PhaseCompleted"
    and "n = length (so_Steps (en_sop e))" and "driveFrom ag [k..<n] rs e = (rs', e')"
  shows "order_inv ag rs' e' \<and> en_sop e' = en_sop e \<and> en_state e' = en_state e"
  using assms
proof (induction "n - k" arbitrary: k rs e)
  case 0
  then show ?case by simp
next
  case (Suc d)
  then have k: "k < n" "d = n - Suc k" "[k..<n] = k # [Suc k..<n]" by (auto simp: upt_conv_Cons)
  let ?ph = "ss_Phase (rs_Steps rs ! k)"
  consider "?ph = PhaseCompleted" | "?ph = PhaseFailed" | "?ph \<notin> {PhaseCompleted, PhaseFailed}" by blast
  then show ?case
  proof cases
    case 1
    then have "driveFrom ag [Suc k..<n] rs e = (rs', e')" using Suc(7) k(3) by simp
    moreover have "\<forall>j < Suc k. ss_Phase (rs_Steps rs ! j) = PhaseCompleted" using 1 Suc(5) less_Suc_eq by auto
    ultimately show ?thesis using Suc(1) [OF k(2) Suc(3,4) _ Suc(6)] by blast
  next
    case 2
    then show ?thesis using Suc(3,7) k(3) by simp
  next
    case 3
    obtain rs1 e1 where r: "runStep ag k rs e = (rs1, e1)" by fastforce
    have p: "order_inv ag rs1 e1" "en_sop e1 = en_sop e" "en_state e1 = en_state e"
      "\<forall>j < k. ss_Phase (rs_Steps rs1 ! j) = PhaseCompleted"
      "ss_Phase (rs_Steps rs1 ! k) \<in> {PhaseAwaiting, PhaseFailed, PhaseCompleted}"
      "en_suspended e1 = None \<longleftrightarrow> ss_Phase (rs_Steps rs1 ! k) \<noteq> PhaseAwaiting"
      using runStep_order [OF Suc(3,4) _ Suc(5) 3 r] k(1) Suc(6) by blast+
    show ?thesis
    proof (cases "ss_Phase (rs_Steps rs1 ! k) = PhaseCompleted")
      case True
      then have d: "driveFrom ag [Suc k..<n] rs1 e1 = (rs', e')" using Suc(7) k(3) r 3 p(6) by simp
      have "\<forall>j < Suc k. ss_Phase (rs_Steps rs1 ! j) = PhaseCompleted" using p(4) True less_Suc_eq by auto
      then show ?thesis using Suc(1) [OF k(2) p(1) Suc(4) _ _ d] Suc(6) p(2,3) by simp
    next
      case False
      then have "rs' = rs1 \<and> e' = e1" using Suc(7) k(3) r 3 p(5,6) by (auto split: if_splits)
      then show ?thesis using p(1-3) by simp
    qed
  qed
qed

text \<open>The invariant between two calls.\<close>

definition order_ok :: "Agents \<Rightarrow> SopEngine \<Rightarrow> bool" where
  "order_ok ag e \<longleftrightarrow>
     (case en_state e of
        None \<Rightarrow> en_suspended e = None \<and> en_calls e = []
      | Some rs \<Rightarrow> order_inv ag rs e)"

lemma order_inv_emit [simp]: "order_inv ag rs (emit ev e) = order_inv ag rs e"
  by (simp add: order_inv_def parked_ok_def counts_ok_def)

lemma order_inv_state [simp]: "order_inv ag rs (e\<lparr>en_state := s\<rparr>) = order_inv ag rs e"
  by (simp add: order_inv_def parked_ok_def counts_ok_def parkedAt_def quietRest_def)

lemma order_inv_fresh:
  "en_suspended e = None \<Longrightarrow> en_calls e = [] \<Longrightarrow> order_inv ag (NewRunState uuid now (en_sop e) inputs) e"
  using steps_ok_NewRunState [of "en_sop e" uuid now inputs]
  by (simp add: order_inv_def parked_ok_def parkedAt_def agent_calls_ok_def counts_ok_def quietRest_def NewRunState_def)

lemma order_ok_ReplyStream:
  assumes ok: "order_ok ag e" and q: "quiet ag"
  shows "order_ok ag (SOP_ReplyStream ag uuid now inputs e) \<and> en_sop (SOP_ReplyStream ag uuid now inputs e) = en_sop e"
proof -
  define e0 where "e0 = emit RunStarted e"
  define start where "start = (case en_suspended e0 of Some xs \<Rightarrow> xs_stepIdx xs | None \<Rightarrow> 0)"
  define rs where "rs = (case en_state e0 of Some rs \<Rightarrow> rs | None \<Rightarrow> NewRunState uuid now (en_sop e0) inputs)"
  obtain rs' e' where d: "driveFrom ag [start..<length (so_Steps (en_sop e0))] rs e0 = (rs', e')" by fastforce
  have inv: "order_inv ag rs e0"
    using ok order_inv_fresh by (auto simp: order_ok_def rs_def e0_def split: option.splits)
  have "\<forall>j < start. ss_Phase (rs_Steps rs ! j) = PhaseCompleted"
    using inv by (auto simp: start_def order_inv_def parkedAt_def split: option.splits)
  from driveFrom_order [OF inv q this refl d]
  have "order_inv ag rs' e' \<and> en_sop e' = en_sop e" by (simp add: e0_def)
  then show ?thesis
    using d unfolding SOP_ReplyStream_def Let_def e0_def [symmetric] start_def [symmetric] rs_def [symmetric]
    by (simp add: order_ok_def)
qed

lemma order_ok_replyStreams:
  "order_ok ag e \<Longrightarrow> quiet ag \<Longrightarrow> order_ok ag (replyStreams ag xs e) \<and> en_sop (replyStreams ag xs e) = en_sop e"
  by (induction ag xs e rule: replyStreams.induct) (auto simp: order_ok_ReplyStream)

lemma order_ok_fresh: "en_state e = None \<Longrightarrow> en_suspended e = None \<Longrightarrow> en_calls e = [] \<Longrightarrow> order_ok ag e"
  by (simp add: order_ok_def)

section \<open>Cooperating agents\<close>

text \<open>
  Executors answer without a park or an interruption and hand over something; verifiers return a
  verdict, and accept at the last attempt at the latest.
\<close>

definition cooperative :: "Agents \<Rightarrow> SOP \<Rightarrow> bool" where
  "cooperative ag sop \<longleftrightarrow>
     (\<forall>cs i s. case ag_Reply ag cs i s of
        None \<Rightarrow> False
      | Some evs \<Rightarrow> EvInterrupt \<notin> set evs \<and> (\<forall>ev \<in> set evs. \<not> isParkEvent ev)) \<and>
     (\<forall>cs i. case ag_Handover ag cs i of None \<Rightarrow> False | Some h \<Rightarrow> TrimSpace h \<noteq> []) \<and>
     (\<forall>cs i s. case ag_Verdict ag cs i s of
        None \<Rightarrow> False
      | Some (ok, msg) \<Rightarrow> i < length (so_Steps sop) \<and> Suc (verifyCount i cs) = maxAttempts (so_Steps sop ! i) \<longrightarrow> ok)"

lemma readStream_closed:
  "EvInterrupt \<notin> set evs \<Longrightarrow> \<forall>ev \<in> set evs. \<not> isParkEvent ev \<Longrightarrow> readStream evs = (evs, StreamClosed, [])"
  by (induction evs) auto

lemma cooperative_reply:
  assumes "cooperative ag sop"
  obtains evs where "ag_Reply ag cs i s = Some evs" and "readStream evs = (evs, StreamClosed, [])"
proof -
  have "case ag_Reply ag cs i s of None \<Rightarrow> False
      | Some evs \<Rightarrow> EvInterrupt \<notin> set evs \<and> (\<forall>ev \<in> set evs. \<not> isParkEvent ev)"
    using assms unfolding cooperative_def by blast
  then show thesis using that readStream_closed by (cases "ag_Reply ag cs i s") auto
qed

lemma cooperative_handover:
  assumes "cooperative ag sop"
  obtains h where "ag_Handover ag cs i = Some h" and "TrimSpace h \<noteq> []"
proof -
  have "case ag_Handover ag cs i of None \<Rightarrow> False | Some h \<Rightarrow> TrimSpace h \<noteq> []"
    using assms unfolding cooperative_def by blast
  then show thesis using that by (cases "ag_Handover ag cs i") auto
qed

lemma cooperative_verdict:
  assumes "cooperative ag sop"
  obtains ok msg where "ag_Verdict ag cs i s = Some (ok, msg)"
    and "i < length (so_Steps sop) \<Longrightarrow> Suc (verifyCount i cs) = maxAttempts (so_Steps sop ! i) \<Longrightarrow> ok"
proof -
  have "case ag_Verdict ag cs i s of None \<Rightarrow> False
      | Some (ok, msg) \<Rightarrow> i < length (so_Steps sop) \<and> Suc (verifyCount i cs) = maxAttempts (so_Steps sop ! i) \<longrightarrow> ok"
    using assms unfolding cooperative_def by blast
  then show thesis using that by (cases "ag_Verdict ag cs i s") auto
qed

lemma runExecutor_cooperative:
  assumes "cooperative ag sop" and "en_suspended e = None" and "runExecutor ag i step given e = (r, e')"
  shows "(\<exists>h. r = Handover h \<and> TrimSpace h \<noteq> []) \<and> en_suspended e' = None \<and> en_sop e' = en_sop e \<and>
    (\<forall>j. verifyCount j (en_calls e') = verifyCount j (en_calls e))"
proof -
  obtain evs where reply: "ag_Reply ag (en_calls e) i (instruction step given) = Some evs"
    "readStream evs = (evs, StreamClosed, [])" by (rule cooperative_reply [OF assms(1)])
  let ?e1 = "called (CallReply i (instruction step given)) e"
  obtain h where h: "ag_Handover ag (en_calls ?e1) i = Some h" "TrimSpace h \<noteq> []"
    by (rule cooperative_handover [OF assms(1)])
  have "openStream ag i step given e = (Some evs, ?e1)" using assms(2) reply(1) by (simp add: openStream_def)
  then have "(r, e') = (Handover h, called (CallHandover i) (?e1\<lparr>en_out := en_out ?e1 @ map Forwarded evs\<rparr>))"
    using assms(3) reply(2) h by (simp add: runExecutor_def)
  then show ?thesis using assms(2) h(2) by (simp add: called_def)
qed

lemma attempts_cooperative:
  assumes "cooperative ag sop" and "i < length (so_Steps sop)" and "step = so_Steps sop ! i"
    and "en_suspended e = None" and "length (ss_Verifications st) < maxAttempts step"
    and "sp_Verifier step \<longrightarrow> verifyCount i (en_calls e) = length (ss_Verifications st)"
    and "attempts ag i step st e = (st', e')"
  shows "ss_Phase st' = PhaseCompleted \<and> en_suspended e' = None \<and> en_sop e' = en_sop e \<and>
    (\<forall>j. j \<noteq> i \<longrightarrow> verifyCount j (en_calls e') = verifyCount j (en_calls e))"
  using assms
proof (induction "maxAttempts step - length (ss_Verifications st)" arbitrary: st e rule: less_induct)
  case less
  let ?e = "emit (StepStarted i (Suc (length (ss_Verifications st)))) e"
  obtain r e1 where r: "runExecutor ag i step (ss_Given st) ?e = (r, e1)" by fastforce
  have "en_suspended ?e = None" using less(5) by simp
  from runExecutor_cooperative [OF less(2) this r]
  obtain h where h: "r = Handover h" "en_suspended e1 = None" "en_sop e1 = en_sop e"
    "\<And>j. verifyCount j (en_calls e1) = verifyCount j (en_calls e)" by auto
  note run = less(8) [unfolded attempts.simps [of ag i step st e]]
  show ?case
  proof (cases "sp_Verifier step")
    case False
    then show ?thesis using run less(6) r h by (auto simp: Let_def)
  next
    case True
    obtain ok msg where v: "ag_Verdict ag (en_calls e1) i h = Some (ok, msg)"
      "Suc (verifyCount i (en_calls e1)) = maxAttempts step \<Longrightarrow> ok"
      using cooperative_verdict [OF less(2), of "en_calls e1" i h] less(3,4) by metis
    define e2 where "e2 = called (CallVerify i h) e1"
    define w where "w = \<lparr>vr_Passed = ok, vr_Message = msg, vr_Verifier = sp_VerifierName step, vr_CreatedAt = ag_Now ag (en_calls e1)\<rparr>"
    have rv: "runVerifier ag i step h e1 = (Some w, e2)" using v(1) by (simp add: runVerifier_def w_def e2_def)
    have e2: "en_suspended e2 = None" "en_sop e2 = en_sop e" "verifyCount i (en_calls e2) = Suc (verifyCount i (en_calls e))"
      "\<And>j. j \<noteq> i \<Longrightarrow> verifyCount j (en_calls e2) = verifyCount j (en_calls e)"
      using h by (auto simp: e2_def called_def)
    show ?thesis
    proof (cases ok)
      case pass: True
      then show ?thesis using run less(6) r h(1) True rv e2 by (auto simp: Let_def w_def)
    next
      case again: False
      let ?st2 = "st\<lparr>ss_Verifications := ss_Verifications st @ [w], ss_Submission := [],
        ss_HasSubmission := False, ss_Phase := PhasePending\<rparr>"
      have rec: "attempts ag i step ?st2 e2 = (st', e')"
        using run less(6) r h(1) True rv again by (simp add: Let_def w_def)
      have "Suc (length (ss_Verifications st)) \<noteq> maxAttempts step"
        using v(2) again h(4) [of i] less(7) True by auto
      then have lt: "length (ss_Verifications ?st2) < maxAttempts step" using less(6) by simp
      have "maxAttempts step - length (ss_Verifications ?st2) < maxAttempts step - length (ss_Verifications st)"
        using less(6) by simp
      from less(1) [OF this less(2-4) e2(1) lt _ rec]
      show ?thesis using e2 less(7) True by simp
    qed
  qed
qed

text \<open>The loop of drive on steps that have not run.\<close>

definition untouched :: "RunState \<Rightarrow> SopEngine \<Rightarrow> nat \<Rightarrow> bool" where
  "untouched rs e j \<longleftrightarrow> ss_Phase (rs_Steps rs ! j) = PhasePending \<and> ss_Verifications (rs_Steps rs ! j) = [] \<and>
     verifyCount j (en_calls e) = 0"

lemma driveFrom_cooperative:
  assumes "cooperative ag (en_sop e)" and "n = length (so_Steps (en_sop e))" and "length (rs_Steps rs) = n"
    and "en_suspended e = None" and "\<forall>j < k. ss_Phase (rs_Steps rs ! j) = PhaseCompleted"
    and "k \<le> n" and "\<forall>j < n. k \<le> j \<longrightarrow> untouched rs e j" and "driveFrom ag [k..<n] rs e = (rs', e')"
  shows "length (rs_Steps rs') = n \<and> (\<forall>j < n. ss_Phase (rs_Steps rs' ! j) = PhaseCompleted)"
  using assms
proof (induction "n - k" arbitrary: k rs e)
  case 0
  then show ?case by simp
next
  case (Suc d)
  then have k: "k < n" "d = n - Suc k" "[k..<n] = k # [Suc k..<n]" by (auto simp: upt_conv_Cons)
  have u: "ss_Phase (rs_Steps rs ! k) = PhasePending" "ss_Verifications (rs_Steps rs ! k) = []"
    "verifyCount k (en_calls e) = 0" using Suc(9) k(1) by (auto simp: untouched_def)
  let ?st = "(rs_Steps rs ! k)\<lparr>ss_Given := handover ag (en_sop e) rs k\<rparr>"
  obtain st1 e1 where a: "attempts ag k (so_Steps (en_sop e) ! k) ?st e = (st1, e1)" by fastforce
  have r: "runStep ag k rs e = (rs\<lparr>rs_Steps := (rs_Steps rs)[k := st1]\<rparr>, e1)"
    using a Suc(6) by (simp add: runStep_def)
  have p: "ss_Phase st1 = PhaseCompleted" "en_suspended e1 = None" "en_sop e1 = en_sop e"
    "\<And>j. j \<noteq> k \<Longrightarrow> verifyCount j (en_calls e1) = verifyCount j (en_calls e)"
    using attempts_cooperative [OF Suc(3) _ refl Suc(6) _ _ a] k(1) Suc(4) u maxAttempts_pos by simp_all
  let ?rs1 = "rs\<lparr>rs_Steps := (rs_Steps rs)[k := st1]\<rparr>"
  have d: "driveFrom ag [Suc k..<n] ?rs1 e1 = (rs', e')"
    using Suc(10) k r u(1) p(1,2) Suc(5) by simp
  show ?case
  proof (rule Suc(1) [OF k(2) _ _ _ p(2) _ _ _ d])
    show "\<forall>j < Suc k. ss_Phase (rs_Steps ?rs1 ! j) = PhaseCompleted"
      using Suc(5,7) k(1) p(1) by (auto simp: nth_list_update less_Suc_eq)
    show "\<forall>j < n. Suc k \<le> j \<longrightarrow> untouched ?rs1 e1 j"
      using Suc(9) p(4) by (auto simp: untouched_def)
  qed (use Suc(3-5) p(3) k(1) in auto)
qed

lemma cooperative_run:
  assumes "NewSopEngine (Some p) None = Inr e" and "cooperative ag p"
  shows "\<exists>rs. en_state (SOP_ReplyStream ag uuid now inputs e) = Some rs \<and> RunPhase (Some rs) = PhaseCompleted \<and>
    (\<forall>st \<in> set (rs_Steps rs). ss_HasSubmission st \<and> TrimSpace (ss_Submission st) \<noteq> [])"
proof -
  have e: "en_sop e = p" "en_state e = None" "en_suspended e = None" "en_calls e = []" "so_Steps p \<noteq> []" "engine_ok e"
    using NewSopEngine_ok [OF assms(1)] by simp_all
  let ?rs = "NewRunState uuid now p inputs" and ?e = "emit RunStarted e"
  obtain rs' e' where d: "driveFrom ag [0..<length (so_Steps p)] ?rs ?e = (rs', e')" by fastforce
  have all: "length (rs_Steps rs') = length (so_Steps p) \<and>
    (\<forall>j < length (so_Steps p). ss_Phase (rs_Steps rs' ! j) = PhaseCompleted)"
    by (rule driveFrom_cooperative [OF _ _ _ _ _ _ _ d]) (simp_all add: e assms(2) NewRunState_def untouched_def)
  have st: "en_state (SOP_ReplyStream ag uuid now inputs e) = Some rs'"
    using d by (simp add: SOP_ReplyStream_def e emit_def)
  have "steps_ok p rs'" using engine_ok_ReplyStream [OF e(6), of ag uuid now inputs] st e(1) by (auto simp: engine_ok_def)
  then have sub: "ss_HasSubmission s \<and> TrimSpace (ss_Submission s) \<noteq> []" if "s \<in> set (rs_Steps rs')" for s
    using that all by (auto simp: steps_ok_def step_ok_def in_set_conv_nth)
  have "set (map ss_Phase (rs_Steps rs')) = {PhaseCompleted}"
    using all e(5) by (auto simp: in_set_conv_nth image_iff) (metis length_greater_0_conv nth_mem)
  then have "RunPhase (Some rs') = PhaseCompleted"
    by (auto simp: RunPhase_def Let_def)
  then show ?thesis using st sub by blast
qed

end
