(* ===== verification/React_Msg.thy ===== *)
theory React_Msg
  imports Perm_Gate
begin

text \<open>
  Messages and their content blocks (message/msg.go, block.go), the events of a reply stream
  (event/), and the incremental assembly of a message from events (message/event_append.go,
  agent/collect.go).
\<close>

section \<open>Blocks and messages\<close>

record BlockSource =
  src_Type :: string
  src_MediaType :: string
  src_Data :: string
  src_URL :: string

datatype ContentBlock =
    TextBlock string
  | ThinkingBlock string string \<comment> \<open>text and signature\<close>
  | HintBlock string string \<comment> \<open>text and kind\<close>
  | DataBlock string "BlockSource option"
  | ImageBlock string string string \<comment> \<open>URL, base64, MIME type\<close>
  | AudioBlock string string string
  | VideoBlock string
  | ToolUse ToolUseBlock
  | ToolResult string "ContentBlock list" bool string \<comment> \<open>tool use id, content, is error, state\<close>

datatype MsgRole = RoleUser | RoleAssistant | RoleSystem | RoleTool

record TokenUsage =
  tu_Prompt :: int
  tu_Completion :: int
  tu_Total :: int
  tu_CachedPrompt :: int
  tu_CacheCreation :: int

type_synonym ChatUsage = TokenUsage

definition noUsage :: TokenUsage where
  "noUsage = \<lparr>tu_Prompt = 0, tu_Completion = 0, tu_Total = 0, tu_CachedPrompt = 0, tu_CacheCreation = 0\<rparr>"

definition Usage_Add :: "TokenUsage \<Rightarrow> TokenUsage \<Rightarrow> TokenUsage" where
  "Usage_Add u v = \<lparr>tu_Prompt = tu_Prompt u + tu_Prompt v, tu_Completion = tu_Completion u + tu_Completion v,
     tu_Total = tu_Total u + tu_Total v, tu_CachedPrompt = tu_CachedPrompt u + tu_CachedPrompt v,
     tu_CacheCreation = tu_CacheCreation u + tu_CacheCreation v\<rparr>"

text \<open>Of the metadata only the entry \<^verbatim>\<open>usage\<close> is read.\<close>

record Msg =
  mg_ID :: string
  mg_Role :: MsgRole
  mg_Name :: string
  mg_Content :: "ContentBlock list"
  mg_MetaUsage :: "ChatUsage option"
  mg_Finished :: bool
  mg_Usage :: "TokenUsage option"

definition newMsg :: "string \<Rightarrow> MsgRole \<Rightarrow> ContentBlock list \<Rightarrow> Msg" where
  "newMsg uuid role blocks = \<lparr>mg_ID = uuid, mg_Role = role, mg_Name = [], mg_Content = blocks, mg_MetaUsage = None,
     mg_Finished = False, mg_Usage = None\<rparr>"

fun blockText :: "ContentBlock \<Rightarrow> string" where
  "blockText (TextBlock t) = t"
| "blockText _ = []"

fun blockThinking :: "ContentBlock \<Rightarrow> string" where
  "blockThinking (ThinkingBlock t _) = t"
| "blockThinking _ = []"

fun isText :: "ContentBlock \<Rightarrow> bool" where
  "isText (TextBlock _) = True"
| "isText _ = False"

fun isThinking :: "ContentBlock \<Rightarrow> bool" where
  "isThinking (ThinkingBlock _ _) = True"
| "isThinking _ = False"

definition textOf :: "ContentBlock list \<Rightarrow> string" where
  "textOf bs = concat (map blockText bs)"

definition GetTextContent :: "Msg \<Rightarrow> string" where
  "GetTextContent m = textOf (mg_Content m)"

definition GetThinkingContent :: "Msg \<Rightarrow> string" where
  "GetThinkingContent m = concat (map blockThinking (mg_Content m))"

fun toolUseOf :: "ContentBlock \<Rightarrow> ToolUseBlock option" where
  "toolUseOf (ToolUse c) = Some c"
| "toolUseOf _ = None"

definition GetToolUseCalls :: "Msg \<Rightarrow> ToolUseBlock list" where
  "GetToolUseCalls m = List.map_filter toolUseOf (mg_Content m)"

section \<open>Errors\<close>

text \<open>
  The error values of a turn.  An error event carries the text of one; the value itself is kept
  here, as \<^verbatim>\<open>errors.Is\<close> looks through wrapped errors.
\<close>

datatype AgentErr =
    ErrHookInterrupted
  | ErrCanceled
  | ErrDeadline
  | ErrAgentClosed
  | ErrAgentInterrupted
  | ErrEmptyModelResponse
  | ErrDenied string sprintf \<comment> \<open>permission denied for a tool: the engine's message\<close>
  | ErrText string
  | ErrWrap string AgentErr

fun errIs :: "AgentErr \<Rightarrow> AgentErr \<Rightarrow> bool" where
  "errIs (ErrWrap s e) t = (ErrWrap s e = t \<or> errIs e t)"
| "errIs e t = (e = t)"

fun blankErr :: "AgentErr \<Rightarrow> bool" where
  "blankErr (ErrText s) = (s = [])"
| "blankErr (ErrWrap s e) = (s = [] \<and> blankErr e)"
| "blankErr _ = False"

section \<open>Events of a reply\<close>

text \<open>Every event also carries the reply's identifier; only the other fields are listed.\<close>

datatype AgentEvent =
    ReplyStart string
  | ReplyEnd string
  | ModelCallStart string
  | ModelCallEnd string int int int int \<comment> \<open>model; input, output, cached, cache creation tokens\<close>
  | ExceedMaxIters int
  | ErrorEvent AgentErr
  | InterruptEvent string
  | TextBlockStart int
  | TextBlockDelta int string
  | TextBlockEnd int
  | ThinkingBlockStart int
  | ThinkingBlockDelta int string
  | ThinkingBlockEnd int
  | HintBlockStart int
  | HintBlockDelta int string
  | HintBlockEnd int
  | DataBlockStart int string \<comment> \<open>media type\<close>
  | DataBlockDelta int string string \<comment> \<open>data and media type\<close>
  | DataBlockEnd int
  | ToolCallStart int string string \<comment> \<open>id and name\<close>
  | ToolCallDelta int string string
  | ToolCallEnd int string
  | ToolResultStart int string string
  | ToolResultTextDelta int string string
  | ToolResultDataDelta int string string string
  | ToolResultEnd int string
  | RequireUserConfirm string "ToolCallSummary list"
  | RequireExternalExecution string "ToolCallSummary list"

section \<open>Message from events\<close>

text \<open>Update the block with a given index among those of its kind.\<close>

fun updBlock :: "('b \<Rightarrow> bool) \<Rightarrow> ('b \<Rightarrow> 'b) \<Rightarrow> int \<Rightarrow> 'b list \<Rightarrow> 'b list option" where
  "updBlock p f i [] = None"
| "updBlock p f i (b # bs) =
     (if p b then (if i = 0 then Some (f b # bs) else map_option ((#) b) (updBlock p f (i - 1) bs))
      else map_option ((#) b) (updBlock p f i bs))"

fun updFirst :: "('b \<Rightarrow> bool) \<Rightarrow> ('b \<Rightarrow> 'b) \<Rightarrow> 'b list \<Rightarrow> 'b list option" where
  "updFirst p f [] = None"
| "updFirst p f (b # bs) = (if p b then Some (f b # bs) else map_option ((#) b) (updFirst p f bs))"

text \<open>The common shape of a delta: when the block is missing append an empty one and look again.\<close>

definition orAppend :: "('b list \<Rightarrow> 'b list option) \<Rightarrow> 'b \<Rightarrow> 'b list \<Rightarrow> 'b list" where
  "orAppend upd b bs =
     (case upd bs of Some bs' \<Rightarrow> bs'
      | None \<Rightarrow> (case upd (bs @ [b]) of Some bs' \<Rightarrow> bs' | None \<Rightarrow> bs @ [b]))"

fun addText :: "string \<Rightarrow> ContentBlock \<Rightarrow> ContentBlock" where
  "addText d (TextBlock t) = TextBlock (t @ d)"
| "addText d b = b"

fun addThinking :: "string \<Rightarrow> ContentBlock \<Rightarrow> ContentBlock" where
  "addThinking d (ThinkingBlock t s) = ThinkingBlock (t @ d) s"
| "addThinking d b = b"

fun isHint :: "ContentBlock \<Rightarrow> bool" where
  "isHint (HintBlock _ _) = True"
| "isHint _ = False"

fun addHint :: "string \<Rightarrow> ContentBlock \<Rightarrow> ContentBlock" where
  "addHint d (HintBlock t k) = HintBlock (t @ d) k"
| "addHint d b = b"

fun isData :: "ContentBlock \<Rightarrow> bool" where
  "isData (DataBlock _ _) = True"
| "isData _ = False"

definition mediaSource :: "string \<Rightarrow> BlockSource" where
  "mediaSource mt = \<lparr>src_Type = [], src_MediaType = mt, src_Data = [], src_URL = []\<rparr>"

fun addData :: "string \<Rightarrow> string \<Rightarrow> ContentBlock \<Rightarrow> ContentBlock" where
  "addData d mt (DataBlock t s) =
     (let s = (case s of None \<Rightarrow> mediaSource mt | Some s \<Rightarrow> s) in DataBlock t (Some (s\<lparr>src_Data := src_Data s @ d\<rparr>)))"
| "addData d mt b = b"

fun isToolUse :: "string \<Rightarrow> ContentBlock \<Rightarrow> bool" where
  "isToolUse i (ToolUse c) = (tc_ID c = i)"
| "isToolUse i _ = False"

text \<open>\<open>parse\<close> is \<^verbatim>\<open>json.Unmarshal\<close> into a map.\<close>

fun addRawInput :: "(string \<Rightarrow> Input option) \<Rightarrow> string \<Rightarrow> ContentBlock \<Rightarrow> ContentBlock" where
  "addRawInput parse d (ToolUse c) =
     (let raw = tc_RawInput c @ d
      in ToolUse (c\<lparr>tc_RawInput := raw, tc_Input := (case parse raw of None \<Rightarrow> tc_Input c | Some i \<Rightarrow> i)\<rparr>))"
| "addRawInput parse d b = b"

fun isToolResult :: "string \<Rightarrow> ContentBlock \<Rightarrow> bool" where
  "isToolResult i (ToolResult j _ _ _) = (j = i)"
| "isToolResult i _ = False"

fun addResultBlock :: "ContentBlock \<Rightarrow> ContentBlock \<Rightarrow> ContentBlock" where
  "addResultBlock x (ToolResult i bs e s) = ToolResult i (bs @ [x]) e s"
| "addResultBlock x b = b"

fun completeResult :: "ContentBlock \<Rightarrow> ContentBlock" where
  "completeResult (ToolResult i bs e s) = ToolResult i bs e ''completed''"
| "completeResult b = b"

definition dataDeltaToBlock :: "string \<Rightarrow> string \<Rightarrow> ContentBlock" where
  "dataDeltaToBlock d mt =
     (if HasPrefix mt ''image/'' then ImageBlock d [] mt
      else if HasPrefix mt ''audio/'' then AudioBlock d [] mt
      else if HasPrefix mt ''video/'' then VideoBlock d
      else DataBlock ''data'' (Some ((mediaSource mt)\<lparr>src_Data := d\<rparr>)))"

definition addCallUsage :: "int \<Rightarrow> int \<Rightarrow> int \<Rightarrow> int \<Rightarrow> TokenUsage option \<Rightarrow> TokenUsage" where
  "addCallUsage i out c cc u =
     Usage_Add (case u of None \<Rightarrow> noUsage | Some u \<Rightarrow> u)
       \<lparr>tu_Prompt = i, tu_Completion = out, tu_Total = i + out, tu_CachedPrompt = c, tu_CacheCreation = cc\<rparr>"

definition onContent :: "(ContentBlock list \<Rightarrow> ContentBlock list) \<Rightarrow> Msg \<Rightarrow> Msg" where
  "onContent f m = m\<lparr>mg_Content := f (mg_Content m)\<rparr>"

fun AppendEvent :: "(string \<Rightarrow> Input option) \<Rightarrow> AgentEvent \<Rightarrow> Msg \<Rightarrow> Msg" where
  "AppendEvent parse (ReplyEnd _) m = m\<lparr>mg_Finished := True\<rparr>"
| "AppendEvent parse (ModelCallEnd _ i out c cc) m = m\<lparr>mg_Usage := Some (addCallUsage i out c cc (mg_Usage m))\<rparr>"
| "AppendEvent parse (TextBlockStart _) m = onContent (\<lambda>bs. bs @ [TextBlock []]) m"
| "AppendEvent parse (TextBlockDelta i d) m = onContent (orAppend (updBlock isText (addText d) i) (TextBlock [])) m"
| "AppendEvent parse (ThinkingBlockStart _) m = onContent (\<lambda>bs. bs @ [ThinkingBlock [] []]) m"
| "AppendEvent parse (ThinkingBlockDelta i d) m =
     onContent (orAppend (updBlock isThinking (addThinking d) i) (ThinkingBlock [] [])) m"
| "AppendEvent parse (HintBlockStart _) m = onContent (\<lambda>bs. bs @ [HintBlock [] []]) m"
| "AppendEvent parse (HintBlockDelta i d) m = onContent (orAppend (updBlock isHint (addHint d) i) (HintBlock [] [])) m"
| "AppendEvent parse (DataBlockStart _ mt) m = onContent (\<lambda>bs. bs @ [DataBlock ''data'' (Some (mediaSource mt))]) m"
| "AppendEvent parse (DataBlockDelta i d mt) m =
     onContent (orAppend (updBlock isData (addData d mt) i) (DataBlock ''data'' (Some (mediaSource mt)))) m"
| "AppendEvent parse (ToolCallStart _ i name) m =
     onContent (\<lambda>bs. bs @ [ToolUse \<lparr>tc_ID = i, tc_Name = name, tc_Input = [], tc_RawInput = []\<rparr>]) m"
| "AppendEvent parse (ToolCallDelta _ i d) m =
     onContent (\<lambda>bs. case updFirst (isToolUse i) (addRawInput parse d) bs of Some bs' \<Rightarrow> bs' | None \<Rightarrow> bs) m"
| "AppendEvent parse (ToolResultStart _ i _) m = onContent (\<lambda>bs. bs @ [ToolResult i [] False ''running'']) m"
| "AppendEvent parse (ToolResultTextDelta _ i d) m =
     onContent (orAppend (updFirst (isToolResult i) (addResultBlock (TextBlock d))) (ToolResult i [] False ''running'')) m"
| "AppendEvent parse (ToolResultDataDelta _ i d mt) m =
     onContent (orAppend (updFirst (isToolResult i) (addResultBlock (dataDeltaToBlock d mt)))
       (ToolResult i [] False ''running'')) m"
| "AppendEvent parse (ToolResultEnd _ i) m =
     onContent (\<lambda>bs. case updFirst (isToolResult i) completeResult bs of Some bs' \<Rightarrow> bs' | None \<Rightarrow> bs) m"
| "AppendEvent parse _ m = m"

text \<open>CollectMessage: the message, or the last error.\<close>

definition lastError :: "AgentEvent list \<Rightarrow> AgentErr option" where
  "lastError evs = fold (\<lambda>ev acc. case ev of ErrorEvent e \<Rightarrow> if blankErr e then acc else Some e | _ \<Rightarrow> acc) evs None"

definition CollectMessage :: "(string \<Rightarrow> Input option) \<Rightarrow> string \<Rightarrow> AgentEvent list \<Rightarrow> AgentErr + Msg" where
  "CollectMessage parse uuid evs =
     (case lastError evs of
        Some e \<Rightarrow> Inl e
      | None \<Rightarrow> Inr (fold (AppendEvent parse) evs (newMsg uuid RoleAssistant [])))"

section \<open>What the assembled text is\<close>

fun textDelta :: "AgentEvent \<Rightarrow> string" where
  "textDelta (TextBlockDelta _ d) = d"
| "textDelta _ = []"

fun thinkingDelta :: "AgentEvent \<Rightarrow> string" where
  "thinkingDelta (ThinkingBlockDelta _ d) = d"
| "thinkingDelta _ = []"

fun zeroIndex :: "AgentEvent \<Rightarrow> bool" where
  "zeroIndex (TextBlockDelta i _) = (i = 0)"
| "zeroIndex (ThinkingBlockDelta i _) = (i = 0)"
| "zeroIndex _ = True"

text \<open>All text is in the first block of its kind.\<close>

definition firstOnly :: "('b \<Rightarrow> bool) \<Rightarrow> ('b \<Rightarrow> string) \<Rightarrow> 'b list \<Rightarrow> bool" where
  "firstOnly p tx bs \<longleftrightarrow> (\<forall>b \<in> set (tl (filter p bs)). tx b = [])"

lemma tl_append_single: "set (tl (xs @ [x])) \<subseteq> set (tl xs) \<union> {x}"
  by (cases xs) auto

lemma firstOnly_snoc: "firstOnly p tx bs \<Longrightarrow> tx b = [] \<Longrightarrow> firstOnly p tx (bs @ [b])"
  using tl_append_single [of "filter p bs" b] by (auto simp: firstOnly_def)

lemma updBlock_None_iff: "updBlock p f 0 bs = None \<longleftrightarrow> filter p bs = []"
  by (induction bs) auto

lemma updBlock_text:
  assumes "\<And>b. p b \<Longrightarrow> tx (f b) = tx b @ d \<and> p (f b)" and "\<And>b. \<not> p b \<Longrightarrow> tx b = []"
    and "updBlock p f 0 bs = Some bs'" and "firstOnly p tx bs"
  shows "concat (map tx bs') = concat (map tx bs) @ d \<and> firstOnly p tx bs'"
  using assms(3,4)
proof (induction bs arbitrary: bs')
  case (Cons b bs)
  show ?case
  proof (cases "p b")
    case True
    then have bs': "bs' = f b # bs" and e: "\<forall>x \<in> set (filter p bs). tx x = []"
      using Cons(2,3) by (auto simp: firstOnly_def)
    have "\<forall>x \<in> set bs. tx x = []" using e assms(2) by auto
    then have n: "concat (map tx bs) = []" by simp
    have f: "tx (f b) = tx b @ d" "p (f b)" using assms(1) [OF True] by simp_all
    have "concat (map tx bs') = concat (map tx (b # bs)) @ d" by (simp only: bs' list.map concat.simps n f append_Nil2)
    then show ?thesis using bs' e f by (simp add: firstOnly_def)
  next
    case False
    then obtain bs1 where "updBlock p f 0 bs = Some bs1" "bs' = b # bs1" using Cons(2) by auto
    moreover have "firstOnly p tx bs" using Cons(3) False by (simp add: firstOnly_def)
    ultimately show ?thesis using Cons(1) False by (simp add: firstOnly_def)
  qed
qed simp

lemma orAppend_text:
  assumes "\<And>b. p b \<Longrightarrow> tx (f b) = tx b @ d \<and> p (f b)" and "\<And>b. \<not> p b \<Longrightarrow> tx b = []"
    and "p b0" and "tx b0 = []" and "firstOnly p tx bs"
  shows "concat (map tx (orAppend (updBlock p f 0) b0 bs)) = concat (map tx bs) @ d \<and>
    firstOnly p tx (orAppend (updBlock p f 0) b0 bs)"
proof (cases "updBlock p f 0 bs")
  case None
  have "updBlock p f 0 (bs @ [b0]) \<noteq> None" using assms(3) by (simp add: updBlock_None_iff)
  then obtain bs' where "updBlock p f 0 (bs @ [b0]) = Some bs'" by blast
  then show ?thesis
    using updBlock_text [where p = p and f = f and tx = tx and d = d, OF assms(1,2)] None
      firstOnly_snoc [OF assms(5,4)] assms(4)
    by (simp add: orAppend_def)
next
  case (Some bs')
  then show ?thesis
    using updBlock_text [where p = p and f = f and tx = tx and d = d, OF assms(1,2) Some assms(5)]
    by (simp add: orAppend_def)
qed

text \<open>Updates of other kinds of blocks do not touch the text.\<close>

definition sameTexts :: "('b \<Rightarrow> bool) \<Rightarrow> ('b \<Rightarrow> string) \<Rightarrow> 'b list \<Rightarrow> 'b list \<Rightarrow> bool" where
  "sameTexts q tx bs bs' \<longleftrightarrow> map tx bs' = map tx bs \<and> map tx (filter q bs') = map tx (filter q bs)"

lemma updBlock_other:
  "updBlock p f i bs = Some bs' \<Longrightarrow> \<forall>b. p b \<longrightarrow> tx (f b) = tx b \<and> q (f b) = q b \<Longrightarrow> sameTexts q tx bs bs'"
  unfolding sameTexts_def by (induction bs arbitrary: i bs') (auto split: if_splits)

lemma updFirst_other:
  "updFirst p f bs = Some bs' \<Longrightarrow> \<forall>b. p b \<longrightarrow> tx (f b) = tx b \<and> q (f b) = q b \<Longrightarrow> sameTexts q tx bs bs'"
  unfolding sameTexts_def by (induction bs arbitrary: bs') (auto split: if_splits)

text \<open>An event either leaves the text alone or extends it.\<close>

definition assembled :: "('b \<Rightarrow> bool) \<Rightarrow> ('b \<Rightarrow> string) \<Rightarrow> 'b list \<Rightarrow> string \<Rightarrow> 'b list \<Rightarrow> bool" where
  "assembled p tx bs d bs' \<longleftrightarrow>
     (firstOnly p tx bs \<longrightarrow> concat (map tx bs') = concat (map tx bs) @ d \<and> firstOnly p tx bs')"

lemma firstOnly_map: "firstOnly p tx bs \<longleftrightarrow> (\<forall>t \<in> set (tl (map tx (filter p bs))). t = [])"
  by (simp add: firstOnly_def flip: map_tl)

lemma assembled_same: "sameTexts p tx bs bs' \<Longrightarrow> assembled p tx bs [] bs'"
  by (simp add: assembled_def firstOnly_map sameTexts_def)

lemma assembled_snoc: "tx b = [] \<Longrightarrow> assembled p tx bs [] (bs @ [b])"
  by (auto simp: assembled_def intro: firstOnly_snoc)

lemma assembled_orAppend_other:
  assumes "\<forall>bs bs'. upd bs = Some bs' \<longrightarrow> sameTexts q tx bs bs'" and "tx b0 = []"
  shows "assembled q tx bs [] (orAppend upd b0 bs)"
proof -
  have s: "assembled q tx bs [] (bs @ [b0])" using assms(2) by (rule assembled_snoc)
  show ?thesis
  proof (cases "upd bs")
    case None
    show ?thesis
    proof (cases "upd (bs @ [b0])")
      case (Some bs')
      then have "assembled q tx (bs @ [b0]) [] bs'" using assms(1) by (intro assembled_same) simp
      then show ?thesis using s None Some assms(2) by (simp add: orAppend_def assembled_def)
    qed (use None s in \<open>simp add: orAppend_def\<close>)
  next
    case (Some bs')
    then have "assembled q tx bs [] bs'" using assms(1) by (intro assembled_same) simp
    then show ?thesis using Some by (simp add: orAppend_def)
  qed
qed

lemma assembled_refl [simp]: "assembled p tx bs [] bs"
  by (simp add: assembled_def)

lemma assembled_update:
  "\<forall>bs bs'. upd bs = Some bs' \<longrightarrow> sameTexts q tx bs bs' \<Longrightarrow>
    assembled q tx bs [] (case upd bs of None \<Rightarrow> bs | Some bs' \<Rightarrow> bs')"
  by (auto split: option.split intro: assembled_same)

lemma assembled_orAppend_own:
  assumes "\<And>b. p b \<Longrightarrow> tx (f b) = tx b @ d \<and> p (f b)" and "\<And>b. \<not> p b \<Longrightarrow> tx b = []" and "p b0" and "tx b0 = []"
  shows "assembled p tx bs d (orAppend (updBlock p f 0) b0 bs)"
  using orAppend_text [where p = p and tx = tx and f = f and d = d, OF assms] by (simp add: assembled_def)

lemma block_update_simps:
  "isText (addText d b) = isText b" "isThinking (addText d b) = isThinking b" "blockThinking (addText d b) = blockThinking b"
  "isText (addThinking d b) = isText b" "isThinking (addThinking d b) = isThinking b" "blockText (addThinking d b) = blockText b"
  "isText (addHint d b) = isText b" "isThinking (addHint d b) = isThinking b"
  "blockText (addHint d b) = blockText b" "blockThinking (addHint d b) = blockThinking b"
  "isText (addData d mt b) = isText b" "isThinking (addData d mt b) = isThinking b"
  "blockText (addData d mt b) = blockText b" "blockThinking (addData d mt b) = blockThinking b"
  "isText (addRawInput parse d b) = isText b" "isThinking (addRawInput parse d b) = isThinking b"
  "blockText (addRawInput parse d b) = blockText b" "blockThinking (addRawInput parse d b) = blockThinking b"
  "isText (addResultBlock x b) = isText b" "isThinking (addResultBlock x b) = isThinking b"
  "blockText (addResultBlock x b) = blockText b" "blockThinking (addResultBlock x b) = blockThinking b"
  "isText (completeResult b) = isText b" "isThinking (completeResult b) = isThinking b"
  "blockText (completeResult b) = blockText b" "blockThinking (completeResult b) = blockThinking b"
  by (cases b; simp add: Let_def)+

lemma own_text: "isText b \<Longrightarrow> blockText (addText d b) = blockText b @ d \<and> isText (addText d b)"
  by (cases b) auto

lemma own_thinking: "isThinking b \<Longrightarrow> blockThinking (addThinking d b) = blockThinking b @ d \<and> isThinking (addThinking d b)"
  by (cases b) auto

lemma no_text: "\<not> isText b \<Longrightarrow> blockText b = []"
  by (cases b) auto

lemma no_thinking: "\<not> isThinking b \<Longrightarrow> blockThinking b = []"
  by (cases b) auto

lemma AppendEvent_text:
  assumes "zeroIndex ev"
  shows "assembled isText blockText (mg_Content m) (textDelta ev) (mg_Content (AppendEvent parse ev m))"
proof (cases ev)
  case (TextBlockDelta i d)
  have "assembled isText blockText bs d (orAppend (updBlock isText (addText d) 0) (TextBlock []) bs)" for bs
    by (rule assembled_orAppend_own) (simp_all add: own_text no_text)
  then show ?thesis using assms TextBlockDelta by (simp add: onContent_def)
qed (auto simp: onContent_def block_update_simps intro!: assembled_snoc assembled_orAppend_other assembled_update
    elim!: updBlock_other updFirst_other)

lemma AppendEvent_thinking:
  assumes "zeroIndex ev"
  shows "assembled isThinking blockThinking (mg_Content m) (thinkingDelta ev) (mg_Content (AppendEvent parse ev m))"
proof (cases ev)
  case (ThinkingBlockDelta i d)
  have "assembled isThinking blockThinking bs d (orAppend (updBlock isThinking (addThinking d) 0) (ThinkingBlock [] []) bs)" for bs
    by (rule assembled_orAppend_own) (simp_all add: own_thinking no_thinking)
  then show ?thesis using assms ThinkingBlockDelta by (simp add: onContent_def)
qed (auto simp: onContent_def block_update_simps intro!: assembled_snoc assembled_orAppend_other assembled_update
    elim!: updBlock_other updFirst_other)

text \<open>Over a stream the assembled text is the concatenation of the deltas.\<close>

lemma assembled_events:
  assumes "list_all zeroIndex evs"
  shows "assembled isText blockText (mg_Content m) (concat (map textDelta evs)) (mg_Content (fold (AppendEvent parse) evs m)) \<and>
    assembled isThinking blockThinking (mg_Content m) (concat (map thinkingDelta evs)) (mg_Content (fold (AppendEvent parse) evs m))"
  using assms
proof (induction evs arbitrary: m)
  case Nil
  then show ?case by (simp add: assembled_def)
next
  case (Cons ev evs)
  then show ?case
    using Cons.IH [of "AppendEvent parse ev m"] AppendEvent_text [of ev m parse] AppendEvent_thinking [of ev m parse]
    by (auto simp: assembled_def)
qed

lemma collected_text:
  assumes "list_all zeroIndex evs"
  shows "GetTextContent (fold (AppendEvent parse) evs (newMsg uuid RoleAssistant [])) = concat (map textDelta evs) \<and>
    GetThinkingContent (fold (AppendEvent parse) evs (newMsg uuid RoleAssistant [])) = concat (map thinkingDelta evs)"
  using assembled_events [OF assms, of "newMsg uuid RoleAssistant []" parse]
  by (simp add: assembled_def firstOnly_def GetTextContent_def GetThinkingContent_def textOf_def newMsg_def)

end
