(* ===== verification/React_Model.thy ===== *)
theory React_Model
  imports React_Msg
begin

text \<open>
  One streaming model call of the ReAct agent (runModelStreamInner in agent/react/reply_stream.go):
  the chunks of the model become block events and, at the end, one assistant message.
  Middleware around the call is left out.
\<close>

section \<open>The stream of a model\<close>

record StreamChunk =
  ck_Delta :: string
  ck_IsThinking :: bool
  ck_Content :: "ContentBlock list"
  ck_Done :: bool
  ck_Usage :: "ChatUsage option"
  ck_Signature :: string
  ck_Error :: "AgentErr option"

datatype ModelAnswer = ChatErr AgentErr | ChatNil | ChatChunks "StreamChunk option list"

datatype Checkpoint = GoOn | CtxDone AgentErr | FlagSet

text \<open>
  A call as its surroundings make it: the model's answer, the stream hooks before the call and
  after each delta, and what the context and the interrupt flag are when a chunk is taken.
\<close>

record ModelCall =
  mc_Name :: string
  mc_Pre :: "AgentErr option"
  mc_Answer :: ModelAnswer
  mc_Check :: "nat \<Rightarrow> Checkpoint"
  mc_ChunkHook :: "nat \<Rightarrow> AgentErr option"

record StreamAcc =
  sa_Text :: string
  sa_Thinking :: string
  sa_Usage :: "ChatUsage option"
  sa_InText :: bool
  sa_InThinking :: bool
  sa_Sig :: string
  sa_Tools :: "ContentBlock list"

definition newAcc :: StreamAcc where
  "newAcc = \<lparr>sa_Text = [], sa_Thinking = [], sa_Usage = None, sa_InText = False, sa_InThinking = False, sa_Sig = [],
     sa_Tools = []\<rparr>"

definition onDelta :: "StreamChunk \<Rightarrow> StreamAcc \<Rightarrow> AgentEvent list \<times> StreamAcc" where
  "onDelta c a =
     (if ck_IsThinking c
      then ((if sa_InText a then [TextBlockEnd 0] else []) @ (if \<not> sa_InThinking a then [ThinkingBlockStart 0] else []) @
              [ThinkingBlockDelta 0 (ck_Delta c)],
            a\<lparr>sa_InText := False, sa_InThinking := True, sa_Thinking := sa_Thinking a @ ck_Delta c\<rparr>)
      else ((if sa_InThinking a then [ThinkingBlockEnd 0] else []) @ (if \<not> sa_InText a then [TextBlockStart 0] else []) @
              [TextBlockDelta 0 (ck_Delta c)],
            a\<lparr>sa_InThinking := False, sa_InText := True, sa_Text := sa_Text a @ ck_Delta c\<rparr>))"

definition onDone :: "StreamChunk \<Rightarrow> StreamAcc \<Rightarrow> StreamAcc" where
  "onDone c a = a\<lparr>sa_Usage := (case ck_Usage c of Some u \<Rightarrow> Some u | None \<Rightarrow> sa_Usage a),
     sa_Sig := (if ck_Signature c \<noteq> [] then ck_Signature c else sa_Sig a), sa_Tools := sa_Tools a @ ck_Content c\<rparr>"

text \<open>The loop over the channel; \<open>k\<close> counts the chunks taken.\<close>

fun readChunks :: "ModelCall \<Rightarrow> nat \<Rightarrow> StreamChunk option list \<Rightarrow> StreamAcc \<Rightarrow> AgentEvent list \<times> (AgentErr + StreamAcc)" where
  "readChunks mc k [] a = ([], Inr a)"
| "readChunks mc k (None # cs) a = readChunks mc (Suc k) cs a"
| "readChunks mc k (Some c # cs) a =
     (case mc_Check mc k of
        CtxDone e \<Rightarrow> ([], Inl e)
      | FlagSet \<Rightarrow> ([], Inl ErrAgentInterrupted)
      | GoOn \<Rightarrow>
          if ck_Done c then
            (case ck_Error c of
               Some e \<Rightarrow> ([ErrorEvent e, ModelCallEnd (mc_Name mc) 0 0 0 0], Inl e)
             | None \<Rightarrow> ([], Inr (onDone c a)))
          else if ck_Delta c = [] then readChunks mc (Suc k) cs a
          else case onDelta c a of (evs, a') \<Rightarrow>
            (case mc_ChunkHook mc k of
               Some e \<Rightarrow> (evs, Inl (if errIs e ErrHookInterrupted then ErrHookInterrupted else e))
             | None \<Rightarrow> (case readChunks mc (Suc k) cs a' of (evs', r) \<Rightarrow> (evs @ evs', r))))"

definition closeBlocks :: "StreamAcc \<Rightarrow> AgentEvent list" where
  "closeBlocks a = (if sa_InThinking a then [ThinkingBlockEnd 0] else []) @ (if sa_InText a then [TextBlockEnd 0] else [])"

definition assembleContent :: "StreamAcc \<Rightarrow> ContentBlock list" where
  "assembleContent a =
     (if sa_Text a \<noteq> [] then [TextBlock (sa_Text a)] else []) @ sa_Tools a @
     (if sa_Thinking a \<noteq> [] then [ThinkingBlock (sa_Thinking a) (sa_Sig a)] else [])"

definition isDegenerateResponse :: "Msg option \<Rightarrow> bool" where
  "isDegenerateResponse m \<longleftrightarrow> (case m of None \<Rightarrow> True | Some m \<Rightarrow> mg_Content m = [])"

definition callEnd :: "string \<Rightarrow> ChatUsage option \<Rightarrow> AgentEvent" where
  "callEnd name u =
     (case u of None \<Rightarrow> ModelCallEnd name 0 0 0 0
      | Some u \<Rightarrow> ModelCallEnd name (tu_Prompt u) (tu_Completion u) (tu_CachedPrompt u) (tu_CacheCreation u))"

definition failedCall :: "string \<Rightarrow> AgentErr \<Rightarrow> AgentEvent list" where
  "failedCall name e = [ErrorEvent e, ModelCallEnd name 0 0 0 0]"

definition runModelStreamInner :: "ModelCall \<Rightarrow> string \<Rightarrow> AgentEvent list \<times> (AgentErr + Msg)" where
  "runModelStreamInner mc uuid =
     (case mc_Pre mc of
        Some e \<Rightarrow> ([], Inl e)
      | None \<Rightarrow>
          (case mc_Answer mc of
             ChatErr e \<Rightarrow>
               let e = ErrWrap ''react agent model stream: '' e
               in (ModelCallStart (mc_Name mc) # failedCall (mc_Name mc) e, Inl e)
           | ChatNil \<Rightarrow> (ModelCallStart (mc_Name mc) # failedCall (mc_Name mc) ErrEmptyModelResponse, Inl ErrEmptyModelResponse)
           | ChatChunks cs \<Rightarrow>
               (case readChunks mc 0 cs newAcc of
                  (evs, Inl e) \<Rightarrow> (ModelCallStart (mc_Name mc) # evs, Inl e)
                | (evs, Inr a) \<Rightarrow>
                    let msg = newMsg uuid RoleAssistant (assembleContent a)
                    in if isDegenerateResponse (Some msg)
                       then (ModelCallStart (mc_Name mc) # evs @ closeBlocks a @ failedCall (mc_Name mc) ErrEmptyModelResponse,
                             Inl ErrEmptyModelResponse)
                       else (ModelCallStart (mc_Name mc) # evs @ closeBlocks a @ [callEnd (mc_Name mc) (sa_Usage a)],
                             Inr (msg\<lparr>mg_MetaUsage := sa_Usage a\<rparr>)))))"

section \<open>Blocks open and close properly\<close>

datatype OpenBlock = NoBlock | InText | InThinking

fun blockStep :: "OpenBlock \<Rightarrow> AgentEvent \<Rightarrow> OpenBlock option" where
  "blockStep NoBlock (TextBlockStart i) = (if i = 0 then Some InText else None)"
| "blockStep InText (TextBlockDelta i d) = (if i = 0 \<and> d \<noteq> [] then Some InText else None)"
| "blockStep InText (TextBlockEnd i) = (if i = 0 then Some NoBlock else None)"
| "blockStep NoBlock (ThinkingBlockStart i) = (if i = 0 then Some InThinking else None)"
| "blockStep InThinking (ThinkingBlockDelta i d) = (if i = 0 \<and> d \<noteq> [] then Some InThinking else None)"
| "blockStep InThinking (ThinkingBlockEnd i) = (if i = 0 then Some NoBlock else None)"
| "blockStep b ev = None"

fun blocksRun :: "OpenBlock \<Rightarrow> AgentEvent list \<Rightarrow> OpenBlock option" where
  "blocksRun b [] = Some b"
| "blocksRun b (ev # evs) = (case blockStep b ev of None \<Rightarrow> None | Some b' \<Rightarrow> blocksRun b' evs)"

lemma blocksRun_append:
  "blocksRun b (evs @ evs') = (case blocksRun b evs of None \<Rightarrow> None | Some b' \<Rightarrow> blocksRun b' evs')"
  by (induction evs arbitrary: b) (auto split: option.split)

lemma blocksRun_zero: "blocksRun b evs = Some b' \<Longrightarrow> list_all zeroIndex evs"
proof (induction evs arbitrary: b)
  case (Cons ev evs)
  then obtain b1 where b1: "blockStep b ev = Some b1" "blocksRun b1 evs = Some b'" by (auto split: option.splits)
  have "zeroIndex ev" using b1(1) by (cases b; cases ev) (auto split: if_splits)
  then show ?case using Cons(1) [OF b1(2)] by simp
qed simp

definition openBlock :: "StreamAcc \<Rightarrow> OpenBlock" where
  "openBlock a = (if sa_InText a then InText else if sa_InThinking a then InThinking else NoBlock)"

definition acc_ok :: "StreamAcc \<Rightarrow> bool" where
  "acc_ok a \<longleftrightarrow> \<not> (sa_InText a \<and> sa_InThinking a)"

text \<open>What the events of a stream say about the accumulated state.\<close>

definition acc_after :: "StreamAcc \<Rightarrow> AgentEvent list \<Rightarrow> StreamAcc \<Rightarrow> bool" where
  "acc_after a evs a' \<longleftrightarrow> acc_ok a' \<and> blocksRun (openBlock a) evs = Some (openBlock a') \<and>
     sa_Text a' = sa_Text a @ concat (map textDelta evs) \<and>
     sa_Thinking a' = sa_Thinking a @ concat (map thinkingDelta evs)"

lemma acc_after_trans: "acc_after a evs a1 \<Longrightarrow> acc_after a1 evs' a2 \<Longrightarrow> acc_after a (evs @ evs') a2"
  by (simp add: acc_after_def blocksRun_append)

lemma acc_after_delta:
  "acc_ok a \<Longrightarrow> ck_Delta c \<noteq> [] \<Longrightarrow> onDelta c a = (evs, a') \<Longrightarrow> acc_after a evs a'"
  by (auto simp: onDelta_def acc_after_def acc_ok_def openBlock_def split: if_splits)

definition doneChunk :: "StreamChunk option list \<Rightarrow> StreamChunk option" where
  "doneChunk cs = find ck_Done (List.map_filter (\<lambda>c. c) cs)"

lemma readChunks_ok:
  "readChunks mc k cs a = (evs, Inr a') \<Longrightarrow> acc_ok a \<Longrightarrow>
   acc_after a evs a' \<and>
   (sa_Tools a', sa_Usage a') = (case doneChunk cs of None \<Rightarrow> (sa_Tools a, sa_Usage a)
      | Some c \<Rightarrow> (sa_Tools a @ ck_Content c, case ck_Usage c of Some u \<Rightarrow> Some u | None \<Rightarrow> sa_Usage a))"
proof (induction mc k cs a arbitrary: evs rule: readChunks.induct)
  case (1 mc k a)
  then show ?case by (simp add: acc_after_def doneChunk_def map_filter_simps)
next
  case (2 mc k cs a)
  then show ?case by (simp add: doneChunk_def map_filter_simps)
next
  case (3 mc k c cs a)
  have go: "mc_Check mc k = GoOn" using 3(3) by (simp split: Checkpoint.splits)
  show ?case
  proof (cases "ck_Done c")
    case True
    then have "evs = [] \<and> a' = onDone c a" using 3(3) go by (simp split: option.splits)
    then show ?thesis using True 3(4)
      by (simp add: acc_after_def doneChunk_def map_filter_simps onDone_def acc_ok_def openBlock_def)
  next
    case more: False
    then have dc: "doneChunk (Some c # cs) = doneChunk cs" by (simp add: doneChunk_def map_filter_simps)
    show ?thesis
    proof (cases "ck_Delta c = []")
      case True
      then have "readChunks mc (Suc k) cs a = (evs, Inr a')" using 3(3) go more by simp
      then show ?thesis using 3(1) [OF go more True] 3(4) dc by simp
    next
      case False
      obtain ev1 a1 where d: "onDelta c a = (ev1, a1)" by fastforce
      have after: "acc_after a ev1 a1" by (rule acc_after_delta [OF 3(4) False d])
      have h: "mc_ChunkHook mc k = None" using 3(3) go more False d by (simp split: option.splits)
      obtain ev2 where ev2: "readChunks mc (Suc k) cs a1 = (ev2, Inr a')" "evs = ev1 @ ev2"
        using 3(3) go more False d h by (auto split: prod.splits)
      have "acc_ok a1" "sa_Tools a1 = sa_Tools a \<and> sa_Usage a1 = sa_Usage a"
        using after d by (auto simp: acc_after_def onDelta_def split: if_splits)
      moreover have "acc_after a1 ev2 a' \<and>
         (sa_Tools a', sa_Usage a') = (case doneChunk cs of None \<Rightarrow> (sa_Tools a1, sa_Usage a1)
           | Some c \<Rightarrow> (sa_Tools a1 @ ck_Content c, case ck_Usage c of Some u \<Rightarrow> Some u | None \<Rightarrow> sa_Usage a1))"
        by (rule 3(2) [OF go more False d [symmetric] h ev2(1) calculation(1)])
      ultimately show ?thesis using acc_after_trans [OF after] ev2(2) dc by (simp split: option.split)
    qed
  qed
qed

lemma closeBlocks_run: "acc_ok a \<Longrightarrow> blocksRun (openBlock a) (closeBlocks a) = Some NoBlock"
  by (auto simp: acc_ok_def openBlock_def closeBlocks_def)

lemma closeBlocks_deltas: "concat (map textDelta (closeBlocks a)) = []" "concat (map thinkingDelta (closeBlocks a)) = []"
  by (auto simp: closeBlocks_def)

text \<open>A successful call.\<close>

lemma runModelStreamInner_ok:
  assumes "runModelStreamInner mc uuid = (evs, Inr msg)"
  obtains cs body a where "mc_Answer mc = ChatChunks cs" and "mc_Pre mc = None"
    and "evs = ModelCallStart (mc_Name mc) # body @ [callEnd (mc_Name mc) (sa_Usage a)]"
    and "blocksRun NoBlock body = Some NoBlock"
    and "sa_Text a = concat (map textDelta body)" and "sa_Thinking a = concat (map thinkingDelta body)"
    and "sa_Tools a = (case doneChunk cs of None \<Rightarrow> [] | Some c \<Rightarrow> ck_Content c)"
    and "sa_Usage a = (case doneChunk cs of None \<Rightarrow> None | Some c \<Rightarrow> ck_Usage c)"
    and "assembleContent a \<noteq> []"
    and "msg = (newMsg uuid RoleAssistant (assembleContent a))\<lparr>mg_MetaUsage := sa_Usage a\<rparr>"
proof -
  obtain cs evs1 a where *: "mc_Answer mc = ChatChunks cs" "mc_Pre mc = None" "readChunks mc 0 cs newAcc = (evs1, Inr a)"
    "evs = ModelCallStart (mc_Name mc) # evs1 @ closeBlocks a @ [callEnd (mc_Name mc) (sa_Usage a)]"
    "assembleContent a \<noteq> []" "msg = (newMsg uuid RoleAssistant (assembleContent a))\<lparr>mg_MetaUsage := sa_Usage a\<rparr>"
    using assms
    by (auto simp: runModelStreamInner_def Let_def isDegenerateResponse_def newMsg_def
        split: option.splits ModelAnswer.splits prod.splits sum.splits if_splits)
  have "acc_ok newAcc" by (simp add: acc_ok_def newAcc_def)
  note r = readChunks_ok [OF *(3) this]
  have new: "openBlock newAcc = NoBlock" "sa_Text newAcc = []" "sa_Thinking newAcc = []" "sa_Tools newAcc = []" "sa_Usage newAcc = None"
    by (simp_all add: openBlock_def newAcc_def)
  show thesis
  proof (rule that [where body = "evs1 @ closeBlocks a" and a = a])
    show "blocksRun NoBlock (evs1 @ closeBlocks a) = Some NoBlock"
      using r closeBlocks_run by (simp add: acc_after_def new blocksRun_append)
  qed (use * r new closeBlocks_deltas in \<open>auto simp: acc_after_def split: option.splits\<close>)
qed

end
