(* ===== verification/React_Breaker.thy ===== *)
theory React_Breaker
  imports React_Model
begin

text \<open>
  The breaker that ends a turn when a tool keeps failing (agent/react/react_agent.go), and its
  specification: the count of a tool is the length of its current run of failures.
\<close>

definition defaultMaxConsecutiveToolFailures :: int where
  "defaultMaxConsecutiveToolFailures = 3"

definition breakerThreshold :: "int \<Rightarrow> int" where
  "breakerThreshold n = (if n < 0 then 0 else if n = 0 then defaultMaxConsecutiveToolFailures else n)"

text \<open>The Chinese markers in UTF-8.\<close>

definition zhErrorMarkers :: "string list" where
  "zhErrorMarkers =
     [map char_of [0xE9, 0x94, 0x99, 0xE8, 0xAF, 0xAF, 0xEF, 0xBC, 0x9A :: nat],
      map char_of [0xE9, 0x8C, 0xAF, 0xE8, 0xAA, 0xA4, 0xEF, 0xBC, 0x9A :: nat]]"

definition toolResultLooksLikeError :: "ContentBlock list \<Rightarrow> string option" where
  "toolResultLooksLikeError bs =
     (case bs of
        [TextBlock t] \<Rightarrow>
          let t = TrimSpace t
          in if t = [] then None
             else if HasPrefix (ToLower t) ''error:'' \<or> list_ex (HasPrefix t) zhErrorMarkers then Some t
             else None
      | _ \<Rightarrow> None)"

record failureSignal =
  fs_ToolName :: string
  fs_IsError :: bool
  fs_ErrText :: string
  fs_Blocks :: "ContentBlock list"

record consecutiveFailureBreaker =
  br_threshold :: int
  br_consecutive :: "(string, int) gomap"
  br_lastErr :: "(string, string) gomap"

definition newConsecutiveFailureBreaker :: "int \<Rightarrow> consecutiveFailureBreaker" where
  "newConsecutiveFailureBreaker t = \<lparr>br_threshold = t, br_consecutive = [], br_lastErr = []\<rparr>"

text \<open>Whether a signal counts as a failure, and with which reason.\<close>

definition signalFailure :: "failureSignal \<Rightarrow> string option" where
  "signalFailure s = (if fs_IsError s then Some (fs_ErrText s) else toolResultLooksLikeError (fs_Blocks s))"

definition countOf :: "consecutiveFailureBreaker \<Rightarrow> string \<Rightarrow> int" where
  "countOf b name = (case mget (br_consecutive b) name of None \<Rightarrow> 0 | Some c \<Rightarrow> c)"

definition breakerSignal :: "failureSignal \<Rightarrow> consecutiveFailureBreaker \<Rightarrow> consecutiveFailureBreaker" where
  "breakerSignal s b =
     (case signalFailure s of
        Some why \<Rightarrow>
          b\<lparr>br_consecutive := mput (fs_ToolName s) (countOf b (fs_ToolName s) + 1) (br_consecutive b),
            br_lastErr := (if why \<noteq> [] then mput (fs_ToolName s) why (br_lastErr b) else br_lastErr b)\<rparr>
      | None \<Rightarrow> b\<lparr>br_consecutive := mput (fs_ToolName s) 0 (br_consecutive b)\<rparr>)"

definition reasonOf :: "consecutiveFailureBreaker \<Rightarrow> string \<Rightarrow> string" where
  "reasonOf b name = (case mget (br_lastErr b) name of None \<Rightarrow> [] | Some r \<Rightarrow> r)"

text \<open>
  The loops over the map visit it in an order \<open>ord\<close>.  A result without a name is the empty one,
  which the caller tests by the name.
\<close>

definition pickCount ::
    "((string \<times> int) list \<Rightarrow> (string \<times> int) list) \<Rightarrow> (int \<Rightarrow> bool) \<Rightarrow> consecutiveFailureBreaker \<Rightarrow> string \<times> int \<times> string" where
  "pickCount ord P b =
     (case find (\<lambda>(name, c). P c) (ord (br_consecutive b)) of
        None \<Rightarrow> ([], 0, [])
      | Some (name, c) \<Rightarrow> (name, c, reasonOf b name))"

definition breakerUpdate ::
    "((string \<times> int) list \<Rightarrow> (string \<times> int) list) \<Rightarrow> failureSignal list \<Rightarrow> consecutiveFailureBreaker \<Rightarrow>
     (string \<times> int \<times> string) \<times> consecutiveFailureBreaker" where
  "breakerUpdate ord sigs b =
     (if br_threshold b \<le> 0 then (([], 0, []), b)
      else let b = fold breakerSignal sigs b in (pickCount ord (\<lambda>c. br_threshold b \<le> c) b, b))"

definition hintThreshold :: "consecutiveFailureBreaker \<Rightarrow> int" where
  "hintThreshold b = (if br_threshold b \<le> 0 then 0 else if br_threshold b > 2 then br_threshold b - 1 else 2)"

definition hintNeeded ::
    "((string \<times> int) list \<Rightarrow> (string \<times> int) list) \<Rightarrow> consecutiveFailureBreaker \<Rightarrow> string \<times> int \<times> string" where
  "hintNeeded ord b =
     (if br_threshold b \<le> 0 then ([], 0, [])
      else pickCount ord (\<lambda>c. hintThreshold b \<le> c \<and> c < br_threshold b) b)"

section \<open>Counts are runs of failures\<close>

definition signalsOf :: "string \<Rightarrow> failureSignal list \<Rightarrow> failureSignal list" where
  "signalsOf name sigs = filter (\<lambda>s. fs_ToolName s = name) sigs"

definition failureRun :: "string \<Rightarrow> failureSignal list \<Rightarrow> nat" where
  "failureRun name sigs = length (takeWhile (\<lambda>s. signalFailure s \<noteq> None) (rev (signalsOf name sigs)))"

lemma failureRun_simps [simp]:
  "failureRun name [] = 0"
  "failureRun name (sigs @ [s]) =
     (if fs_ToolName s \<noteq> name then failureRun name sigs
      else if signalFailure s = None then 0 else Suc (failureRun name sigs))"
  by (simp_all add: failureRun_def signalsOf_def)

definition breakerState :: "int \<Rightarrow> failureSignal list \<Rightarrow> consecutiveFailureBreaker" where
  "breakerState t sigs = fold breakerSignal sigs (newConsecutiveFailureBreaker t)"

lemma breakerState_snoc: "breakerState t (sigs @ [s]) = breakerSignal s (breakerState t sigs)"
  by (simp add: breakerState_def)

lemma breakerState_append: "breakerState t (sigs @ sigs') = fold breakerSignal sigs' (breakerState t sigs)"
  by (simp add: breakerState_def)

lemma breakerState_threshold [simp]: "br_threshold (breakerState t sigs) = t"
  by (induction sigs rule: rev_induct)
     (auto simp: breakerState_snoc breakerSignal_def breakerState_def newConsecutiveFailureBreaker_def split: option.splits)

lemma breakerState_counts:
  "mwf (br_consecutive (breakerState t sigs)) \<and>
   mget (br_consecutive (breakerState t sigs)) name =
     (if signalsOf name sigs = [] then None else Some (int (failureRun name sigs)))"
proof (induction sigs rule: rev_induct)
  case Nil
  then show ?case by (simp add: breakerState_def newConsecutiveFailureBreaker_def signalsOf_def)
next
  case (snoc s sigs)
  have z: "failureRun name sigs = 0" if "signalsOf name sigs = []" using that by (simp add: failureRun_def)
  show ?case
    using snoc z
    by (auto simp: breakerState_snoc breakerSignal_def countOf_def signalsOf_def gomap_simps wf_intros split: option.splits)
qed

lemma in_counts_iff:
  "(name, c) \<in> set (br_consecutive (breakerState t sigs)) \<longleftrightarrow> signalsOf name sigs \<noteq> [] \<and> c = int (failureRun name sigs)"
proof -
  have d: "distinct (map fst (br_consecutive (breakerState t sigs)))" using breakerState_counts [of t sigs name] by (simp add: mwf_def)
  show ?thesis using breakerState_counts [of t sigs name] map_of_eq_Some_iff [OF d, of name c] by (auto split: if_splits)
qed

definition entryOrder :: "((string \<times> int) list \<Rightarrow> (string \<times> int) list) \<Rightarrow> bool" where
  "entryOrder ord \<longleftrightarrow> (\<forall>xs. set (ord xs) = set xs)"

lemma pickCount_cases:
  assumes "entryOrder ord" and "\<forall>s \<in> set sigs. fs_ToolName s \<noteq> []" and "pickCount ord P (breakerState t sigs) = (name, c, why)"
  shows "if name = [] then \<forall>n. signalsOf n sigs \<noteq> [] \<longrightarrow> \<not> P (int (failureRun n sigs))
    else signalsOf name sigs \<noteq> [] \<and> c = int (failureRun name sigs) \<and> P c"
proof (cases "find (\<lambda>(name, c). P c) (ord (br_consecutive (breakerState t sigs)))")
  case None
  then have "\<not> P c" if "(n, c) \<in> set (br_consecutive (breakerState t sigs))" for n c
    using assms(1) that by (auto simp: find_None_iff entryOrder_def)
  then show ?thesis using None assms(3) in_counts_iff by (auto simp: pickCount_def)
next
  case (Some p)
  obtain n d where p: "p = (n, d)" by fastforce
  have "p \<in> set (ord (br_consecutive (breakerState t sigs)))" "case p of (name, c) \<Rightarrow> P c"
    using Some by (metis (mono_tags, lifting) find_Some_iff nth_mem)+
  then have "p \<in> set (br_consecutive (breakerState t sigs))" "P d" using assms(1) p by (auto simp: entryOrder_def)
  then have n: "signalsOf n sigs \<noteq> []" "d = int (failureRun n sigs)" "P d" using in_counts_iff p by simp_all
  then have "n \<noteq> []" using assms(2) by (auto simp: signalsOf_def filter_empty_conv)
  then show ?thesis using Some p n assms(3) by (auto simp: pickCount_def)
qed

end
