(* ===== verification/React_Tools.thy ===== *)
theory React_Tools
  imports React_Breaker
begin

text \<open>
  Hooks, and the execution of the tool calls of one iteration (executeToolsStream in
  agent/react/reply_stream.go): the permission gate, external tools, one goroutine per remaining
  call, and the message that collects the results.
\<close>

section \<open>Hooks\<close>

datatype HookPoint =
    HookBeforeModel | HookAfterModel | HookBeforeTool | HookAfterTool | HookBeforeFinish | HookPreCall | HookPostCall
  | HookPreReply | HookPostReply | HookPreObserve | HookPostObserve | HookOnError

text \<open>A hook may behave differently each time; \<open>hc_Now\<close> tells the calls of a turn apart.\<close>

record HookContext =
  hc_Now :: "nat \<times> nat"
  hc_Point :: HookPoint
  hc_Messages :: "Msg list"
  hc_Response :: "Msg option"
  hc_ToolName :: string
  hc_ToolInput :: Input
  hc_Err :: "AgentErr option"

definition hookAt :: "nat \<Rightarrow> nat \<Rightarrow> HookPoint \<Rightarrow> Msg list \<Rightarrow> Msg option \<Rightarrow> HookContext" where
  "hookAt it k p msgs response = \<lparr>hc_Now = (it, k), hc_Point = p, hc_Messages = msgs, hc_Response = response,
     hc_ToolName = [], hc_ToolInput = [], hc_Err = None\<rparr>"

record HookResult =
  hr_Override :: "Msg option"
  hr_Interrupt :: bool
  hr_InjectMessages :: "Msg list"
  hr_StopAgent :: bool
  hr_GotoReasoning :: bool
  hr_GotoReasoningMsgs :: "Msg list"
  hr_HandleError :: bool

type_synonym Hook = "HookContext \<Rightarrow> AgentErr + HookResult option"

fun FireHooks :: "Hook list \<Rightarrow> HookContext \<Rightarrow> AgentErr + (Msg list \<times> HookResult option)" where
  "FireHooks [] c = Inr (hc_Messages c, None)"
| "FireHooks (h # hs) c =
     (case h c of
        Inl e \<Rightarrow> Inl e
      | Inr None \<Rightarrow> FireHooks hs c
      | Inr (Some r) \<Rightarrow>
          let msgs = (if hr_InjectMessages r \<noteq> [] then hr_InjectMessages r else hc_Messages c)
          in if hr_Interrupt r \<or> hr_Override r \<noteq> None \<or> hr_StopAgent r \<or> hr_GotoReasoning r
             then Inr (msgs, Some r) else FireHooks hs (c\<lparr>hc_Messages := msgs\<rparr>))"

text \<open>The error that is left after the error hooks.\<close>

fun FireOnError :: "Hook list \<Rightarrow> HookContext \<Rightarrow> AgentErr \<Rightarrow> AgentErr option" where
  "FireOnError [] c e = Some e"
| "FireOnError (h # hs) c e =
     (case h (c\<lparr>hc_Err := Some e\<rparr>) of
        Inl e' \<Rightarrow> Some e'
      | Inr None \<Rightarrow> FireOnError hs c e
      | Inr (Some r) \<Rightarrow> if hr_HandleError r then None else FireOnError hs c e)"

section \<open>The agent\<close>

record AgentState =
  as_ReplyID :: string
  as_CurIter :: nat
  as_Messages :: "Msg list"
  as_CompressedSummary :: string
  as_Suspended :: "(string \<times> string) option" \<comment> \<open>event type and confirm id, while \<^verbatim>\<open>SuspendedAt\<close> is set\<close>

text \<open>
  Configuration, state, and three records of what has happened: the events sent, the histories
  given to the model, and the calls handed to tools with their iteration.
\<close>

record ReActAgent =
  ra_Name :: string
  ra_SysPrompt :: string
  ra_MaxIterations :: nat
  ra_FailureThreshold :: int
  ra_RaiseCancelled :: bool
  ra_SavePartial :: bool
  ra_Labels :: bool
  ra_Screener :: "(string \<Rightarrow> string \<Rightarrow> bool) option"
  ra_Hooks :: "Hook list"
  ra_Registered :: "string \<Rightarrow> bool"
  ra_External :: "string \<Rightarrow> bool"
  ra_Chunked :: "string \<Rightarrow> bool"
  ra_Permission :: "Engine option"
  ra_Memory :: "Msg list"
  ra_Runtime :: "AgentState option"
  ra_SteerQueue :: "string list"
  ra_ActiveTurns :: int
  ra_Usage :: ChatUsage
  ra_TurnErr :: "AgentErr option"
  ra_Events :: "AgentEvent list"
  ra_Prompts :: "Msg list list"
  ra_Executed :: "(nat \<times> ToolUseBlock) list"

datatype ToolOutcome = ToolReturns "ContentBlock list" | ToolFails string | ToolPanics string

record ExternalExecutionResult =
  er_ToolCallID :: string
  er_Success :: bool
  er_Output :: string
  er_Error :: string

datatype ExtAnswer = ExtResults "ExternalExecutionResult list" | ExtOther | ExtCancelled

text \<open>
  What surrounds a turn, by iteration: the host of the permission engine, the model, the tools
  (their live chunks and outcome), the answers that end a wait, context and flags at the
  checkpoints, the texts steered in, fresh identifiers, the order of maps and goroutines, the
  compression of tool results and of the context, and the stream hooks.
\<close>

record Turn =
  tn_Host :: Host
  tn_ReplyID :: string
  tn_UUID :: "string \<Rightarrow> nat \<Rightarrow> nat \<Rightarrow> string"
  tn_CtxErr :: AgentErr
  tn_CtxDone :: "nat \<Rightarrow> bool"
  tn_Closed :: "nat \<Rightarrow> nat \<Rightarrow> bool"
  tn_Interrupt :: "nat \<Rightarrow> nat \<Rightarrow> bool"
  tn_BySystem :: bool \<comment> \<open>source of an interruption\<close>
  tn_Steered :: "nat \<Rightarrow> string list"
  tn_Model :: "nat \<Rightarrow> Msg list \<Rightarrow> ModelCall"
  tn_Tool :: "nat \<Rightarrow> nat \<Rightarrow> ToolUseBlock \<Rightarrow> string list \<times> ToolOutcome"
  tn_Answer :: "nat \<Rightarrow> Answer"
  tn_ExtAnswer :: "nat \<Rightarrow> ExtAnswer"
  tn_Schedule :: "nat \<Rightarrow> nat list"
  tn_MapOrder :: "(string \<times> int) list \<Rightarrow> (string \<times> int) list"
  tn_CompressResult :: "string \<Rightarrow> ContentBlock list \<Rightarrow> bool \<Rightarrow> ContentBlock list"
  tn_Compress :: "nat \<Rightarrow> string \<Rightarrow> Msg list \<Rightarrow> AgentErr + (string \<times> Msg list)"
  tn_PreCallHook :: "AgentErr option"

definition sendEvents :: "AgentEvent list \<Rightarrow> ReActAgent \<Rightarrow> ReActAgent" where
  "sendEvents evs a = a\<lparr>ra_Events := ra_Events a @ evs\<rparr>"

definition onRuntime :: "(AgentState \<Rightarrow> AgentState) \<Rightarrow> ReActAgent \<Rightarrow> ReActAgent" where
  "onRuntime f a = a\<lparr>ra_Runtime := map_option f (ra_Runtime a)\<rparr>"

definition setSuspended :: "(string \<times> string) option \<Rightarrow> ReActAgent \<Rightarrow> ReActAgent" where
  "setSuspended x = onRuntime (\<lambda>s. s\<lparr>as_Suspended := x\<rparr>)"

definition withCurrentUsage :: "ReActAgent \<Rightarrow> Msg \<Rightarrow> Msg" where
  "withCurrentUsage a m = m\<lparr>mg_Usage := Some (ra_Usage a)\<rparr>"

section \<open>One tool\<close>

definition labelToolResultBlocks :: "ReActAgent \<Rightarrow> string \<Rightarrow> ContentBlock list \<Rightarrow> ContentBlock list" where
  "labelToolResultBlocks a name bs =
     (if \<not> ra_Labels a then bs else TextBlock (''[tool_result:'' @ name @ '']'') # bs)"

definition QuarantinePlaceholder :: string where
  "QuarantinePlaceholder = ''[tool output quarantined by content screening]''"

definition screenToolResult :: "ReActAgent \<Rightarrow> string \<Rightarrow> ContentBlock list \<Rightarrow> ContentBlock list" where
  "screenToolResult a name bs =
     (case ra_Screener a of
        None \<Rightarrow> bs
      | Some ok \<Rightarrow> if textOf bs = [] then bs else if ok name (textOf bs) then bs else [TextBlock QuarantinePlaceholder])"

text \<open>executeToolSafely: an unknown name and a panic are errors of the tool.\<close>

definition executeToolSafely :: "ReActAgent \<Rightarrow> Turn \<Rightarrow> nat \<Rightarrow> nat \<Rightarrow> ToolUseBlock \<Rightarrow> string + ContentBlock list" where
  "executeToolSafely a tn it idx tc =
     (if \<not> ra_Registered a (tc_Name tc) then Inl (''tool not found: '' @ tc_Name tc)
      else case snd (tn_Tool tn it idx tc) of
             ToolReturns bs \<Rightarrow> Inr bs
           | ToolFails e \<Rightarrow> Inl e
           | ToolPanics v \<Rightarrow> Inl (''tool '' @ tc_Name tc @ '' panicked: '' @ v))"

fun dataDelta :: "nat \<Rightarrow> string \<Rightarrow> ContentBlock \<Rightarrow> AgentEvent list" where
  "dataDelta idx i (ImageBlock url b64 mime) = [ToolResultDataDelta (int idx) i (if b64 = [] then url else b64) mime]"
| "dataDelta idx i (AudioBlock url b64 mime) = [ToolResultDataDelta (int idx) i (if b64 = [] then url else b64) mime]"
| "dataDelta idx i (VideoBlock url) = [ToolResultDataDelta (int idx) i url ''video/*'']"
| "dataDelta idx i (DataBlock _ (Some s)) = [ToolResultDataDelta (int idx) i (src_Data s) (src_MediaType s)]"
| "dataDelta idx i _ = []"

definition textDeltas :: "nat \<Rightarrow> string \<Rightarrow> ContentBlock list \<Rightarrow> AgentEvent list" where
  "textDeltas idx i bs = (if textOf bs = [] then [] else [ToolResultTextDelta (int idx) i (textOf bs)])"

datatype ToolHalt = HookStop "Msg option" | HookFails AgentErr

record ToolRun =
  tr_Halt :: "ToolHalt option"
  tr_Content :: "ContentBlock list" \<comment> \<open>of the result message\<close>
  tr_Signal :: failureSignal
  tr_Ran :: bool \<comment> \<open>the tool was called\<close>

definition haltedRun :: "ToolHalt \<Rightarrow> bool \<Rightarrow> ToolRun" where
  "haltedRun h called = \<lparr>tr_Halt = Some h, tr_Content = [],
     tr_Signal = \<lparr>fs_ToolName = [], fs_IsError = False, fs_ErrText = [], fs_Blocks = []\<rparr>, tr_Ran = called\<rparr>"

definition toolHook :: "ReActAgent \<Rightarrow> HookPoint \<Rightarrow> nat \<Rightarrow> nat \<Rightarrow> Msg list \<Rightarrow> ToolUseBlock \<Rightarrow> AgentErr + HookResult option" where
  "toolHook a p it idx history tc =
     map_sum (\<lambda>e. e) snd (FireHooks (ra_Hooks a)
       ((hookAt it idx p history None)\<lparr>hc_ToolName := tc_Name tc, hc_ToolInput := tc_Input tc\<rparr>))"

text \<open>The blocks a tool leaves, before labels.\<close>

definition resultBlocks :: "ReActAgent \<Rightarrow> Turn \<Rightarrow> ToolUseBlock \<Rightarrow> string + ContentBlock list \<Rightarrow> ContentBlock list" where
  "resultBlocks a tn tc r =
     screenToolResult a (tc_Name tc) (tn_CompressResult tn (tc_ID tc)
       (case r of Inl e \<Rightarrow> [TextBlock (''error: '' @ e)] | Inr bs \<Rightarrow> if bs = [] then [TextBlock []] else bs) (\<not> isOk r))"

text \<open>The body of a goroutine.\<close>

definition runTool :: "ReActAgent \<Rightarrow> Turn \<Rightarrow> nat \<Rightarrow> Msg list \<Rightarrow> nat \<Rightarrow> ToolUseBlock \<Rightarrow> AgentEvent list \<times> ToolRun" where
  "runTool a tn it history idx tc =
     (let i = tc_ID tc; k = int idx; chunked = ra_Chunked a (tc_Name tc);
          opened = (if chunked then [] else [ToolCallStart k i (tc_Name tc), ToolCallEnd k i])
      in case toolHook a HookBeforeTool it idx history tc of
           Inl e \<Rightarrow> (opened, haltedRun (HookFails e) False)
         | Inr hr \<Rightarrow>
             if (case hr of None \<Rightarrow> False | Some r \<Rightarrow> hr_Interrupt r)
             then (opened, haltedRun (HookStop (Option.bind hr hr_Override)) False)
             else
               let r = executeToolSafely a tn it idx tc;
                   live = (if chunked then ToolCallStart k i (tc_Name tc) #
                             map (ToolCallDelta k i) (fst (tn_Tool tn it idx tc)) @ [ToolCallEnd k i] else []);
                   bs = resultBlocks a tn tc r;
                   content = [ToolResult i (labelToolResultBlocks a (tc_Name tc) bs) (\<not> isOk r) []];
                   evs = opened @ [ToolResultStart k i (tc_Name tc)] @ live @ textDeltas idx i bs @
                         concat (map (dataDelta idx i) bs) @ [ToolResultEnd k i]
               in case toolHook a HookAfterTool it idx history tc of
                    Inl e \<Rightarrow> (evs, haltedRun (HookFails e) True)
                  | Inr hr \<Rightarrow>
                      if (case hr of None \<Rightarrow> False | Some r \<Rightarrow> hr_StopAgent r \<or> hr_Interrupt r)
                      then (evs, haltedRun (HookStop
                             (case Option.bind hr hr_Override of
                                Some m \<Rightarrow> Some m
                              | None \<Rightarrow> if hr_StopAgent (the hr) then Some (newMsg (tn_UUID tn ''result'' it idx) RoleTool content)
                                        else None)) True)
                      else (evs, \<lparr>tr_Halt = None, tr_Content = content,
                             tr_Signal = \<lparr>fs_ToolName = tc_Name tc, fs_IsError = \<not> isOk r,
                               fs_ErrText = (case r of Inl e \<Rightarrow> e | Inr _ \<Rightarrow> []), fs_Blocks = bs\<rparr>, tr_Ran = True\<rparr>))"

section \<open>External tools\<close>

definition externalBlocks :: "ReActAgent \<Rightarrow> Turn \<Rightarrow> ExternalExecutionResult option \<Rightarrow> ToolUseBlock \<Rightarrow> bool \<times> ContentBlock list" where
  "externalBlocks a tn r tc =
     (let failed = (case r of None \<Rightarrow> True | Some r \<Rightarrow> \<not> er_Success r);
          bs = (if failed
                then [TextBlock (case r of None \<Rightarrow> ''external execution failed''
                        | Some r \<Rightarrow> if er_Error r = [] then ''external execution failed'' else er_Error r)]
                else [TextBlock (case r of None \<Rightarrow> [] | Some r \<Rightarrow> er_Output r)])
      in (failed, screenToolResult a (tc_Name tc) (tn_CompressResult tn (tc_ID tc) bs failed)))"

definition externalRun :: "ReActAgent \<Rightarrow> Turn \<Rightarrow> (string, ExternalExecutionResult) gomap \<Rightarrow> nat \<Rightarrow> ToolUseBlock \<Rightarrow>
    AgentEvent list \<times> ToolRun" where
  "externalRun a tn byID idx tc =
     (case externalBlocks a tn (mget byID (tc_ID tc)) tc of (failed, bs) \<Rightarrow>
        ([ToolCallStart (int idx) (tc_ID tc) (tc_Name tc), ToolCallEnd (int idx) (tc_ID tc),
          ToolResultStart (int idx) (tc_ID tc) (tc_Name tc)] @ textDeltas idx (tc_ID tc) bs @ [ToolResultEnd (int idx) (tc_ID tc)],
         \<lparr>tr_Halt = None, tr_Content = [ToolResult (tc_ID tc) (labelToolResultBlocks a (tc_Name tc) bs) failed []],
          tr_Signal = \<lparr>fs_ToolName = tc_Name tc, fs_IsError = failed, fs_ErrText = textOf bs, fs_Blocks = bs\<rparr>,
          tr_Ran = False\<rparr>))"

text \<open>The calls with their index; \<open>externalIdx\<close> keeps the last index of an identifier.\<close>

definition indexed :: "'b list \<Rightarrow> (nat \<times> 'b) list" where
  "indexed xs = zip [0..<length xs] xs"

definition externalIdx :: "ReActAgent \<Rightarrow> ToolUseBlock list \<Rightarrow> (string, nat) gomap" where
  "externalIdx a calls = fold (\<lambda>(k, tc) m. if ra_External a (tc_Name tc) then mput (tc_ID tc) k m else m) (indexed calls) []"

definition summaryOf :: "ToolUseBlock \<Rightarrow> ToolCallSummary" where
  "summaryOf tc = \<lparr>sum_ID = tc_ID tc, sum_Name = tc_Name tc, sum_Input = tc_Input tc\<rparr>"

text \<open>The index an external call is stored at.\<close>

definition idxOf :: "ReActAgent \<Rightarrow> ToolUseBlock list \<Rightarrow> ToolUseBlock \<Rightarrow> nat" where
  "idxOf a calls tc = (case mget (externalIdx a calls) (tc_ID tc) of None \<Rightarrow> 0 | Some k \<Rightarrow> k)"

text \<open>Any interleaving of the goroutines' events: the schedule picks whose event is next.\<close>

fun weave :: "nat list \<Rightarrow> 'b list list \<Rightarrow> 'b list" where
  "weave [] xss = concat xss"
| "weave (j # js) xss =
     (if j < length xss \<and> xss ! j \<noteq> [] then hd (xss ! j) # weave js (xss[j := tl (xss ! j)]) else weave js xss)"

section \<open>All calls of an iteration\<close>

datatype ToolsOut =
    ToolsErr AgentErr
  | ToolsStopped "Msg option"
  | ToolsDone Msg "failureSignal list"

definition firstHalt :: "ToolRun list \<Rightarrow> ToolHalt option" where
  "firstHalt rs = (case find (\<lambda>r. tr_Halt r \<noteq> None) rs of None \<Rightarrow> None | Some r \<Rightarrow> tr_Halt r)"

text \<open>The goroutines, given the results of the external calls by index.\<close>

definition runTools :: "Turn \<Rightarrow> nat \<Rightarrow> Msg list \<Rightarrow> ToolUseBlock list \<Rightarrow> (nat, ToolRun) gomap \<Rightarrow> ReActAgent \<Rightarrow> ToolsOut \<times> ReActAgent" where
  "runTools tn it history calls ext a =
     (let runs = map (\<lambda>(k, tc). case mget ext k of Some r \<Rightarrow> ([], r) | None \<Rightarrow> runTool a tn it history k tc) (indexed calls);
          a = sendEvents (weave (tn_Schedule tn it) (map fst runs)) a;
          a = a\<lparr>ra_Executed := ra_Executed a @
                  map (\<lambda>(tc, r). (it, tc)) (filter (\<lambda>(tc, r). tr_Ran r) (zip calls (map snd runs)))\<rparr>
      in case firstHalt (map snd runs) of
           Some (HookStop m) \<Rightarrow> (ToolsStopped m, a)
         | Some (HookFails e) \<Rightarrow> (ToolsErr e, a)
         | None \<Rightarrow>
             (ToolsDone (newMsg (tn_UUID tn ''tools'' it 0) RoleTool (concat (map (tr_Content \<circ> snd) runs)))
                (map (tr_Signal \<circ> snd) runs), a))"

text \<open>The part behind the gate.\<close>

definition executeAllowed :: "Turn \<Rightarrow> nat \<Rightarrow> Msg list \<Rightarrow> ToolUseBlock list \<Rightarrow> ReActAgent \<Rightarrow> ToolsOut \<times> ReActAgent" where
  "executeAllowed tn it history calls a =
     (let external = filter (\<lambda>tc. ra_External a (tc_Name tc)) calls
      in if external = [] then runTools tn it history calls [] a
         else
           let confirmID = tn_UUID tn ''external'' it 0;
               a = sendEvents [RequireExternalExecution confirmID (map summaryOf external)] a;
               a = setSuspended (Some (''require_external_execution'', confirmID)) a
           in case tn_ExtAnswer tn it of
                ExtCancelled \<Rightarrow> (ToolsErr (ErrWrap ''external execution wait: '' (tn_CtxErr tn)), a)
              | ExtOther \<Rightarrow> (ToolsErr (ErrText ''expected ExternalExecutionResultEvent''), setSuspended None a)
              | ExtResults rs \<Rightarrow>
                  let a = setSuspended None a;
                      byID = fold (\<lambda>r m. mput (er_ToolCallID r) r m) rs [];
                      runs = map (\<lambda>tc. (idxOf a calls tc, externalRun a tn byID (idxOf a calls tc) tc)) external;
                      a = sendEvents (concat (map (fst \<circ> snd) runs)) a
                  in runTools tn it history calls (fold (\<lambda>(k, r). mput k (snd r)) runs []) a)"

definition executeToolsStream :: "Turn \<Rightarrow> nat \<Rightarrow> Msg list \<Rightarrow> ToolUseBlock list \<Rightarrow> ReActAgent \<Rightarrow> ToolsOut \<times> ReActAgent" where
  "executeToolsStream tn it history calls a =
     (case permissionGate (tn_Host tn) (ra_Permission a) calls (tn_Answer tn it) of (gate, asking, eng) \<Rightarrow>
        let confirmID = tn_UUID tn ''confirm'' it 0;
            a = (if asking = [] then a
                 else setSuspended (Some (''require_user_confirm'', confirmID)) (sendEvents [RequireUserConfirm confirmID asking] a))
        in case gate of
             GateDenied name msg \<Rightarrow> (ToolsErr (ErrDenied name msg), a)
           | GateWaitFailed \<Rightarrow> (ToolsErr (ErrWrap ''permission confirmation wait: '' (tn_CtxErr tn)), a)
           | GateWrongEvent \<Rightarrow> (ToolsErr (ErrText ''expected UserConfirmResultEvent''), a)
           | GateAllRefused \<Rightarrow>
               (ToolsDone (withCurrentUsage a (newMsg (tn_UUID tn ''denied'' it 0) RoleTool
                  [TextBlock ''All tool calls were denied by user.''])) [],
                if asking = [] then a else setSuspended None a)
           | GateProceed calls \<Rightarrow>
               executeAllowed tn it history calls
                 ((if asking = [] then a else setSuspended None a)\<lparr>ra_Permission := eng\<rparr>))"

end
