(* ===== verification/React_Loop.thy ===== *)
theory React_Loop
  imports React_Tools
begin

text \<open>
  The ReAct loop (replyStreamInternal and its phases in agent/react), the turn around it
  (replyStreamLoop, agent/base.go), the resumption of a suspended turn and the synchronous Reply.
\<close>

section \<open>Texts\<close>

definition encodeRune :: "nat \<Rightarrow> string" where
  "encodeRune r =
     map char_of
       (if r < 0x80 then [r]
        else if r < 0x800 then [0xC0 + r div 64, 0x80 + r mod 64]
        else if r < 0x10000 then [0xE0 + r div 4096, 0x80 + r div 64 mod 64, 0x80 + r mod 64]
        else [0xF0 + r div 262144, 0x80 + r div 4096 mod 64, 0x80 + r div 64 mod 64, 0x80 + r mod 64])"

definition truncateRunes :: "string \<Rightarrow> nat \<Rightarrow> string" where
  "truncateRunes s n = (if length (runes s) \<le> n then s else concat (map encodeRune (take n (runes s))) @ encodeRune 0x2026)"

fun natText :: "nat \<Rightarrow> string" where
  "natText n = (if n < 10 then [char_of (48 + n)] else natText (n div 10) @ [char_of (48 + n mod 10)])"

declare natText.simps [simp del]

definition zh :: "nat list \<Rightarrow> string" where
  "zh rs = concat (map encodeRune rs)"

definition toolRetriesHintText :: "string \<Rightarrow> int \<Rightarrow> string \<Rightarrow> string" where
  "toolRetriesHintText name count reason =
     ''<system-reminder>Tool '' @ [CHR 0x27] @ name @ [CHR 0x27] @ '' has failed '' @ natText (nat count) @ '' times in a row'' @
     (if TrimSpace reason \<noteq> [] then '' (latest error: '' @ truncateRunes reason 200 @ '')'' else []) @
     ''. Try a different approach instead of repeating the same call.</system-reminder>''"

definition breakerFinalMessage :: "string \<Rightarrow> string \<Rightarrow> string \<Rightarrow> int \<Rightarrow> string \<Rightarrow> Msg" where
  "breakerFinalMessage uuid agentName name count reason =
     (let reason = truncateRunes (if TrimSpace reason = [] then zh [0x672A, 0x77E5, 0x9519, 0x8BEF] else reason) 200
      in (newMsg uuid RoleAssistant
        [TextBlock (zh [0x5DE5, 0x5177, 0x20] @ name @ zh [0x20, 0x5DF2, 0x8FDE, 0x7EED, 0x5931, 0x8D25, 0x20] @ natText (nat count) @
           zh [0x20, 0x6B21, 0xFF08, 0x6700, 0x8FD1, 0x9519, 0x8BEF, 0x3A, 0x20] @ reason @
           zh [0xFF09, 0xFF0C, 0x5DF2, 0x505C, 0x6B62, 0x91CD, 0x8BD5, 0x3002, 0x8BF7, 0x7A0D, 0x540E, 0x518D, 0x8BD5, 0x3001,
               0x68C0, 0x67E5, 0x8BE5, 0x5DE5, 0x5177, 0x914D, 0x7F6E, 0x6216, 0x6362, 0x4E00, 0x79CD, 0x65B9, 0x5F0F, 0x5B8C,
               0x6210, 0x4EFB, 0x52A1, 0x3002])])\<lparr>mg_Name := agentName\<rparr>)"

section \<open>Steering\<close>

definition steerQueueCap :: nat where "steerQueueCap = 64"

datatype steer_error = NoActiveTurn | SteerQueueFull

definition Steer :: "string \<Rightarrow> ReActAgent \<Rightarrow> steer_error option \<times> ReActAgent" where
  "Steer t a =
     (if ra_ActiveTurns a = 0 then (Some NoActiveTurn, a)
      else if length (ra_SteerQueue a) \<ge> steerQueueCap then (Some SteerQueueFull, a)
      else (None, a\<lparr>ra_SteerQueue := ra_SteerQueue a @ [t]\<rparr>))"

definition bumpActive :: "ReActAgent \<Rightarrow> ReActAgent" where
  "bumpActive a = a\<lparr>ra_ActiveTurns := ra_ActiveTurns a + 1\<rparr>"

definition drainSteer :: "ReActAgent \<Rightarrow> string list \<times> ReActAgent" where
  "drainSteer a = (ra_SteerQueue a, a\<lparr>ra_SteerQueue := []\<rparr>)"

section \<open>History\<close>

definition buildHistory :: "Turn \<Rightarrow> nat \<Rightarrow> Msg \<Rightarrow> ReActAgent \<Rightarrow> Msg list" where
  "buildHistory tn n input a =
     (if ra_SysPrompt a \<noteq> [] then [newMsg (tn_UUID tn ''system'' n 0) RoleSystem [TextBlock (ra_SysPrompt a)]] else []) @
     (let summary = (case ra_Runtime a of None \<Rightarrow> [] | Some s \<Rightarrow> as_CompressedSummary s)
      in if summary \<noteq> [] then [newMsg (tn_UUID tn ''summary'' n 0) RoleUser [TextBlock summary]] else []) @
     ra_Memory a @ [input]"

definition inLoopSuffixAfterInput :: "Msg list \<Rightarrow> Msg \<Rightarrow> Msg list" where
  "inLoopSuffixAfterInput history input = tl (dropWhile (\<lambda>m. mg_ID m \<noteq> mg_ID input) history)"

definition syncHistoryWithMemory :: "Turn \<Rightarrow> nat \<Rightarrow> Msg \<Rightarrow> Msg list \<Rightarrow> ReActAgent \<Rightarrow> Msg list" where
  "syncHistoryWithMemory tn n input history a = buildHistory tn n input a @ inLoopSuffixAfterInput history input"

definition remember :: "Msg \<Rightarrow> ReActAgent \<Rightarrow> ReActAgent" where
  "remember m a = a\<lparr>ra_Memory := ra_Memory a @ [m]\<rparr>"

definition saveMessages :: "Msg list \<Rightarrow> ReActAgent \<Rightarrow> ReActAgent" where
  "saveMessages history = onRuntime (\<lambda>s. s\<lparr>as_Messages := history\<rparr>)"

section \<open>Interruption\<close>

definition lastAssistantText :: "Msg list \<Rightarrow> string" where
  "lastAssistantText history =
     (case find (\<lambda>m. mg_Role m = RoleAssistant) (rev history) of None \<Rightarrow> [] | Some m \<Rightarrow> GetTextContent m)"

definition handleInterrupt :: "Turn \<Rightarrow> nat \<Rightarrow> Msg list \<Rightarrow> ReActAgent \<Rightarrow> (AgentErr + Msg option) \<times> ReActAgent" where
  "handleInterrupt tn it history a =
     (if tn_BySystem tn then
        (Inl (ErrWrap '': source=SYSTEM'' ErrAgentClosed),
         if ra_SavePartial a then a\<lparr>ra_Memory := ra_Memory a @ filter (\<lambda>m. mg_Role m = RoleAssistant) history\<rparr> else a)
      else if ra_RaiseCancelled a then (Inl ErrCanceled, a)
      else
        let last = lastAssistantText history;
            t = ''I noticed that you have interrupted me. What can I do for you?'' @
                (if last \<noteq> [] then '' (before the interruption I was saying: '' @ truncateRunes last 80 @ '')'' else []);
            m = withCurrentUsage a ((newMsg (tn_UUID tn ''recovery'' it 0) RoleAssistant [TextBlock t])\<lparr>mg_Name := ra_Name a\<rparr>)
        in (Inr (Some m), remember m a))"

definition loopGuard :: "Turn \<Rightarrow> nat \<Rightarrow> nat \<Rightarrow> ReActAgent \<Rightarrow> (AgentErr + Msg option) \<times> ReActAgent" where
  "loopGuard tn it k a =
     (if tn_Interrupt tn it k then handleInterrupt tn it [] a
      else if tn_Closed tn it k then (Inl ErrAgentClosed, a) else (Inr None, a))"

section \<open>Stages of an iteration\<close>

text \<open>How the loop is left: a return, or a break with the final response.\<close>

datatype LoopEnd = LoopReturns "Msg option" | LoopBreaks Msg

text \<open>A stage ends the loop (\<open>Inl\<close>) or hands its value to the next one.\<close>

type_synonym 'v stage = "((AgentErr + LoopEnd) + 'v) \<times> ReActAgent"

definition stageThen :: "'v stage \<Rightarrow> ('v \<Rightarrow> ReActAgent \<Rightarrow> 'w stage) \<Rightarrow> 'w stage" where
  "stageThen st f = (case st of (Inl e, a) \<Rightarrow> (Inl e, a) | (Inr v, a) \<Rightarrow> f v a)"

text \<open>\<^verbatim>\<open>if resp, err := ...; err != nil || resp != nil { return resp, err }\<close>\<close>

definition guarded :: "(AgentErr + Msg option) \<times> ReActAgent \<Rightarrow> 'v \<Rightarrow> 'v stage" where
  "guarded g v =
     (case g of
        (Inl e, a) \<Rightarrow> (Inl (Inl e), a)
      | (Inr (Some m), a) \<Rightarrow> (Inl (Inr (LoopReturns (Some m))), a)
      | (Inr None, a) \<Rightarrow> (Inr v, a))"

definition returned :: "(AgentErr + Msg option) \<times> ReActAgent \<Rightarrow> 'v stage" where
  "returned g = (case g of (Inl e, a) \<Rightarrow> (Inl (Inl e), a) | (Inr m, a) \<Rightarrow> (Inl (Inr (LoopReturns m)), a))"

definition loopHook :: "ReActAgent \<Rightarrow> HookPoint \<Rightarrow> nat \<Rightarrow> Msg list \<Rightarrow> Msg option \<Rightarrow> AgentErr + (Msg list \<times> HookResult option)" where
  "loopHook a p it history response =
     FireHooks (ra_Hooks a) (hookAt it 0 p history response)"

text \<open>Up to the bookkeeping of the runtime state.\<close>

definition enterIteration :: "Turn \<Rightarrow> nat \<Rightarrow> Msg list \<Rightarrow> ReActAgent \<Rightarrow> (Msg list) stage" where
  "enterIteration tn it history a =
     (if tn_CtxDone tn it then (Inl (Inl (tn_CtxErr tn)), a)
      else
        let a = fold (\<lambda>t a. snd (Steer t a)) (tn_Steered tn it) a;
            (steered, a) = drainSteer a;
            history = history @ map (\<lambda>(k, t). newMsg (tn_UUID tn ''steer'' it k) RoleUser [TextBlock t]) (indexed steered)
        in stageThen (guarded (loopGuard tn it 0 a) history)
             (\<lambda>history a. (Inr history, saveMessages history (onRuntime (\<lambda>s. s\<lparr>as_CurIter := it\<rparr>) a))))"

definition beforeModelPhase :: "nat \<Rightarrow> Msg list \<Rightarrow> ReActAgent \<Rightarrow> (Msg list) stage" where
  "beforeModelPhase it history a =
     (case loopHook a HookBeforeModel it history None of
        Inl e \<Rightarrow> (Inl (Inl e), a)
      | Inr (updated, hr) \<Rightarrow>
          (case hr of
             None \<Rightarrow> (Inr updated, a)
           | Some r \<Rightarrow>
               if hr_Interrupt r then (Inl (Inr (LoopReturns (hr_Override r))), a)
               else (case hr_Override r of Some m \<Rightarrow> (Inl (Inr (LoopBreaks m)), a) | None \<Rightarrow> (Inr updated, a))))"

definition compressAndSync :: "Turn \<Rightarrow> nat \<Rightarrow> Msg \<Rightarrow> Msg list \<Rightarrow> ReActAgent \<Rightarrow> (Msg list) stage" where
  "compressAndSync tn it input history a =
     (let summary = (case ra_Runtime a of None \<Rightarrow> [] | Some s \<Rightarrow> as_CompressedSummary s)
      in case tn_Compress tn it summary (ra_Memory a) of
           Inl e \<Rightarrow> (Inl (Inl e), sendEvents [ErrorEvent e] a)
         | Inr (summary, mem) \<Rightarrow>
             let a = onRuntime (\<lambda>s. s\<lparr>as_CompressedSummary := summary\<rparr>) (a\<lparr>ra_Memory := mem\<rparr>)
             in (Inr (syncHistoryWithMemory tn (Suc it) input history a), a))"

definition extractUsage :: "Msg \<Rightarrow> ChatUsage" where
  "extractUsage m = (case mg_MetaUsage m of None \<Rightarrow> noUsage | Some u \<Rightarrow> u)"

definition addUsage :: "ChatUsage \<Rightarrow> ReActAgent \<Rightarrow> ReActAgent" where
  "addUsage u a = a\<lparr>ra_Usage := Usage_Add (ra_Usage a) u\<rparr>"

definition runModelStream :: "Turn \<Rightarrow> nat \<Rightarrow> Msg list \<Rightarrow> ReActAgent \<Rightarrow> (AgentErr + Msg) \<times> ReActAgent" where
  "runModelStream tn it history a =
     (case runModelStreamInner (tn_Model tn it history) (tn_UUID tn ''response'' it 0) of
        (evs, r) \<Rightarrow> (r, sendEvents evs (a\<lparr>ra_Prompts := ra_Prompts a @ [history]\<rparr>)))"

definition modelStage :: "Turn \<Rightarrow> nat \<Rightarrow> Msg list \<Rightarrow> ReActAgent \<Rightarrow> Msg stage" where
  "modelStage tn it history a =
     (case runModelStream tn it history a of
        (Inl e, a) \<Rightarrow>
          if errIs e ErrHookInterrupted then (Inl (Inl e), a)
          else if tn_Interrupt tn it 1 then returned (handleInterrupt tn it history a)
          else (Inl (Inl e), sendEvents [ErrorEvent e] a)
      | (Inr response, a) \<Rightarrow>
          let a = addUsage (extractUsage response) a
          in if tn_Interrupt tn it 2 then returned (handleInterrupt tn it history a) else (Inr response, a))"

datatype AfterModel = GoOnWith Msg | NextIteration "Msg list"

definition afterModelPhase :: "nat \<Rightarrow> Msg list \<Rightarrow> Msg \<Rightarrow> ReActAgent \<Rightarrow> AfterModel stage" where
  "afterModelPhase it history response a =
     (case loopHook a HookAfterModel it history (Some response) of
        Inl e \<Rightarrow> (Inl (Inl e), a)
      | Inr (_, hr) \<Rightarrow>
          (case hr of
             None \<Rightarrow> (Inr (GoOnWith response), a)
           | Some r \<Rightarrow>
               if hr_StopAgent r then
                 (Inl (Inr (LoopReturns (case hr_Override r of Some m \<Rightarrow> Some m | None \<Rightarrow> Some response))), a)
               else if hr_GotoReasoning r then (Inr (NextIteration (history @ response # hr_GotoReasoningMsgs r)), a)
               else if hr_Interrupt r then (Inl (Inr (LoopReturns (hr_Override r))), a)
               else (Inr (GoOnWith (case hr_Override r of Some m \<Rightarrow> m | None \<Rightarrow> response)), a)))"

definition hasOnlyThinkingBlocks :: "Msg \<Rightarrow> bool" where
  "hasOnlyThinkingBlocks m \<longleftrightarrow> mg_Content m \<noteq> [] \<and> list_all isThinking (mg_Content m)"

definition checkFinalAnswer :: "nat \<Rightarrow> Msg list \<Rightarrow> Msg \<Rightarrow> ReActAgent \<Rightarrow> AgentErr + (Msg \<times> bool)" where
  "checkFinalAnswer it history response a =
     (if GetToolUseCalls response \<noteq> [] \<or> hasOnlyThinkingBlocks response then Inr (response, False)
      else case loopHook a HookBeforeFinish it history (Some response) of
             Inl e \<Rightarrow> Inl e
           | Inr (_, hr) \<Rightarrow> Inr (case Option.bind hr hr_Override of Some m \<Rightarrow> m | None \<Rightarrow> response, True))"

text \<open>The final message gets the usage of the whole reply; the stored copy is the same object.\<close>

definition shareMsg :: "Msg \<Rightarrow> ReActAgent \<Rightarrow> ReActAgent" where
  "shareMsg m = onRuntime (\<lambda>s. s\<lparr>as_Messages := map (\<lambda>x. if mg_ID x = mg_ID m then m else x) (as_Messages s)\<rparr>)"

definition finalStage :: "nat \<Rightarrow> Msg list \<Rightarrow> Msg \<Rightarrow> ChatUsage \<Rightarrow> ReActAgent \<Rightarrow> (Msg list \<times> Msg) stage" where
  "finalStage it history response replyUsage a =
     (let history = history @ [response]; a = saveMessages history a
      in case checkFinalAnswer it history response a of
           Inl e \<Rightarrow> (Inl (Inl e), a)
         | Inr (m, isFinal) \<Rightarrow>
             if isFinal then let m = m\<lparr>mg_Usage := Some replyUsage\<rparr> in (Inl (Inr (LoopBreaks m)), shareMsg m a)
             else (Inr (history, m), a))"

definition toolStage :: "Turn \<Rightarrow> nat \<Rightarrow> Msg list \<Rightarrow> Msg \<Rightarrow> ReActAgent \<Rightarrow> (Msg list \<times> failureSignal list) stage" where
  "toolStage tn it history response a =
     stageThen (guarded (loopGuard tn it 3 a) ())
       (\<lambda>_ a. case executeToolsStream tn it history (GetToolUseCalls response) a of
          (ToolsErr e, a) \<Rightarrow> (Inl (Inl e), a)
        | (ToolsStopped m, a) \<Rightarrow> (Inl (Inr (LoopReturns m)), a)
        | (ToolsDone m sigs, a) \<Rightarrow> (Inr (history @ [m], sigs), a))"

definition breakerStage :: "Turn \<Rightarrow> nat \<Rightarrow> Msg list \<Rightarrow> failureSignal list \<Rightarrow> consecutiveFailureBreaker \<Rightarrow> ReActAgent \<Rightarrow>
    (Msg list \<times> consecutiveFailureBreaker) stage" where
  "breakerStage tn it history sigs b a =
     (case breakerUpdate (tn_MapOrder tn) sigs b of ((name, count, reason), b) \<Rightarrow>
        if name \<noteq> [] then
          let m = withCurrentUsage a (breakerFinalMessage (tn_UUID tn ''breaker'' it 0) (ra_Name a) name count reason)
          in (Inl (Inr (LoopBreaks m)), saveMessages (history @ [m]) a)
        else case hintNeeded (tn_MapOrder tn) b of (name, count, reason) \<Rightarrow>
          if name \<noteq> [] then
            let hint = toolRetriesHintText name count reason
            in (Inr (history @ [newMsg (tn_UUID tn ''hint'' it 0) RoleSystem [TextBlock hint]], b),
                sendEvents [HintBlockStart 0, HintBlockDelta 0 hint, HintBlockEnd 0] a)
          else (Inr (history, b), a))"

section \<open>The loop\<close>

text \<open>What one iteration hands to the next: history, breaker and the usage of the reply so far.\<close>

type_synonym loop_vars = "Msg list \<times> consecutiveFailureBreaker \<times> ChatUsage"

text \<open>A response without override: the loop ends with it, or its tools are run.\<close>

definition actOn :: "Turn \<Rightarrow> nat \<Rightarrow> consecutiveFailureBreaker \<Rightarrow> ChatUsage \<Rightarrow> Msg list \<Rightarrow> Msg \<Rightarrow> ReActAgent \<Rightarrow> loop_vars stage" where
  "actOn tn it b used history response a =
     stageThen (finalStage it history response used a) (\<lambda>(history, response) a.
     stageThen (toolStage tn it history response a) (\<lambda>(history, sigs) a.
     stageThen (breakerStage tn it history sigs b a) (\<lambda>(history, b) a.
       (Inr (history, b, used), a))))"

definition respond :: "Turn \<Rightarrow> nat \<Rightarrow> consecutiveFailureBreaker \<Rightarrow> ChatUsage \<Rightarrow> Msg list \<Rightarrow> Msg \<Rightarrow> ReActAgent \<Rightarrow> loop_vars stage" where
  "respond tn it b used history response a =
     (let used = Usage_Add used (extractUsage response)
      in stageThen (afterModelPhase it history response a) (\<lambda>after a.
           case after of
             NextIteration history \<Rightarrow> (Inr (history, b, used), a)
           | GoOnWith response \<Rightarrow> actOn tn it b used history response a))"

definition iteration :: "Turn \<Rightarrow> nat \<Rightarrow> Msg \<Rightarrow> loop_vars \<Rightarrow> ReActAgent \<Rightarrow> loop_vars stage" where
  "iteration tn it input vars a =
     (case vars of (history, b, used) \<Rightarrow>
        stageThen (enterIteration tn it history a) (\<lambda>history a.
        stageThen (beforeModelPhase it history a) (\<lambda>history a.
        stageThen (compressAndSync tn it input history a) (\<lambda>history a.
        stageThen (modelStage tn it history a) (\<lambda>response a.
          respond tn it b used history response a)))))"

text \<open>The loop, with the number of iterations left; \<open>None\<close>: they are used up.\<close>

fun reactLoop :: "nat \<Rightarrow> Turn \<Rightarrow> nat \<Rightarrow> Msg \<Rightarrow> loop_vars \<Rightarrow> ReActAgent \<Rightarrow> (AgentErr + LoopEnd option) \<times> ReActAgent" where
  "reactLoop 0 tn it input vars a = (Inr None, a)"
| "reactLoop (Suc n) tn it input vars a =
     (case iteration tn it input vars a of
        (Inl (Inl e), a) \<Rightarrow> (Inl e, a)
      | (Inl (Inr l), a) \<Rightarrow> (Inr (Some l), a)
      | (Inr vars, a) \<Rightarrow> reactLoop n tn (Suc it) input vars a)"

definition preCallPhase :: "Msg \<Rightarrow> ReActAgent \<Rightarrow> AgentErr + (Msg option \<times> Msg option)" where
  "preCallPhase msg a =
     (case FireHooks (ra_Hooks a) (hookAt 0 0 HookPreCall [msg] None) of
        Inl e \<Rightarrow> Inl e
      | Inr (msgs, hr) \<Rightarrow>
          if (case hr of None \<Rightarrow> False | Some r \<Rightarrow> hr_Interrupt r \<or> hr_Override r \<noteq> None)
          then Inr (None, Option.bind hr hr_Override)
          else Inr (Some (case msgs of [] \<Rightarrow> msg | m # _ \<Rightarrow> m), None))"

definition maxItersErr :: AgentErr where
  "maxItersErr = ErrText ''react agent: max iterations reached without final answer''"

text \<open>
  A pre-call hook that interrupts without an override leaves neither an input nor a response; the
  loop then runs on the nil input, which is not modelled: the turn is taken to end there.
\<close>

definition replyStreamInternal :: "Turn \<Rightarrow> Msg \<Rightarrow> ReActAgent \<Rightarrow> (AgentErr + Msg option) \<times> ReActAgent" where
  "replyStreamInternal tn msg a =
     (case preCallPhase msg a of
        Inl e \<Rightarrow> (Inl e, a)
      | Inr (_, Some m) \<Rightarrow> (Inr (Some m), a)
      | Inr (None, None) \<Rightarrow> (Inr None, a)
      | Inr (Some input, None) \<Rightarrow>
          let history = buildHistory tn 0 input a
          in case tn_PreCallHook tn of
               Some e \<Rightarrow> (Inl e, sendEvents [ErrorEvent e] a)
             | None \<Rightarrow>
                 (case reactLoop (ra_MaxIterations a) tn 0 input
                         (history, newConsecutiveFailureBreaker (ra_FailureThreshold a), noUsage) a of
                    (Inl e, a) \<Rightarrow> (Inl e, a)
                  | (Inr (Some (LoopReturns m)), a) \<Rightarrow> (Inr m, a)
                  | (Inr (Some (LoopBreaks m)), a) \<Rightarrow> (Inr (Some m), remember m (remember msg a))
                  | (Inr None, a) \<Rightarrow> (Inl maxItersErr, sendEvents [ExceedMaxIters (int (ra_MaxIterations a))] a)))"

section \<open>The turn\<close>

definition startTurn :: "Turn \<Rightarrow> ReActAgent \<Rightarrow> ReActAgent" where
  "startTurn tn a = a\<lparr>ra_Runtime := Some \<lparr>as_ReplyID = tn_ReplyID tn, as_CurIter = 0, as_Messages = [],
     as_CompressedSummary = [], as_Suspended = None\<rparr>\<rparr>"

text \<open>Base.Call without reply middleware: the hooks around the reply and its errors.\<close>

definition onError :: "Msg \<Rightarrow> ReActAgent \<Rightarrow> AgentErr \<Rightarrow> AgentErr + Msg option" where
  "onError msg a e =
     (case FireOnError (ra_Hooks a) (hookAt 0 0 HookOnError [msg] None) e of None \<Rightarrow> Inr None | Some e \<Rightarrow> Inl e)"

definition callWithHooks :: "Msg \<Rightarrow> (Msg \<Rightarrow> ReActAgent \<Rightarrow> (AgentErr + Msg option) \<times> ReActAgent) \<Rightarrow> ReActAgent \<Rightarrow>
    (AgentErr + Msg option) \<times> ReActAgent" where
  "callWithHooks msg reply a =
     (case FireHooks (ra_Hooks a) (hookAt 0 0 HookPreReply [msg] None) of
        Inl e \<Rightarrow> (onError msg a e, a)
      | Inr (msgs, hr) \<Rightarrow>
          if (case hr of None \<Rightarrow> False | Some r \<Rightarrow> hr_Interrupt r \<or> hr_Override r \<noteq> None)
          then (Inr (Option.bind hr hr_Override), a)
          else reply (case msgs of [] \<Rightarrow> msg | m # _ \<Rightarrow> m) a)"

definition Base_Call :: "Msg \<Rightarrow> (Msg \<Rightarrow> ReActAgent \<Rightarrow> (AgentErr + Msg option) \<times> ReActAgent) \<Rightarrow> ReActAgent \<Rightarrow>
    (AgentErr + Msg option) \<times> ReActAgent" where
  "Base_Call msg reply a =
     (case callWithHooks msg reply a of (Inl e, a) \<Rightarrow> (onError msg a e, a) | (Inr m, a) \<Rightarrow> (Inr m, a))"

text \<open>The final response becomes the last assistant message of the runtime state.\<close>

definition recordFinal :: "Msg \<Rightarrow> ReActAgent \<Rightarrow> ReActAgent" where
  "recordFinal m = onRuntime (\<lambda>s. s\<lparr>as_Messages :=
     (if as_Messages s \<noteq> [] \<and> (last (as_Messages s) = m \<or> mg_Role (last (as_Messages s)) = RoleAssistant)
      then butlast (as_Messages s) @ [m] else as_Messages s @ [m])\<rparr>)"

definition freshTurn :: "Turn \<Rightarrow> Msg \<Rightarrow> ReActAgent \<Rightarrow> AgentErr option \<times> ReActAgent" where
  "freshTurn tn msg a =
     (case Base_Call msg (replyStreamInternal tn) a of
        (Inl e, a) \<Rightarrow> (Some e, a)
      | (Inr None, a) \<Rightarrow> (None, a)
      | (Inr (Some m), a) \<Rightarrow> (None, recordFinal m a))"

section \<open>Resumption\<close>

definition resumeReplyStreamInternal :: "Turn \<Rightarrow> Msg \<Rightarrow> ReActAgent \<Rightarrow> (AgentErr + Msg option) \<times> ReActAgent" where
  "resumeReplyStreamInternal tn msg a =
     (case ra_Runtime a of
        None \<Rightarrow> (Inr None, a)
      | Some rt \<Rightarrow>
          let history = as_Messages rt; it = as_CurIter rt;
              confirmID = (case as_Suspended rt of None \<Rightarrow> [] | Some (_, c) \<Rightarrow> c);
              calls = (case find (\<lambda>m. mg_Role m = RoleAssistant) (rev history) of None \<Rightarrow> [] | Some m \<Rightarrow> GetToolUseCalls m)
          in if calls = [] then (Inl (ErrText ''react agent resume: no tool calls in saved history''), a)
             else
               let a = sendEvents [RequireUserConfirm confirmID
                         (map (\<lambda>tc. \<lparr>sum_ID = tc_ID tc, sum_Name = tc_Name tc, sum_Input = []\<rparr>) calls)] a
               in case tn_Answer tn it of
                    WaitCancelled \<Rightarrow> (Inl (ErrWrap ''react agent resume: wait failed: '' (tn_CtxErr tn)), a)
                  | OtherEvent \<Rightarrow> (Inl (ErrText ''react agent resume: expected UserConfirmResultEvent''), a)
                  | ConfirmResult ds \<Rightarrow>
                      let calls = applyConfirmDecisions calls ds
                      in if calls = [] then
                           let m = withCurrentUsage a (newMsg (tn_UUID tn ''denied'' it 0) RoleTool
                                     [TextBlock ''All tool calls were denied by user.''])
                           in (Inr (Some m), remember m (remember msg a))
                         else
                           let perm = ra_Permission a;
                               (r, a) = executeToolsStream tn it history calls ((setSuspended None a)\<lparr>ra_Permission := None\<rparr>);
                               a = a\<lparr>ra_Permission := perm\<rparr>
                           in case r of
                                ToolsErr e \<Rightarrow> (Inl e, a)
                              | ToolsStopped m \<Rightarrow> (Inr m, a)
                              | ToolsDone m _ \<Rightarrow>
                                  let history = history @ [m]
                                  in (case runModelStream tn (Suc it) history a of
                                        (Inl e, a) \<Rightarrow> (Inl e, a)
                                      | (Inr response, a) \<Rightarrow>
                                          (case loopHook a HookBeforeFinish it history (Some response) of
                                             Inl e \<Rightarrow> (Inl e, a)
                                           | Inr (_, hr) \<Rightarrow>
                                               let response = (case Option.bind hr hr_Override of Some m \<Rightarrow> m | None \<Rightarrow> response)
                                               in (Inr (Some response),
                                                   saveMessages (history @ [response]) (remember response (remember msg a))))))"

definition replyStreamLoop :: "Turn \<Rightarrow> Msg \<Rightarrow> ReActAgent \<Rightarrow> ReActAgent" where
  "replyStreamLoop tn msg a =
     (let resume = (case ra_Runtime a of None \<Rightarrow> False | Some rt \<Rightarrow> as_Suspended rt \<noteq> None);
          a = (if resume then a else startTurn tn a);
          a = sendEvents [ReplyStart (ra_Name a)] (a\<lparr>ra_TurnErr := None\<rparr>);
          (err, a) = (if resume then
                        (case resumeReplyStreamInternal tn msg a of (Inl e, a) \<Rightarrow> (Some e, a) | (Inr _, a) \<Rightarrow> (None, a))
                      else freshTurn tn msg a);
          a = (case err of
                 None \<Rightarrow> a
               | Some e \<Rightarrow> (if errIs e ErrCanceled then (\<lambda>a. a) else sendEvents [ErrorEvent e]) (a\<lparr>ra_TurnErr := Some e\<rparr>))
      in (sendEvents [ReplyEnd (ra_Name a)] a)\<lparr>ra_ActiveTurns := ra_ActiveTurns a - 1\<rparr>)"

text \<open>ReplyStream until its stream is closed; \<open>closed\<close>: the agent was shut down before.\<close>

definition ReplyStream :: "Turn \<Rightarrow> bool \<Rightarrow> Msg \<Rightarrow> ReActAgent \<Rightarrow> AgentErr option \<times> ReActAgent" where
  "ReplyStream tn closed msg a =
     (if closed then (Some ErrAgentClosed, a) else (None, replyStreamLoop tn msg (bumpActive a)))"

text \<open>Reply collects a turn: the real error, the last one sent, or the last assistant message.\<close>

definition Reply :: "Turn \<Rightarrow> bool \<Rightarrow> Msg \<Rightarrow> ReActAgent \<Rightarrow> (AgentErr + Msg) \<times> ReActAgent" where
  "Reply tn closed msg a =
     (case ReplyStream tn closed msg a of
        (Some e, a') \<Rightarrow> (Inl e, a')
      | (None, a') \<Rightarrow>
          (case ra_TurnErr a' of
             Some e \<Rightarrow> (Inl e, a'\<lparr>ra_TurnErr := None\<rparr>)
           | None \<Rightarrow>
               (case lastError (drop (length (ra_Events a)) (ra_Events a')) of
                  Some e \<Rightarrow> (Inl e, a')
                | None \<Rightarrow>
                    (case ra_Runtime a' of
                       None \<Rightarrow> (Inl (ErrText ''react agent: reply completed but no message produced''), a')
                     | Some rt \<Rightarrow>
                         if as_Messages rt = []
                         then (Inl (ErrText ''react agent: reply completed but no message produced''), a')
                         else (case find (\<lambda>m. mg_Role m = RoleAssistant) (rev (as_Messages rt)) of
                                 Some m \<Rightarrow> (Inr m, a')
                               | None \<Rightarrow> (Inl (ErrText ''react agent: reply completed but no assistant message found''), a'))))))"

end
