(* ===== verification/React_Laws.thy ===== *)
theory React_Laws
  imports React_Loop
begin

text \<open>
  What every stage of a turn keeps: its events lie between the start and the end of the reply, a
  stage calls the model at most once, and tools are run only behind the permission gate.
\<close>

section \<open>Growth\<close>

definition innerEvent :: "AgentEvent \<Rightarrow> bool" where
  "innerEvent ev \<longleftrightarrow> (case ev of ReplyStart _ \<Rightarrow> False | ReplyEnd _ \<Rightarrow> False | _ \<Rightarrow> True)"

text \<open>An engine with further approved rule classes.\<close>

definition approvedFrom :: "Engine \<Rightarrow> Engine \<Rightarrow> bool" where
  "approvedFrom e e' \<longleftrightarrow> (\<exists>rs. e' = fold ApproveRuleClass rs e)"

text \<open>
  The gate clears a call: the engine denies none of the calls beside it, and if one of them needs
  a confirmation, the user's answer lets this call through.
\<close>

definition cleared :: "Turn \<Rightarrow> Engine \<Rightarrow> nat \<Rightarrow> ToolUseBlock \<Rightarrow> bool" where
  "cleared tn e it tc \<longleftrightarrow> (\<exists>calls.
     (\<forall>r \<in> set (Evaluate (tn_Host tn) e calls). res_Decision r \<noteq> DecisionDeny) \<and>
     (if \<exists>r \<in> set (Evaluate (tn_Host tn) e calls). res_Decision r = DecisionAsk
      then \<exists>ds. tn_Answer tn it = ConfirmResult ds \<and> tc \<in> set (applyConfirmDecisions calls ds)
      else tc \<in> set calls))"

definition gated :: "Turn \<Rightarrow> ReActAgent \<Rightarrow> ReActAgent \<Rightarrow> bool" where
  "gated tn a a' \<longleftrightarrow>
     (case ra_Permission a of
        None \<Rightarrow> ra_Permission a' = None
      | Some e \<Rightarrow>
          (\<exists>e'. ra_Permission a' = Some e' \<and> approvedFrom e e') \<and>
          (\<exists>xs. ra_Executed a' = ra_Executed a @ xs \<and>
             (\<forall>(it, tc) \<in> set xs. \<exists>e'. approvedFrom e e' \<and> cleared tn e' it tc)))"

definition grows :: "Turn \<Rightarrow> nat \<Rightarrow> ReActAgent \<Rightarrow> ReActAgent \<Rightarrow> bool" where
  "grows tn k a a' \<longleftrightarrow>
     ra_Name a' = ra_Name a \<and> ra_MaxIterations a' = ra_MaxIterations a \<and> ra_Hooks a' = ra_Hooks a \<and>
     ra_ActiveTurns a' = ra_ActiveTurns a \<and> ra_TurnErr a' = ra_TurnErr a \<and>
     (ra_Runtime a' = None \<longleftrightarrow> ra_Runtime a = None) \<and>
     (\<exists>evs. ra_Events a' = ra_Events a @ evs \<and> list_all innerEvent evs) \<and>
     (\<exists>ps. ra_Prompts a' = ra_Prompts a @ ps \<and> length ps \<le> k) \<and> gated tn a a'"

lemma approvedFrom_refl [simp]: "approvedFrom e e"
  unfolding approvedFrom_def by (rule exI [of _ "[]"]) simp

lemma approvedFrom_trans: "approvedFrom e e1 \<Longrightarrow> approvedFrom e1 e2 \<Longrightarrow> approvedFrom e e2"
  unfolding approvedFrom_def by (metis fold_append comp_apply)

lemma gated_same: "ra_Permission a' = ra_Permission a \<Longrightarrow> ra_Executed a' = ra_Executed a \<Longrightarrow> gated tn a a'"
  by (auto simp: gated_def split: option.split)

lemma gated_trans:
  assumes "gated tn a b" and "gated tn b c"
  shows "gated tn a c"
proof (cases "ra_Permission a")
  case None
  then show ?thesis using assms by (auto simp: gated_def)
next
  case (Some e)
  then obtain e1 xs where b: "ra_Permission b = Some e1" "approvedFrom e e1" "ra_Executed b = ra_Executed a @ xs"
    "\<forall>(it, tc) \<in> set xs. \<exists>e'. approvedFrom e e' \<and> cleared tn e' it tc"
    using assms(1) by (auto simp: gated_def)
  then obtain e2 ys where c: "ra_Permission c = Some e2" "approvedFrom e1 e2" "ra_Executed c = ra_Executed b @ ys"
    "\<forall>(it, tc) \<in> set ys. \<exists>e'. approvedFrom e1 e' \<and> cleared tn e' it tc"
    using assms(2) by (auto simp: gated_def)
  have "ra_Executed c = ra_Executed a @ (xs @ ys)" using b(3) c(3) by simp
  moreover have "\<exists>e'. approvedFrom e e' \<and> cleared tn e' it tc" if "(it, tc) \<in> set ys" for it tc
    using c(4) that approvedFrom_trans [OF b(2)] by blast
  then have "\<forall>(it, tc) \<in> set (xs @ ys). \<exists>e'. approvedFrom e e' \<and> cleared tn e' it tc" using b(4) by auto
  ultimately show ?thesis using Some c(1) approvedFrom_trans [OF b(2) c(2)] by (auto simp: gated_def)
qed

lemma grows_refl [simp]: "grows tn k a a"
  by (simp add: grows_def gated_same)

lemma grows_trans:
  assumes "grows tn j a b" and "grows tn k b c"
  shows "grows tn (j + k) a c"
proof -
  obtain evs evs' where "ra_Events b = ra_Events a @ evs" "list_all innerEvent evs"
    "ra_Events c = ra_Events b @ evs'" "list_all innerEvent evs'" using assms by (auto simp: grows_def)
  then have "ra_Events c = ra_Events a @ (evs @ evs') \<and> list_all innerEvent (evs @ evs')" by simp
  moreover obtain ps ps' where "ra_Prompts b = ra_Prompts a @ ps" "length ps \<le> j" "ra_Prompts c = ra_Prompts b @ ps'" "length ps' \<le> k"
    using assms by (auto simp: grows_def)
  then have "ra_Prompts c = ra_Prompts a @ (ps @ ps') \<and> length (ps @ ps') \<le> j + k" by simp
  moreover have "gated tn a c" using assms gated_trans by (auto simp: grows_def)
  ultimately show ?thesis using assms unfolding grows_def by metis
qed

lemma grows_mono: "grows tn j a b \<Longrightarrow> j \<le> k \<Longrightarrow> grows tn k a b"
  unfolding grows_def by (meson order_trans)

lemma grows_trans0: "grows tn 0 a b \<Longrightarrow> grows tn k b c \<Longrightarrow> grows tn k a c"
  using grows_trans [of tn 0 a b k c] by simp

text \<open>The elementary updates.\<close>

lemma grows_send: "list_all innerEvent evs \<Longrightarrow> grows tn k a (sendEvents evs a)"
  by (auto simp: grows_def sendEvents_def gated_same)

lemma grows_runtime [simp]:
  "grows tn k a (onRuntime f a)" "grows tn k a (saveMessages ms a)" "grows tn k a (setSuspended x a)" "grows tn k a (shareMsg m a)"
  by (simp_all add: grows_def onRuntime_def gated_same saveMessages_def setSuspended_def shareMsg_def)

lemma grows_fields [simp]:
  "grows tn k a (a\<lparr>ra_Memory := mem\<rparr>)" "grows tn k a (a\<lparr>ra_SteerQueue := q\<rparr>)" "grows tn k a (addUsage u a)" "grows tn k a (remember m a)"
  by (simp_all add: grows_def gated_same addUsage_def remember_def)

section \<open>Model calls\<close>

lemma innerEvent_simps [simp]:
  "innerEvent (ErrorEvent e)" "innerEvent (ModelCallStart n)" "innerEvent (ModelCallEnd n i out c cc)"
  "innerEvent (TextBlockStart i)" "innerEvent (TextBlockDelta i d)" "innerEvent (TextBlockEnd i)"
  "innerEvent (ThinkingBlockStart i)" "innerEvent (ThinkingBlockDelta i d)" "innerEvent (ThinkingBlockEnd i)"
  "innerEvent (HintBlockStart i)" "innerEvent (HintBlockDelta i d)" "innerEvent (HintBlockEnd i)"
  "innerEvent (ToolCallStart i t n)" "innerEvent (ToolCallDelta i t d)" "innerEvent (ToolCallEnd i t)"
  "innerEvent (ToolResultStart i t n)" "innerEvent (ToolResultTextDelta i t d)" "innerEvent (ToolResultDataDelta i t d m)"
  "innerEvent (ToolResultEnd i t)" "innerEvent (RequireUserConfirm x ys)" "innerEvent (RequireExternalExecution x ys)"
  "innerEvent (ExceedMaxIters k)"
  by (simp_all add: innerEvent_def)

lemma onDelta_inner: "onDelta c a = (evs, a') \<Longrightarrow> list_all innerEvent evs"
  by (auto simp: onDelta_def split: if_splits)

lemma readChunks_inner: "list_all innerEvent (fst (readChunks mc k cs a))"
proof (induction mc k cs a rule: readChunks.induct)
  case (3 mc k c cs a)
  obtain ev1 a1 where d: "onDelta c a = (ev1, a1)" by fastforce
  then show ?case
    using 3 onDelta_inner [OF d]
    by (cases "readChunks mc (Suc k) cs a1") (auto simp: d split: Checkpoint.split option.split)
qed auto

lemma runModelStreamInner_inner: "list_all innerEvent (fst (runModelStreamInner mc uuid))"
proof -
  have "list_all innerEvent evs" if "readChunks mc 0 cs newAcc = (evs, r)" for cs evs r
    using readChunks_inner [of mc 0 cs newAcc] that by simp
  then show ?thesis
    by (auto simp: runModelStreamInner_def Let_def failedCall_def closeBlocks_def callEnd_def
        split: option.split ModelAnswer.split prod.split sum.split)
qed

lemma grows_model: "grows tn 1 a (snd (runModelStream tn it history a))"
proof -
  obtain evs r where r: "runModelStreamInner (tn_Model tn it history) (tn_UUID tn ''response'' it 0) = (evs, r)" by fastforce
  then have "list_all innerEvent evs" using runModelStreamInner_inner [of "tn_Model tn it history" "tn_UUID tn ''response'' it 0"] by simp
  then show ?thesis using r by (auto simp: runModelStream_def grows_def sendEvents_def gated_same)
qed

section \<open>Tools\<close>

lemma list_all_textDeltas [simp]: "list_all innerEvent (textDeltas k i bs)"
  by (simp add: textDeltas_def)

lemma list_all_dataDelta [simp]: "list_all innerEvent (dataDelta k i b)"
proof (cases b)
  case (DataBlock t s)
  then show ?thesis by (cases s) auto
qed auto

lemma list_all_concat: "(\<And>x. x \<in> set xs \<Longrightarrow> list_all P (f x)) \<Longrightarrow> list_all P (concat (map f xs))"
  by (induction xs) auto

lemma runTool_inner: "list_all innerEvent (fst (runTool a tn it history idx tc))"
  by (auto simp: runTool_def Let_def list.pred_map o_def list_all_concat split: sum.split option.split) (auto simp: list_all_iff)

lemma externalRun_inner: "list_all innerEvent (fst (externalRun a tn byID idx tc))"
  by (simp add: externalRun_def split: prod.split)

lemma weave_set: "set (weave js xss) \<subseteq> \<Union> (set ` set xss)"
proof (induction js xss rule: weave.induct)
  case (2 j js xss)
  show ?case
  proof (cases "j < length xss \<and> xss ! j \<noteq> []")
    case True
    have sub: "set (tl (xss ! j)) \<subseteq> set (xss ! j)" by (cases "xss ! j") auto
    have "\<Union> (set ` set (xss[j := tl (xss ! j)])) \<subseteq> \<Union> (set ` set xss)"
      using True sub by (fastforce simp: in_set_conv_nth nth_list_update split: if_splits)
    moreover have "hd (xss ! j) \<in> \<Union> (set ` set xss)" using True by (auto intro: bexI [of _ "xss ! j"])
    ultimately show ?thesis using 2(1) [OF True] True by auto
  next
    case False
    then show ?thesis using 2(2) by auto
  qed
qed auto

text \<open>Behind the gate: what is run are calls that were let through.\<close>

definition runs_only :: "nat \<Rightarrow> ToolUseBlock set \<Rightarrow> ReActAgent \<Rightarrow> ReActAgent \<Rightarrow> bool" where
  "runs_only it cs a a' \<longleftrightarrow> ra_Permission a' = ra_Permission a \<and>
     (\<exists>xs. ra_Executed a' = ra_Executed a @ map (Pair it) xs \<and> set xs \<subseteq> cs)"

lemma gated_runs_only:
  assumes "runs_only it cs a a'" and "\<And>e tc. ra_Permission a = Some e \<Longrightarrow> tc \<in> cs \<Longrightarrow> \<exists>e'. approvedFrom e e' \<and> cleared tn e' it tc"
  shows "gated tn a a'"
  using assms by (fastforce simp: runs_only_def gated_def split: option.split)

lemma runTools_grows:
  fixes ext
  assumes "runTools tn it history calls ext a = (r, a')"
  shows "(\<exists>evs. a' = (sendEvents evs a)\<lparr>ra_Executed := ra_Executed a'\<rparr> \<and> list_all innerEvent evs) \<and> runs_only it (set calls) a a'"
proof -
  define runs where "runs = map (\<lambda>(k, tc). case mget ext k of Some r \<Rightarrow> ([], r) | None \<Rightarrow> runTool a tn it history k tc) (indexed calls)"
  define evs where "evs = weave (tn_Schedule tn it) (map fst runs)"
  define xs where "xs = map fst (filter (\<lambda>(tc, r). tr_Ran r) (zip calls (map snd runs)))"
  have a': "a' = (sendEvents evs a)\<lparr>ra_Executed := ra_Executed a @ map (Pair it) xs\<rparr>"
    using assms unfolding runTools_def Let_def runs_def [symmetric] evs_def [symmetric]
    by (auto simp: xs_def sendEvents_def comp_def case_prod_unfold split: option.splits ToolHalt.splits)
  have "list_all innerEvent (fst run)" if "run \<in> set runs" for run
    using that runTool_inner by (auto simp: runs_def split: option.splits)
  then have "list_all innerEvent evs"
    using weave_set [of "tn_Schedule tn it" "map fst runs"] unfolding evs_def list_all_iff by fastforce
  moreover have "set xs \<subseteq> set calls" by (auto simp: xs_def dest: set_zip_leftD)
  ultimately show ?thesis using a' by (auto simp: runs_only_def sendEvents_def)
qed

text \<open>What a part of the tool stage may change.\<close>

definition tool_frame :: "ReActAgent \<Rightarrow> ReActAgent \<Rightarrow> bool" where
  "tool_frame a a' \<longleftrightarrow>
     ra_Name a' = ra_Name a \<and> ra_MaxIterations a' = ra_MaxIterations a \<and> ra_Hooks a' = ra_Hooks a \<and>
     ra_ActiveTurns a' = ra_ActiveTurns a \<and> ra_TurnErr a' = ra_TurnErr a \<and> ra_Prompts a' = ra_Prompts a \<and>
     (ra_Runtime a' = None \<longleftrightarrow> ra_Runtime a = None) \<and>
     (\<exists>evs. ra_Events a' = ra_Events a @ evs \<and> list_all innerEvent evs)"

lemma tool_frame_trans: "tool_frame a b \<Longrightarrow> tool_frame b c \<Longrightarrow> tool_frame a c"
  by (auto simp: tool_frame_def)

lemma tool_frame_simps [simp]:
  "tool_frame a a" "tool_frame a (setSuspended x a)" "list_all innerEvent evs \<Longrightarrow> tool_frame a (sendEvents evs a)"
  "tool_frame a (a\<lparr>ra_Permission := eng\<rparr>)"
  by (auto simp: tool_frame_def setSuspended_def onRuntime_def sendEvents_def)

lemma runs_only_trans: "runs_only it cs a b \<Longrightarrow> runs_only it cs b c \<Longrightarrow> runs_only it cs a c"
  unfolding runs_only_def by (metis (no_types, lifting) append.assoc map_append set_append Un_subset_iff)

lemma runs_only_simps [simp]:
  "runs_only it cs a a" "runs_only it cs a (setSuspended x a)" "runs_only it cs a (sendEvents evs a)"
  by (simp_all add: runs_only_def setSuspended_def onRuntime_def sendEvents_def)

lemma runTools_frame: "tool_frame a (snd (runTools tn it history calls ext a)) \<and> runs_only it (set calls) a (snd (runTools tn it history calls ext a))"
proof -
  obtain r a' where r: "runTools tn it history calls ext a = (r, a')" by fastforce
  obtain evs where e: "a' = (sendEvents evs a)\<lparr>ra_Executed := ra_Executed a'\<rparr>" "list_all innerEvent evs"
    "runs_only it (set calls) a a'" using runTools_grows [OF r] by blast
  have "tool_frame a ((sendEvents evs a)\<lparr>ra_Executed := xs\<rparr>)" for xs using e(2) by (simp add: tool_frame_def sendEvents_def)
  then show ?thesis using r e(1,3) by (metis snd_conv)
qed

lemma executeAllowed_frame:
  "tool_frame a (snd (executeAllowed tn it history calls a)) \<and> runs_only it (set calls) a (snd (executeAllowed tn it history calls a))"
proof -
  define ext where "ext = filter (\<lambda>tc. ra_External a (tc_Name tc)) calls"
  define a1 where "a1 = setSuspended (Some (''require_external_execution'', tn_UUID tn ''external'' it 0))
    (sendEvents [RequireExternalExecution (tn_UUID tn ''external'' it 0) (map summaryOf ext)] a)"
  let ?s = "sendEvents [RequireExternalExecution (tn_UUID tn ''external'' it 0) (map summaryOf ext)] a"
  have f1: "tool_frame a a1" "runs_only it (set calls) a a1"
    using tool_frame_trans [of a ?s a1] runs_only_trans [of it "set calls" a ?s a1] by (simp_all add: a1_def)
  have f2: "tool_frame a (setSuspended None a1)" "runs_only it (set calls) a (setSuspended None a1)"
    using tool_frame_trans [OF f1(1)] runs_only_trans [OF f1(2)] by simp_all
  show ?thesis
  proof (cases "ext = []")
    case True
    then show ?thesis using runTools_frame by (simp add: executeAllowed_def ext_def [symmetric])
  next
    case False
    show ?thesis
    proof (cases "tn_ExtAnswer tn it")
      case (ExtResults rs)
      define runs where "runs = map (\<lambda>tc. (idxOf (setSuspended None a1) calls tc, externalRun (setSuspended None a1) tn
        (fold (\<lambda>r m. mput (er_ToolCallID r) r m) rs []) (idxOf (setSuspended None a1) calls tc) tc)) ext"
      define a2 where "a2 = sendEvents (concat (map (fst \<circ> snd) runs)) (setSuspended None a1)"
      have "list_all innerEvent (concat (map (fst \<circ> snd) runs))"
        by (rule list_all_concat) (auto simp: runs_def externalRun_inner)
      then have f3: "tool_frame a a2" "runs_only it (set calls) a a2"
        unfolding a2_def using tool_frame_trans [OF f2(1)] runs_only_trans [OF f2(2)] by simp_all
      have "executeAllowed tn it history calls a = runTools tn it history calls (fold (\<lambda>(k, r). mput k (snd r)) runs []) a2"
        using False ExtResults
        unfolding executeAllowed_def Let_def ext_def [symmetric] a1_def [symmetric] by (simp add: a2_def runs_def o_def)
      then show ?thesis using tool_frame_trans [OF f3(1)] runs_only_trans [OF f3(2)] runTools_frame by simp
    next
      case ExtOther
      then show ?thesis using False f2 unfolding executeAllowed_def Let_def ext_def [symmetric] a1_def [symmetric] by simp
    next
      case ExtCancelled
      then show ?thesis using False f1 unfolding executeAllowed_def Let_def ext_def [symmetric] a1_def [symmetric] by simp
    qed
  qed
qed

lemma approvedFrom_registerApproval: "approvedFrom e (fold (registerApproval evals) ds e)"
proof (induction ds arbitrary: e)
  case (Cons d ds)
  have "registerApproval evals d e = e \<or> (\<exists>r. registerApproval evals d e = ApproveRuleClass r e)"
    by (auto simp: registerApproval_def split: option.split)
  then have "approvedFrom e (registerApproval evals d e)"
  proof
    assume "\<exists>r. registerApproval evals d e = ApproveRuleClass r e"
    then obtain r where "registerApproval evals d e = fold ApproveRuleClass [r] e" by auto
    then show ?thesis unfolding approvedFrom_def by blast
  qed simp
  then show ?case using Cons approvedFrom_trans by fastforce
qed simp

lemma executeToolsStream_grows: "grows tn 0 a (snd (executeToolsStream tn it history calls a))"
proof -
  obtain gate asking eng where g: "permissionGate (tn_Host tn) (ra_Permission a) calls (tn_Answer tn it) = (gate, asking, eng)"
    by (metis prod_cases3)
  define a1 where "a1 = (if asking = [] then a else setSuspended (Some (''require_user_confirm'', tn_UUID tn ''confirm'' it 0))
    (sendEvents [RequireUserConfirm (tn_UUID tn ''confirm'' it 0) asking] a))"
  have f1: "tool_frame a a1" unfolding a1_def using tool_frame_trans [of a "sendEvents [RequireUserConfirm (tn_UUID tn ''confirm'' it 0) asking] a"] by simp
  have same: "ra_Permission a1 = ra_Permission a" "ra_Executed a1 = ra_Executed a"
    by (simp_all add: a1_def setSuspended_def onRuntime_def sendEvents_def)
  define a2 where "a2 = (if asking = [] then a1 else setSuspended None a1)"
  have f2: "tool_frame a a2" "ra_Permission a2 = ra_Permission a" "ra_Executed a2 = ra_Executed a"
    using f1 tool_frame_trans [OF f1 tool_frame_simps(2), of None] same
    by (simp_all add: a2_def) (simp_all add: setSuspended_def onRuntime_def)
  have frame: "grows tn 0 a b" if "tool_frame a b" "gated tn a b" for b
    using that by (auto simp: grows_def tool_frame_def)
  show ?thesis
  proof (cases gate)
    case (GateProceed calls')
    define a3 where "a3 = a2\<lparr>ra_Permission := eng\<rparr>"
    have e: "executeToolsStream tn it history calls a = executeAllowed tn it history calls' a3"
      using g GateProceed unfolding executeToolsStream_def Let_def by (simp add: a1_def a2_def a3_def)
    have f3: "tool_frame a a3" unfolding a3_def by (rule tool_frame_trans [OF f2(1)]) simp
    have gated3: "gated tn a (snd (executeAllowed tn it history calls' a3))"
    proof (cases "ra_Permission a")
      case None
      then have "eng = None" using g by (simp add: permissionGate_def)
      then show ?thesis using None executeAllowed_frame [of a3 tn it history calls'] by (simp add: gated_def a3_def runs_only_def)
    next
      case (Some e0)
      note p = permissionGate_proceed [OF g [unfolded Some GateProceed]]
      have ok: "cleared tn e0 it tc" if "tc \<in> set calls'" for tc
        unfolding cleared_def using p that by (intro exI [of _ calls]) (auto split: if_splits)
      obtain e1 where e1: "eng = Some e1" "approvedFrom e0 e1"
        using p approvedFrom_registerApproval by (auto split: if_splits)
      obtain xs where "ra_Permission (snd (executeAllowed tn it history calls' a3)) = eng"
        "ra_Executed (snd (executeAllowed tn it history calls' a3)) = ra_Executed a @ map (Pair it) xs" "set xs \<subseteq> set calls'"
        using executeAllowed_frame [of a3 tn it history calls'] f2(3) by (auto simp: runs_only_def a3_def)
      moreover have "\<forall>(it', tc) \<in> set (map (Pair it) xs). \<exists>e'. approvedFrom e0 e' \<and> cleared tn e' it' tc"
        using ok \<open>set xs \<subseteq> set calls'\<close> by (auto intro!: exI [of _ e0])
      ultimately show ?thesis using Some e1 by (auto simp: gated_def)
    qed
    show ?thesis using e gated3 tool_frame_trans [OF f3] executeAllowed_frame [of a3 tn it history calls'] by (intro frame) auto
  next
    case GateAllRefused
    then have "snd (executeToolsStream tn it history calls a) = a2"
      using g by (simp add: executeToolsStream_def a1_def a2_def Let_def)
    then show ?thesis using frame f2 gated_same by metis
  qed (use g frame f1 same gated_same in \<open>auto simp: executeToolsStream_def a1_def [symmetric] Let_def\<close>)
qed

section \<open>Stages\<close>

lemma grows_stageThen:
  assumes "grows tn j a (snd st)" and "\<And>v b. st = (Inr v, b) \<Longrightarrow> grows tn k b (snd (f v b))"
  shows "grows tn (j + k) a (snd (stageThen st f))"
proof -
  obtain r b where st: "st = (r, b)" by fastforce
  then show ?thesis
  proof (cases r)
    case (Inl e)
    then show ?thesis using assms(1) st grows_mono by (simp add: stageThen_def)
  next
    case (Inr v)
    then show ?thesis using assms st grows_trans by (simp add: stageThen_def)
  qed
qed

lemma grows_handleInterrupt: "grows tn 0 a (snd (handleInterrupt tn it history a))"
  by (simp add: handleInterrupt_def Let_def)

lemma grows_loopGuard: "grows tn 0 a (snd (loopGuard tn it k a))"
  by (simp add: loopGuard_def grows_handleInterrupt)

lemma snd_guarded [simp]: "snd (guarded g v) = snd g"
  by (simp add: guarded_def split: prod.split sum.split option.split)

lemma snd_returned [simp]: "snd (returned g) = snd g"
  by (simp add: returned_def split: prod.split sum.split)

lemma grows_steer: "grows tn k a (fold (\<lambda>t a. snd (Steer t a)) ts a)"
proof (induction ts arbitrary: a)
  case (Cons t ts)
  have "grows tn 0 a (snd (Steer t a))" by (simp add: Steer_def)
  then show ?case using Cons grows_trans0 by fastforce
qed simp

lemma grows_enter: "grows tn 0 a (snd (enterIteration tn it history a))"
proof (cases "tn_CtxDone tn it")
  case False
  let ?a = "(fold (\<lambda>t a. snd (Steer t a)) (tn_Steered tn it) a)\<lparr>ra_SteerQueue := []\<rparr>"
  have 1: "grows tn 0 a ?a" using grows_trans0 [OF grows_steer [of tn 0 a "tn_Steered tn it"] grows_fields(2)] by simp
  have "grows tn (0 + 0) ?a (snd (stageThen (guarded (loopGuard tn it 0 ?a) v)
     (\<lambda>history a. (Inr history, saveMessages history (onRuntime (\<lambda>s. s\<lparr>as_CurIter := it\<rparr>) a)))))" for v
    by (rule grows_stageThen) (use grows_loopGuard grows_trans0 [OF grows_runtime(1) grows_runtime(2)] in auto)
  then show ?thesis using False grows_trans0 [OF 1] by (simp add: enterIteration_def drainSteer_def Let_def)
qed (simp add: enterIteration_def)

lemma grows_before: "grows tn 0 a (snd (beforeModelPhase it history a))"
  by (auto simp: beforeModelPhase_def split: sum.split prod.split option.split)

lemma grows_compress: "grows tn 0 a (snd (compressAndSync tn it input history a))"
proof (cases "tn_Compress tn it (case ra_Runtime a of None \<Rightarrow> [] | Some s \<Rightarrow> as_CompressedSummary s) (ra_Memory a)")
  case (Inl e)
  then show ?thesis by (simp add: compressAndSync_def Let_def grows_send)
next
  case (Inr p)
  obtain s m where "p = (s, m)" by fastforce
  then show ?thesis using Inr grows_trans0 [OF grows_fields(1) grows_runtime(1)]
    by (simp add: compressAndSync_def Let_def)
qed

lemma grows_modelStage: "grows tn 1 a (snd (modelStage tn it history a))"
proof -
  obtain r b where r: "runModelStream tn it history a = (r, b)" by fastforce
  have b: "grows tn 1 a b" using grows_model [of tn a it history] r by simp
  have m: "grows tn 1 a c" if "grows tn 0 b c" for c using grows_trans [OF b that] by simp
  show ?thesis
  proof (cases r)
    case (Inl e)
    then show ?thesis using r b m [OF grows_handleInterrupt] m [OF grows_send, of "[ErrorEvent e]"] by (simp add: modelStage_def)
  next
    case (Inr response)
    then show ?thesis
      using r m [OF grows_fields(3)] m [OF grows_trans0 [OF grows_fields(3) grows_handleInterrupt]]
      by (simp add: modelStage_def Let_def)
  qed
qed

lemma grows_after: "grows tn 0 a (snd (afterModelPhase it history response a))"
  by (auto simp: afterModelPhase_def split: sum.split prod.split option.split)

lemma grows_final: "grows tn 0 a (snd (finalStage it history response u a))"
  using grows_trans0 [OF grows_runtime(2) grows_runtime(4)]
  by (auto simp: finalStage_def Let_def split: sum.split prod.split)

lemma grows_tools: "grows tn 0 a (snd (toolStage tn it history response a))"
proof -
  have "grows tn (0 + 0) a (snd (toolStage tn it history response a))"
    unfolding toolStage_def
  proof (rule grows_stageThen)
    fix v b
    show "grows tn 0 b (snd (case executeToolsStream tn it history (GetToolUseCalls response) b of
          (ToolsErr e, a) \<Rightarrow> (Inl (Inl e), a)
        | (ToolsStopped m, a) \<Rightarrow> (Inl (Inr (LoopReturns m)), a)
        | (ToolsDone m sigs, a) \<Rightarrow> (Inr (history @ [m], sigs), a)))"
      using executeToolsStream_grows [of tn b it history "GetToolUseCalls response"] by (auto split: prod.split ToolsOut.split)
  qed (simp add: grows_loopGuard)
  then show ?thesis by simp
qed

lemma grows_breaker: "grows tn 0 a (snd (breakerStage tn it history sigs b a))"
  by (auto simp: breakerStage_def Let_def grows_send split: prod.split)

lemma grows_stageThen0:
  assumes "grows tn 0 a (snd st)" and "\<And>v b. grows tn k b (snd (f v b))"
  shows "grows tn k a (snd (stageThen st f))"
  using grows_stageThen [OF assms(1), where k = k and f = f] assms(2) by simp

lemma grows_actOn: "grows tn 0 a (snd (actOn tn it b used history response a))"
  unfolding actOn_def
  by (rule grows_stageThen0 [OF grows_final], clarify, rule grows_stageThen0 [OF grows_tools], clarify,
      rule grows_stageThen0 [OF grows_breaker]) auto

lemma grows_respond: "grows tn 0 a (snd (respond tn it b used history response a))"
  unfolding respond_def Let_def
  by (rule grows_stageThen0 [OF grows_after]) (auto simp: grows_actOn split: AfterModel.split)

lemma grows_iteration: "grows tn 1 a (snd (iteration tn it input vars a))"
proof -
  obtain history b used where v: "vars = (history, b, used)" by (metis prod_cases3)
  have "grows tn (1 + 0) c (snd (stageThen (modelStage tn it h c) (\<lambda>response a. respond tn it b used h response a)))" for h c
    by (rule grows_stageThen [OF grows_modelStage grows_respond])
  then have model: "grows tn 1 c (snd (stageThen (modelStage tn it h c) (\<lambda>response a. respond tn it b used h response a)))" for h c by simp
  show ?thesis
    unfolding iteration_def v prod.case
    by (rule grows_stageThen0 [OF grows_enter], rule grows_stageThen0 [OF grows_before], rule grows_stageThen0 [OF grows_compress])
       (rule model)
qed

lemma grows_loop: "grows tn n a (snd (reactLoop n tn it input vars a))"
proof (induction n arbitrary: it vars a)
  case (Suc n)
  obtain r b where r: "iteration tn it input vars a = (r, b)" by fastforce
  have b: "grows tn 1 a b" using grows_iteration [of tn a it input vars] r by simp
  have "grows tn (Suc n) a b" by (rule grows_mono [OF b]) simp
  moreover have "grows tn (Suc n) a (snd (reactLoop n tn (Suc it) input vars' b))" for vars'
    using grows_trans [OF b Suc] by simp
  ultimately show ?case using r by (auto split: sum.split)
qed simp

section \<open>The turn\<close>

lemma grows_internal: "grows tn (ra_MaxIterations a) a (snd (replyStreamInternal tn msg a))"
proof -
  have run: "grows tn (ra_MaxIterations a) a b" if "reactLoop (ra_MaxIterations a) tn 0 input vars a = (r, b)" for input vars r b
    using grows_loop [of tn "ra_MaxIterations a" a 0 input vars] that by simp
  have mem: "grows tn k a (remember m (remember msg b))" if "grows tn k a b" for k m b
    using grows_trans [OF that grows_trans0 [OF grows_fields(4) grows_fields(4)], of 0] by simp
  have send: "grows tn k a (sendEvents [ExceedMaxIters n] b)" if "grows tn k a b" for k n b
    using grows_trans [OF that grows_send, of "[ExceedMaxIters n]" 0] by simp
  show ?thesis
    using run mem send
    by (auto simp: replyStreamInternal_def Let_def grows_send split: sum.split prod.split option.split LoopEnd.split)
qed

lemma FireOnError_hooks: "ra_Hooks b = ra_Hooks a \<Longrightarrow> onError msg b e = onError msg a e"
  by (simp add: onError_def)

lemma grows_Base_Call:
  assumes "\<And>m. grows tn k a (snd (reply m a))"
  shows "grows tn k a (snd (Base_Call msg reply a))"
proof -
  have "grows tn k a (snd (callWithHooks msg reply a))"
    using assms by (auto simp: callWithHooks_def Let_def split: sum.split prod.split option.split)
  then show ?thesis by (auto simp: Base_Call_def split: sum.split prod.split)
qed

lemma grows_freshTurn: "grows tn (ra_MaxIterations a) a (snd (freshTurn tn msg a))"
proof -
  obtain r b where r: "Base_Call msg (replyStreamInternal tn) a = (r, b)" by fastforce
  have b: "grows tn (ra_MaxIterations a) a b"
    using grows_Base_Call [where reply = "replyStreamInternal tn" and k = "ra_MaxIterations a", OF grows_internal, of msg] r
    by simp
  have "grows tn (ra_MaxIterations a) a (recordFinal m b)" for m
    using grows_trans [OF b grows_runtime(1), of 0] unfolding recordFinal_def by simp
  then show ?thesis using r b by (auto simp: freshTurn_def split: sum.split option.split)
qed

definition notSuspended :: "ReActAgent \<Rightarrow> bool" where
  "notSuspended a \<longleftrightarrow> (case ra_Runtime a of None \<Rightarrow> True | Some rt \<Rightarrow> as_Suspended rt = None)"

text \<open>A turn that is no resumption.\<close>

lemma replyStreamLoop_fresh:
  assumes "notSuspended a"
  obtains err b where "freshTurn tn msg (sendEvents [ReplyStart (ra_Name a)] ((startTurn tn a)\<lparr>ra_TurnErr := None\<rparr>)) = (err, b)"
    and "grows tn (ra_MaxIterations a) (sendEvents [ReplyStart (ra_Name a)] ((startTurn tn a)\<lparr>ra_TurnErr := None\<rparr>)) b"
    and "replyStreamLoop tn msg a =
      (case err of
         None \<Rightarrow> (sendEvents [ReplyEnd (ra_Name a)] b)\<lparr>ra_ActiveTurns := ra_ActiveTurns a - 1\<rparr>
       | Some e \<Rightarrow> (sendEvents ((if errIs e ErrCanceled then [] else [ErrorEvent e]) @ [ReplyEnd (ra_Name a)])
           (b\<lparr>ra_TurnErr := Some e\<rparr>))\<lparr>ra_ActiveTurns := ra_ActiveTurns a - 1\<rparr>)"
proof -
  let ?a = "sendEvents [ReplyStart (ra_Name a)] ((startTurn tn a)\<lparr>ra_TurnErr := None\<rparr>)"
  obtain err b where f: "freshTurn tn msg ?a = (err, b)" by fastforce
  have g: "grows tn (ra_MaxIterations a) ?a b"
    using grows_freshTurn [of tn ?a msg] f by (simp add: sendEvents_def startTurn_def)
  have n: "ra_Name b = ra_Name a" "ra_ActiveTurns b = ra_ActiveTurns a"
    using g by (simp_all add: grows_def sendEvents_def startTurn_def)
  have fresh: "\<not> (case ra_Runtime a of None \<Rightarrow> False | Some rt \<Rightarrow> as_Suspended rt \<noteq> None)"
    using assms by (auto simp: notSuspended_def split: option.splits)
  have nm: "ra_Name (startTurn tn a) = ra_Name a" by (simp add: startTurn_def)
  show thesis
  proof (rule that [OF f g])
    show "replyStreamLoop tn msg a =
      (case err of
         None \<Rightarrow> (sendEvents [ReplyEnd (ra_Name a)] b)\<lparr>ra_ActiveTurns := ra_ActiveTurns a - 1\<rparr>
       | Some e \<Rightarrow> (sendEvents ((if errIs e ErrCanceled then [] else [ErrorEvent e]) @ [ReplyEnd (ra_Name a)])
           (b\<lparr>ra_TurnErr := Some e\<rparr>))\<lparr>ra_ActiveTurns := ra_ActiveTurns a - 1\<rparr>)"
      using fresh f nm n by (auto simp: replyStreamLoop_def Let_def sendEvents_def split: option.split)
  qed
qed

end
