(* ===== verification/React_History.thy ===== *)
theory React_History
  imports React_Laws "HOL-Library.Sublist"
begin

text \<open>
  The histories given to the model in a turn without hooks: every assistant message with tool
  calls is directly followed by the tool message that answers them.
\<close>

section \<open>Answered tool calls\<close>

definition callIds :: "Msg \<Rightarrow> string list" where
  "callIds m = (if mg_Role m = RoleAssistant then map tc_ID (GetToolUseCalls m) else [])"

fun resultId :: "ContentBlock \<Rightarrow> string option" where
  "resultId (ToolResult i _ _ _) = Some i"
| "resultId _ = None"

definition resultIds :: "Msg \<Rightarrow> string list" where
  "resultIds m = List.map_filter resultId (mg_Content m)"

text \<open>\<open>strict\<close>: each call has its result; otherwise the results are those of some of the calls, in their order.\<close>

definition answers :: "bool \<Rightarrow> Msg \<Rightarrow> Msg \<Rightarrow> bool" where
  "answers strict r m \<longleftrightarrow> mg_Role r = RoleTool \<and> subseq (resultIds r) (callIds m) \<and> (strict \<longrightarrow> resultIds r = callIds m)"

fun answered :: "bool \<Rightarrow> Msg list \<Rightarrow> bool" where
  "answered strict [] = True"
| "answered strict (m # ms) =
     ((callIds m \<noteq> [] \<longrightarrow> (case ms of [] \<Rightarrow> False | r # _ \<Rightarrow> answers strict r m)) \<and> answered strict ms)"

lemma answered_append: "answered strict xs \<Longrightarrow> answered strict ys \<Longrightarrow> answered strict (xs @ ys)"
proof (induction xs)
  case (Cons x xs)
  then show ?case by (cases xs) auto
qed simp

lemma answered_plain: "(\<And>m. m \<in> set ms \<Longrightarrow> callIds m = []) \<Longrightarrow> answered strict ms"
  by (induction ms) auto

section \<open>The results of the calls\<close>

lemma runTool_ids: "tr_Halt (snd (runTool a tn it history k tc)) = None \<Longrightarrow>
    List.map_filter resultId (tr_Content (snd (runTool a tn it history k tc))) = [tc_ID tc]"
  by (auto simp: runTool_def haltedRun_def Let_def map_filter_simps split: sum.splits option.splits if_splits)

lemma externalRun_ids: "List.map_filter resultId (tr_Content (snd (externalRun a tn byID k tc))) = [tc_ID tc]"
  by (simp add: externalRun_def map_filter_simps split: prod.split)

lemma map_filter_concat: "List.map_filter f (concat xss) = concat (map (List.map_filter f) xss)"
  by (induction xss) (simp_all add: map_filter_def)

lemma firstHalt_None: "firstHalt rs = None \<longleftrightarrow> (\<forall>r \<in> set rs. tr_Halt r = None)"
  by (induction rs) (auto simp: firstHalt_def)

text \<open>A result taken from the external calls belongs to the call at its index.\<close>

definition ext_ok :: "ToolUseBlock list \<Rightarrow> (nat, ToolRun) gomap \<Rightarrow> bool" where
  "ext_ok calls ext \<longleftrightarrow> (\<forall>k r. mget ext k = Some r \<longrightarrow> k < length calls \<longrightarrow>
     List.map_filter resultId (tr_Content r) = [tc_ID (calls ! k)])"

lemma runTools_ids:
  assumes "runTools tn it history calls ext a = (ToolsDone m sigs, a')" and "ext_ok calls ext"
  shows "mg_Role m = RoleTool \<and> resultIds m = map tc_ID calls"
proof -
  define run where "run = (\<lambda>(k, tc). case mget ext k of Some r \<Rightarrow> ([], r) | None \<Rightarrow> runTool a tn it history k tc)"
  have m: "m = newMsg (tn_UUID tn ''tools'' it 0) RoleTool (concat (map (tr_Content \<circ> snd) (map run (indexed calls))))"
    and halt: "firstHalt (map snd (map run (indexed calls))) = None"
    using assms(1) by (auto simp: runTools_def Let_def run_def [symmetric] split: option.splits ToolHalt.splits)
  have one: "List.map_filter resultId (tr_Content (snd (run (k, tc)))) = [tc_ID tc]" if "(k, tc) \<in> set (indexed calls)" for k tc
  proof -
    have k: "k < length calls" "calls ! k = tc" using that by (auto simp: indexed_def set_zip)
    have "tr_Halt (snd (run (k, tc))) = None" using halt that by (auto simp: firstHalt_None)
    then show ?thesis using runTool_ids assms(2) k by (auto simp: run_def ext_ok_def split: option.splits)
  qed
  have "map (\<lambda>p. List.map_filter resultId (tr_Content (snd (run p)))) (indexed calls) = map (\<lambda>p. [tc_ID (snd p)]) (indexed calls)"
    using one by auto
  then have "concat (map (\<lambda>p. List.map_filter resultId (tr_Content (snd (run p)))) (indexed calls)) =
      concat (map (\<lambda>p. [tc_ID (snd p)]) (indexed calls))" by (rule arg_cong)
  moreover have "concat (map (\<lambda>p. [f p]) xs) = map f xs" for f :: "nat \<times> ToolUseBlock \<Rightarrow> string" and xs
    by (induction xs) auto
  moreover have "map (\<lambda>p. tc_ID (snd p)) (indexed calls) = map tc_ID calls"
    by (simp add: indexed_def flip: map_map [unfolded comp_def])
  ultimately show ?thesis by (simp add: m resultIds_def newMsg_def map_filter_concat comp_def)
qed

definition putExternal :: "ReActAgent \<Rightarrow> nat \<times> ToolUseBlock \<Rightarrow> (string, nat) gomap \<Rightarrow> (string, nat) gomap" where
  "putExternal a p m = (if ra_External a (tc_Name (snd p)) then mput (tc_ID (snd p)) (fst p) m else m)"

lemma externalIdx_fold: "externalIdx a calls = fold (putExternal a) (indexed calls) []"
proof -
  have "putExternal a = (\<lambda>(k, tc) m. if ra_External a (tc_Name tc) then mput (tc_ID tc) k m else m)"
    by (simp add: fun_eq_iff putExternal_def)
  then show ?thesis by (simp add: externalIdx_def)
qed

lemma mget_putExternal: "mget (putExternal a p m) i =
    (if ra_External a (tc_Name (snd p)) \<and> i = tc_ID (snd p) then Some (fst p) else mget m i)"
  by (simp add: putExternal_def gomap_simps)

lemma putExternal_fold:
  "mget (fold (putExternal a) ps m) i = Some k \<Longrightarrow> mget m i = Some k \<or> (\<exists>p \<in> set ps. i = tc_ID (snd p) \<and> k = fst p)"
proof (induction ps arbitrary: m)
  case (Cons p ps)
  then show ?case using Cons(1) [of "putExternal a p m"] by (auto simp: mget_putExternal split: if_splits)
qed simp

lemma putExternal_some:
  "mget m i \<noteq> None \<or> (\<exists>p \<in> set ps. ra_External a (tc_Name (snd p)) \<and> i = tc_ID (snd p)) \<Longrightarrow>
   mget (fold (putExternal a) ps m) i \<noteq> None"
proof (induction ps arbitrary: m)
  case (Cons p ps)
  then have "mget (putExternal a p m) i \<noteq> None \<or> (\<exists>p \<in> set ps. ra_External a (tc_Name (snd p)) \<and> i = tc_ID (snd p))"
    by (auto simp: mget_putExternal)
  from Cons(1) [OF this] show ?case by simp
qed simp

lemma in_indexed: "p \<in> set (indexed calls) \<longleftrightarrow> fst p < length calls \<and> calls ! fst p = snd p"
  by (cases p) (auto simp: indexed_def set_zip intro!: exI [of _ "fst p"])

lemma externalIdx_ids:
  assumes "mget (externalIdx a calls) i = Some k"
  shows "k < length calls \<and> tc_ID (calls ! k) = i"
  using putExternal_fold [OF assms [unfolded externalIdx_fold]] by (auto simp: in_indexed)

lemma externalIdx_some:
  assumes "tc \<in> set calls" and "ra_External a (tc_Name tc)"
  shows "mget (externalIdx a calls) (tc_ID tc) \<noteq> None"
proof -
  obtain k where "k < length calls" "calls ! k = tc" using assms(1) by (auto simp: in_set_conv_nth)
  then have "(k, tc) \<in> set (indexed calls)" by (simp add: in_indexed)
  then have "\<exists>p \<in> set (indexed calls). ra_External a (tc_Name (snd p)) \<and> tc_ID tc = tc_ID (snd p)"
    using assms(2) by force
  then show ?thesis unfolding externalIdx_fold by (intro putExternal_some disjI2)
qed

lemma ext_ok_fold:
  assumes "\<And>k x. (k, x) \<in> set rs \<Longrightarrow> k < length calls \<Longrightarrow> List.map_filter resultId (tr_Content (snd x)) = [tc_ID (calls ! k)]"
    and "ext_ok calls m"
  shows "ext_ok calls (fold (\<lambda>(k, r). mput k (snd r)) rs m)"
  using assms
proof (induction rs arbitrary: m)
  case (Cons p rs)
  obtain k x where p: "p = (k, x)" by (cases p)
  have "ext_ok calls (mput k (snd x) m)"
    using Cons(3) Cons(2) [of k x] p by (auto simp: ext_ok_def gomap_simps split: if_splits)
  then show ?case using Cons(1) Cons(2) p by simp
qed simp

lemma executeAllowed_ids:
  assumes "executeAllowed tn it history calls a = (ToolsDone m sigs, a')"
  shows "mg_Role m = RoleTool \<and> resultIds m = map tc_ID calls"
proof (cases "filter (\<lambda>tc. ra_External a (tc_Name tc)) calls = []")
  case True
  then show ?thesis using assms runTools_ids [of tn it history calls "[]" a m sigs a'] by (simp add: executeAllowed_def ext_ok_def)
next
  case False
  obtain rs b and f :: "ToolUseBlock \<Rightarrow> AgentEvent list \<times> ToolRun" where b: "runTools tn it history calls
      (fold (\<lambda>(k, r). mput k (snd r)) (map (\<lambda>tc. (idxOf b calls tc, f tc)) (filter (\<lambda>tc. ra_External a (tc_Name tc)) calls)) []) rs
      = (ToolsDone m sigs, a')" "ra_External b = ra_External a"
    "\<And>tc. List.map_filter resultId (tr_Content (snd (f tc))) = [tc_ID tc]"
  proof -
    obtain rs where rs: "tn_ExtAnswer tn it = ExtResults rs"
      using assms False by (auto simp: executeAllowed_def Let_def split: ExtAnswer.splits)
    define c where "c = setSuspended None (setSuspended (Some (''require_external_execution'', tn_UUID tn ''external'' it 0))
      (sendEvents [RequireExternalExecution (tn_UUID tn ''external'' it 0) (map summaryOf (filter (\<lambda>tc. ra_External a (tc_Name tc)) calls))] a))"
    have ext: "ra_External c = ra_External a" by (simp add: c_def setSuspended_def onRuntime_def sendEvents_def)
    have "executeAllowed tn it history calls a =
      runTools tn it history calls
      (fold (\<lambda>(k, r). mput k (snd r)) (map (\<lambda>tc. (idxOf c calls tc, externalRun c tn (fold (\<lambda>r m. mput (er_ToolCallID r) r m) rs [])
         (idxOf c calls tc) tc)) (filter (\<lambda>tc. ra_External a (tc_Name tc)) calls)) [])
      (sendEvents (concat (map (fst \<circ> snd) (map (\<lambda>tc. (idxOf c calls tc, externalRun c tn (fold (\<lambda>r m. mput (er_ToolCallID r) r m) rs [])
         (idxOf c calls tc) tc)) (filter (\<lambda>tc. ra_External a (tc_Name tc)) calls)))) c)"
      using False rs by (simp add: executeAllowed_def Let_def c_def)
    from trans [OF this [symmetric] assms] show thesis by (rule that) (rule ext externalRun_ids)+
  qed
  have "ext_ok calls (fold (\<lambda>(k, r). mput k (snd r)) (map (\<lambda>tc. (idxOf b calls tc, f tc)) (filter (\<lambda>tc. ra_External a (tc_Name tc)) calls)) [])"
  proof (rule ext_ok_fold)
    fix k x
    assume "(k, x) \<in> set (map (\<lambda>tc. (idxOf b calls tc, f tc)) (filter (\<lambda>tc. ra_External a (tc_Name tc)) calls))"
    then obtain tc where tc: "k = idxOf b calls tc" "x = f tc" "tc \<in> set calls" "ra_External b (tc_Name tc)"
      unfolding b(2) set_map set_filter by blast
    obtain j where j: "mget (externalIdx b calls) (tc_ID tc) = Some j" using externalIdx_some [OF tc(3,4)] by blast
    have "tc_ID (calls ! k) = tc_ID tc" using externalIdx_ids [OF j] tc(1) by (simp add: idxOf_def j)
    then show "List.map_filter resultId (tr_Content (snd x)) = [tc_ID (calls ! k)]" by (simp add: tc(2) b(3))
  qed (simp add: ext_ok_def)
  then show ?thesis using runTools_ids [OF b(1)] by blast
qed

lemma applyConfirmDecisions_ids: "subseq (map tc_ID (applyConfirmDecisions calls ds)) (map tc_ID calls)"
proof (induction calls)
  case (Cons c calls)
  then show ?case
    using applyDecision_id
    by (auto simp: applyConfirmDecisions_def map_filter_simps bind_eq_Some_conv split: option.split)
qed (simp add: applyConfirmDecisions_def map_filter_simps)

lemma executeToolsStream_ids:
  assumes "executeToolsStream tn it history calls a = (ToolsDone m sigs, a')"
  shows "mg_Role m = RoleTool \<and> subseq (resultIds m) (map tc_ID calls) \<and> (ra_Permission a = None \<longrightarrow> resultIds m = map tc_ID calls)"
proof -
  obtain gate asking eng where g: "permissionGate (tn_Host tn) (ra_Permission a) calls (tn_Answer tn it) = (gate, asking, eng)"
    by (metis prod_cases3)
  show ?thesis
  proof (cases gate)
    case (GateProceed calls')
    then obtain b where b: "executeAllowed tn it history calls' b = (ToolsDone m sigs, a')"
      using assms unfolding executeToolsStream_def g GateProceed prod.case Let_def GateResult.case by blast
    note ids = executeAllowed_ids [OF b]
    show ?thesis
    proof (cases "ra_Permission a")
      case None
      then have "calls' = calls" using g GateProceed by (simp add: permissionGate_def)
      then show ?thesis using ids by simp
    next
      case (Some e)
      then show ?thesis
        using ids permissionGate_proceed [OF g [unfolded Some GateProceed]] applyConfirmDecisions_ids by (auto split: if_splits)
    qed
  next
    case GateAllRefused
    then have "ra_Permission a \<noteq> None" using g by (cases "ra_Permission a") (simp_all add: permissionGate_def)
    obtain b u where m: "m = withCurrentUsage b (newMsg u RoleTool [TextBlock ''All tool calls were denied by user.''])"
      using assms unfolding executeToolsStream_def g GateAllRefused prod.case Let_def GateResult.case by blast
    have "mg_Role m = RoleTool \<and> resultIds m = []"
      unfolding m by (simp add: withCurrentUsage_def newMsg_def resultIds_def map_filter_simps)
    then show ?thesis using \<open>ra_Permission a \<noteq> None\<close> by auto
  qed (use assms in \<open>simp_all add: executeToolsStream_def Let_def g\<close>)
qed

section \<open>Stages keep the history answered\<close>

definition prompts_ok :: "bool \<Rightarrow> Msg list list \<Rightarrow> ReActAgent \<Rightarrow> bool" where
  "prompts_ok strict p0 a \<longleftrightarrow> (\<exists>ps. ra_Prompts a = p0 @ ps \<and> (\<forall>p \<in> set ps. answered strict p))"

definition plainMsg :: "Msg \<Rightarrow> Msg \<Rightarrow> bool" where
  "plainMsg msg m \<longleftrightarrow> callIds m = [] \<and> mg_ID m \<noteq> mg_ID msg"

definition steady :: "bool \<Rightarrow> Msg \<Rightarrow> Msg list list \<Rightarrow> ReActAgent \<Rightarrow> bool" where
  "steady strict msg p0 a \<longleftrightarrow> prompts_ok strict p0 a \<and> ra_Hooks a = [] \<and>
     (\<forall>m \<in> set (ra_Memory a). plainMsg msg m) \<and> (strict \<longrightarrow> ra_Permission a = None)"

definition answered_after :: "bool \<Rightarrow> Msg \<Rightarrow> Msg list \<Rightarrow> bool" where
  "answered_after strict msg history \<longleftrightarrow>
     (\<exists>pre suf. history = pre @ msg # suf \<and> (\<forall>m \<in> set pre. plainMsg msg m) \<and> answered strict suf)"

text \<open>A turn whose surroundings keep the memory's messages and give out fresh identifiers.\<close>

definition plain_turn :: "Turn \<Rightarrow> Msg \<Rightarrow> bool" where
  "plain_turn tn msg \<longleftrightarrow> callIds msg = [] \<and> (\<forall>s n k. tn_UUID tn s n k \<noteq> mg_ID msg) \<and>
     (\<forall>it s mem s' mem'. tn_Compress tn it s mem = Inr (s', mem') \<longrightarrow> set mem' \<subseteq> set mem)"

definition ends :: "(ReActAgent \<Rightarrow> bool) \<Rightarrow> 'v stage \<Rightarrow> ('v \<Rightarrow> ReActAgent \<Rightarrow> bool) \<Rightarrow> bool" where
  "ends I st Q \<longleftrightarrow> (case st of (Inl _, a) \<Rightarrow> I a | (Inr v, a) \<Rightarrow> Q v a)"

lemma ends_simps [simp]: "ends I (Inl e, a) Q = I a" "ends I (Inr v, a) Q = Q v a"
  by (simp_all add: ends_def)

lemma ends_stageThen:
  assumes "ends I st Q" and "\<And>v a. Q v a \<Longrightarrow> ends I (f v a) Q'"
  shows "ends I (stageThen st f) Q'"
proof -
  obtain r a where st: "st = (r, a)" by fastforce
  show ?thesis using assms by (cases r) (simp_all add: st stageThen_def)
qed

lemma steady_prompts: "steady strict msg p0 a \<Longrightarrow> prompts_ok strict p0 a"
  by (simp add: steady_def)

lemma steady_same:
  assumes "steady strict msg p0 a" and "ra_Prompts b = ra_Prompts a" "ra_Hooks b = ra_Hooks a" "ra_Memory b = ra_Memory a"
    "ra_Permission a = None \<longrightarrow> ra_Permission b = None"
  shows "steady strict msg p0 b"
  using assms by (simp add: steady_def prompts_ok_def)

lemma steady_updates [simp]:
  "steady strict msg p0 (sendEvents evs a) = steady strict msg p0 a"
  "steady strict msg p0 (onRuntime f a) = steady strict msg p0 a"
  "steady strict msg p0 (saveMessages ms a) = steady strict msg p0 a"
  "steady strict msg p0 (shareMsg m a) = steady strict msg p0 a"
  "steady strict msg p0 (addUsage u a) = steady strict msg p0 a"
  "steady strict msg p0 (a\<lparr>ra_SteerQueue := q\<rparr>) = steady strict msg p0 a"
  by (simp_all add: steady_def prompts_ok_def sendEvents_def onRuntime_def saveMessages_def shareMsg_def addUsage_def)

lemma prompts_updates [simp]:
  "prompts_ok strict p0 (sendEvents evs a) = prompts_ok strict p0 a"
  "prompts_ok strict p0 (remember m a) = prompts_ok strict p0 a"
  "prompts_ok strict p0 (saveMessages ms a) = prompts_ok strict p0 a"
  "prompts_ok strict p0 (onRuntime f a) = prompts_ok strict p0 a"
  "prompts_ok strict p0 (shareMsg m a) = prompts_ok strict p0 a"
  "prompts_ok strict p0 (addUsage u a) = prompts_ok strict p0 a"
  by (simp_all add: prompts_ok_def sendEvents_def remember_def saveMessages_def onRuntime_def shareMsg_def addUsage_def)

lemma prompts_handleInterrupt [simp]: "prompts_ok strict p0 (snd (handleInterrupt tn it history a)) = prompts_ok strict p0 a"
  by (simp add: handleInterrupt_def Let_def prompts_ok_def remember_def)

lemma answered_after_answered: "answered_after strict msg history \<Longrightarrow> callIds msg = [] \<Longrightarrow> answered strict history"
proof -
  assume h: "answered_after strict msg history" and m: "callIds msg = []"
  then obtain pre suf where p: "history = pre @ msg # suf" "\<forall>m \<in> set pre. plainMsg msg m" "answered strict suf"
    by (auto simp: answered_after_def)
  have "answered strict pre" by (rule answered_plain) (use p(2) in \<open>simp add: plainMsg_def\<close>)
  then show "answered strict history" using answered_append [of strict pre "msg # suf"] p m by simp
qed

lemma answered_after_append: "answered_after strict msg history \<Longrightarrow> answered strict ms \<Longrightarrow> answered_after strict msg (history @ ms)"
  unfolding answered_after_def by (metis append.assoc append_Cons answered_append)

lemma newMsg_plain: "role \<noteq> RoleAssistant \<Longrightarrow> callIds (newMsg u role bs) = []"
  by (simp add: callIds_def newMsg_def)

lemma ends_guard:
  assumes "steady strict msg p0 a" and "Q v a"
  shows "ends (prompts_ok strict p0) (guarded (loopGuard tn it k a) v) Q"
proof -
  have "ends (prompts_ok strict p0) (guarded (handleInterrupt tn it [] a) v) Q"
    using steady_prompts [OF assms(1)]
    by (simp add: handleInterrupt_def guarded_def Let_def prompts_ok_def remember_def)
  then show ?thesis using assms steady_prompts by (simp add: loopGuard_def guarded_def)
qed

lemma ends_enter:
  assumes "steady strict msg p0 a" and "answered_after strict msg history"
  shows "ends (prompts_ok strict p0) (enterIteration tn it history a) (\<lambda>h b. steady strict msg p0 b \<and> answered_after strict msg h)"
proof -
  define b where "b = (fold (\<lambda>t a. snd (Steer t a)) (tn_Steered tn it) a)\<lparr>ra_SteerQueue := []\<rparr>"
  have "steady strict msg p0 (fold (\<lambda>t a. snd (Steer t a)) ts c) = steady strict msg p0 c" for ts c
    by (induction ts arbitrary: c) (simp_all add: Steer_def)
  then have b: "steady strict msg p0 b" using assms(1) by (simp add: b_def)
  have "answered_after strict msg (history @ map (\<lambda>(k, t). newMsg (tn_UUID tn ''steer'' it k) RoleUser [TextBlock t]) xs)" for xs
    by (intro answered_after_append assms(2) answered_plain) (auto simp: newMsg_plain)
  then have "ends (prompts_ok strict p0)
      (stageThen (guarded (loopGuard tn it 0 b) (history @ map (\<lambda>(k, t). newMsg (tn_UUID tn ''steer'' it k) RoleUser [TextBlock t]) xs))
        (\<lambda>history a. (Inr history, saveMessages history (onRuntime (\<lambda>s. s\<lparr>as_CurIter := it\<rparr>) a))))
      (\<lambda>h b. steady strict msg p0 b \<and> answered_after strict msg h)" for xs
    using b by (intro ends_stageThen [where Q = "\<lambda>h b. steady strict msg p0 b \<and> answered_after strict msg h"] ends_guard) auto
  then show ?thesis
    using steady_prompts [OF assms(1)] by (simp add: enterIteration_def drainSteer_def Let_def b_def)
qed

lemma before_plain: "ra_Hooks a = [] \<Longrightarrow> beforeModelPhase it history a = (Inr history, a)"
  by (simp add: beforeModelPhase_def loopHook_def hookAt_def)

lemma after_plain: "ra_Hooks a = [] \<Longrightarrow> afterModelPhase it history response a = (Inr (GoOnWith response), a)"
  by (simp add: afterModelPhase_def loopHook_def hookAt_def)

lemma suffix_after:
  assumes "\<forall>m \<in> set pre. mg_ID m \<noteq> mg_ID msg"
  shows "inLoopSuffixAfterInput (pre @ msg # suf) msg = suf"
  using assms by (simp add: inLoopSuffixAfterInput_def dropWhile_append3)

lemma buildHistory_plain:
  assumes "plain_turn tn msg" and "\<forall>m \<in> set (ra_Memory a). plainMsg msg m"
  shows "\<exists>pre. buildHistory tn n msg a = pre @ [msg] \<and> (\<forall>m \<in> set pre. plainMsg msg m)"
  using assms
  by (auto simp: buildHistory_def Let_def plain_turn_def plainMsg_def newMsg_def callIds_def)

lemma ends_compress:
  assumes "plain_turn tn msg" and "steady strict msg p0 a" and "answered_after strict msg history"
  shows "ends (prompts_ok strict p0) (compressAndSync tn it msg history a) (\<lambda>h b. steady strict msg p0 b \<and> answered_after strict msg h)"
proof (cases "tn_Compress tn it (case ra_Runtime a of None \<Rightarrow> [] | Some s \<Rightarrow> as_CompressedSummary s) (ra_Memory a)")
  case (Inl e)
  then show ?thesis using steady_prompts [OF assms(2)] by (simp add: compressAndSync_def Let_def)
next
  case (Inr p)
  obtain s mem where p: "p = (s, mem)" by fastforce
  define b where "b = onRuntime (\<lambda>st. st\<lparr>as_CompressedSummary := s\<rparr>) (a\<lparr>ra_Memory := mem\<rparr>)"
  have mem: "\<forall>m \<in> set mem. plainMsg msg m"
    using assms(1,2) Inr p by (fastforce simp: plain_turn_def steady_def)
  have b: "steady strict msg p0 b" using assms(2) mem by (simp add: b_def steady_def prompts_ok_def onRuntime_def)
  have bm: "\<forall>m \<in> set (ra_Memory b). plainMsg msg m" using mem by (simp add: b_def onRuntime_def)
  obtain pre where pre: "buildHistory tn (Suc it) msg b = pre @ [msg]" "\<forall>m \<in> set pre. plainMsg msg m"
    using buildHistory_plain [OF assms(1) bm] by blast
  obtain pre0 suf where h: "history = pre0 @ msg # suf" "\<forall>m \<in> set pre0. plainMsg msg m" "answered strict suf"
    using assms(3) by (auto simp: answered_after_def)
  have "inLoopSuffixAfterInput history msg = suf" unfolding h(1) by (rule suffix_after) (use h(2) in \<open>auto simp: plainMsg_def\<close>)
  then have "answered_after strict msg (syncHistoryWithMemory tn (Suc it) msg history b)"
    using pre h(3) by (auto simp: syncHistoryWithMemory_def answered_after_def)
  then show ?thesis using Inr p b by (simp add: compressAndSync_def Let_def b_def)
qed

lemma ends_model:
  assumes "callIds msg = []" and "steady strict msg p0 a" and "answered_after strict msg history"
  shows "ends (prompts_ok strict p0) (modelStage tn it history a) (\<lambda>response b. steady strict msg p0 b)"
proof -
  obtain r b where r: "runModelStream tn it history a = (r, b)" by fastforce
  obtain evs where b: "b = sendEvents evs (a\<lparr>ra_Prompts := ra_Prompts a @ [history]\<rparr>)"
    using r by (auto simp: runModelStream_def split: prod.splits)
  have "prompts_ok strict p0 (a\<lparr>ra_Prompts := ra_Prompts a @ [history]\<rparr>)"
    using assms(2) answered_after_answered [OF assms(3,1)] by (auto simp: steady_def prompts_ok_def)
  then have p: "prompts_ok strict p0 b" by (simp add: b)
  then have "steady strict msg p0 b" using assms(2) by (simp add: steady_def b sendEvents_def)
  moreover have "ends (prompts_ok strict p0) (returned g) Q" if "prompts_ok strict p0 (snd g)" for g and Q :: "Msg \<Rightarrow> ReActAgent \<Rightarrow> bool"
    using that by (cases g; cases "fst g") (auto simp: returned_def)
  ultimately show ?thesis using p by (cases r) (simp_all add: modelStage_def r Let_def)
qed

lemma ends_final:
  assumes "steady strict msg p0 a"
  shows "ends (prompts_ok strict p0) (finalStage it history response u a)
    (\<lambda>(h, m) b. steady strict msg p0 b \<and> h = history @ [response] \<and> m = response)"
proof -
  have "ra_Hooks (saveMessages ms a) = []" for ms using assms by (simp add: steady_def saveMessages_def onRuntime_def)
  then show ?thesis
    using assms steady_prompts [OF assms]
    by (simp add: finalStage_def Let_def checkFinalAnswer_def loopHook_def)
qed

lemma executeToolsStream_memory: "ra_Memory (snd (executeToolsStream tn it history calls a)) = ra_Memory a"
proof -
  have r: "ra_Memory (snd (runTools tn it history calls ext b)) = ra_Memory b" for calls ext b
    by (simp add: runTools_def Let_def sendEvents_def split: option.split ToolHalt.split)
  have s: "ra_Memory (setSuspended x b) = ra_Memory b" "ra_Memory (sendEvents evs b) = ra_Memory b" for x evs b
    by (simp_all add: setSuspended_def onRuntime_def sendEvents_def)
  have e: "ra_Memory (snd (executeAllowed tn it history calls b)) = ra_Memory b" for calls b
    by (simp add: executeAllowed_def Let_def r s split: ExtAnswer.split)
  show ?thesis
    by (simp add: executeToolsStream_def Let_def s e split: prod.split GateResult.split)
qed

lemma ends_tools:
  assumes "steady strict msg p0 a" and "answered_after strict msg history"
  shows "ends (prompts_ok strict p0) (toolStage tn it (history @ [response]) response a)
    (\<lambda>(h, sigs) b. steady strict msg p0 b \<and> answered_after strict msg h)"
  unfolding toolStage_def
proof (rule ends_stageThen [where Q = "\<lambda>_ b. steady strict msg p0 b"])
  show "ends (prompts_ok strict p0) (guarded (loopGuard tn it 3 a) ()) (\<lambda>_ b. steady strict msg p0 b)"
    by (rule ends_guard [OF assms(1)]) (rule assms(1))
next
  fix v :: unit and b
  assume b: "steady strict msg p0 b"
  obtain r c where r: "executeToolsStream tn it (history @ [response]) (GetToolUseCalls response) b = (r, c)" by fastforce
  have g: "grows tn 0 b c" using executeToolsStream_grows [of tn b it "history @ [response]" "GetToolUseCalls response"] r by simp
  have mem: "ra_Memory c = ra_Memory b" using executeToolsStream_memory r by (metis snd_conv)
  have "ra_Prompts c = ra_Prompts b" "ra_Hooks c = ra_Hooks b" "ra_Permission b = None \<longrightarrow> ra_Permission c = None"
    using g by (auto simp: grows_def gated_def)
  then have c: "steady strict msg p0 c" using steady_same [OF b] mem by simp
  show "ends (prompts_ok strict p0) (case executeToolsStream tn it (history @ [response]) (GetToolUseCalls response) b of
          (ToolsErr e, a) \<Rightarrow> (Inl (Inl e), a)
        | (ToolsStopped m, a) \<Rightarrow> (Inl (Inr (LoopReturns m)), a)
        | (ToolsDone m sigs, a) \<Rightarrow> (Inr ((history @ [response]) @ [m], sigs), a))
      (\<lambda>(h, sigs) b. steady strict msg p0 b \<and> answered_after strict msg h)"
  proof (cases r)
    case (ToolsDone m sigs)
    note ids = executeToolsStream_ids [OF r [unfolded ToolsDone]]
    have "callIds response \<noteq> [] \<longrightarrow> callIds response = map tc_ID (GetToolUseCalls response)" by (simp add: callIds_def)
    moreover have "strict \<longrightarrow> ra_Permission b = None" using b by (simp add: steady_def)
    moreover have "callIds m = []" using ids by (simp add: callIds_def)
    ultimately have "answered strict [response, m]" using ids by (auto simp: answers_def)
    then show ?thesis using r ToolsDone c answered_after_append [OF assms(2), of "[response, m]"] by simp
  qed (use r steady_prompts [OF c] in simp_all)
qed

lemma ends_breaker:
  assumes "steady strict msg p0 a" and "answered_after strict msg history"
  shows "ends (prompts_ok strict p0) (breakerStage tn it history sigs b a) (\<lambda>(h, b) c. steady strict msg p0 c \<and> answered_after strict msg h)"
proof -
  have "answered_after strict msg (history @ [newMsg u RoleSystem bs])" for u bs
    by (intro answered_after_append assms(2)) (simp add: newMsg_plain)
  then show ?thesis
    using assms steady_prompts [OF assms(1)] by (simp add: breakerStage_def Let_def split: prod.split)
qed

lemma ends_actOn:
  assumes "steady strict msg p0 a" and "answered_after strict msg history"
  shows "ends (prompts_ok strict p0) (actOn tn it b used history response a)
    (\<lambda>(h, b, used) c. steady strict msg p0 c \<and> answered_after strict msg h)"
  unfolding actOn_def
proof (rule ends_stageThen [OF ends_final [OF assms(1)]], clarify)
  fix c
  assume c: "steady strict msg p0 c"
  show "ends (prompts_ok strict p0) (stageThen (toolStage tn it (history @ [response]) response c) (\<lambda>(history, sigs) a.
      stageThen (breakerStage tn it history sigs b a) (\<lambda>(history, b) a. (Inr (history, b, used), a))))
     (\<lambda>(h, b, used) c. steady strict msg p0 c \<and> answered_after strict msg h)"
  proof (rule ends_stageThen [OF ends_tools [OF c assms(2)]], clarify)
    fix h sigs d
    assume "steady strict msg p0 d" "answered_after strict msg h"
    then show "ends (prompts_ok strict p0) (stageThen (breakerStage tn it h sigs b d) (\<lambda>(history, b) a. (Inr (history, b, used), a)))
      (\<lambda>(h, b, used) c. steady strict msg p0 c \<and> answered_after strict msg h)"
      by (intro ends_stageThen [OF ends_breaker]) auto
  qed
qed

lemma ends_iteration:
  assumes "plain_turn tn msg" and "steady strict msg p0 a" and "answered_after strict msg history"
  shows "ends (prompts_ok strict p0) (iteration tn it msg (history, b, used) a)
    (\<lambda>(h, b, used) c. steady strict msg p0 c \<and> answered_after strict msg h)"
proof -
  have hooks: "ra_Hooks c = []" if "steady strict msg p0 c" for c using that by (simp add: steady_def)
  have m: "callIds msg = []" using assms(1) by (simp add: plain_turn_def)
  have respond: "ends (prompts_ok strict p0) (respond tn it b used h response c)
     (\<lambda>(h, b, used) c. steady strict msg p0 c \<and> answered_after strict msg h)"
    if "steady strict msg p0 c" "answered_after strict msg h" for h response c
    using ends_actOn [OF that] by (simp add: respond_def Let_def after_plain [OF hooks [OF that(1)]] stageThen_def)
  have model: "ends (prompts_ok strict p0) (stageThen (modelStage tn it h c) (\<lambda>response a. respond tn it b used h response a))
     (\<lambda>(h, b, used) c. steady strict msg p0 c \<and> answered_after strict msg h)"
    if "steady strict msg p0 c" "answered_after strict msg h" for h c
    by (rule ends_stageThen [OF ends_model [OF m that]]) (rule respond [OF _ that(2)])
  have compress: "ends (prompts_ok strict p0) (stageThen (compressAndSync tn it msg h c) (\<lambda>h a.
       stageThen (modelStage tn it h a) (\<lambda>response a. respond tn it b used h response a)))
     (\<lambda>(h, b, used) c. steady strict msg p0 c \<and> answered_after strict msg h)"
    if "steady strict msg p0 c" "answered_after strict msg h" for h c
    by (rule ends_stageThen [OF ends_compress [OF assms(1) that]]) (use model in blast)
  have before: "stageThen (beforeModelPhase it h c) f = f h c" if "steady strict msg p0 c" for h c
    and f :: "Msg list \<Rightarrow> ReActAgent \<Rightarrow> loop_vars stage"
    by (simp add: before_plain [OF hooks [OF that]] stageThen_def)
  show ?thesis
    unfolding iteration_def prod.case
    by (rule ends_stageThen [OF ends_enter [OF assms(2,3)]]) (use before compress in auto)
qed

lemma prompts_loop:
  assumes "plain_turn tn msg" and "steady strict msg p0 a" and "answered_after strict msg (fst vars)"
  shows "prompts_ok strict p0 (snd (reactLoop n tn it msg vars a))"
  using assms(2,3)
proof (induction n arbitrary: it vars a)
  case 0
  then show ?case by (simp add: steady_prompts)
next
  case (Suc n)
  obtain history b used where v: "vars = (history, b, used)" by (metis prod_cases3)
  have e: "ends (prompts_ok strict p0) (iteration tn it msg vars a)
    (\<lambda>(h, b, used) c. steady strict msg p0 c \<and> answered_after strict msg h)"
    unfolding v by (rule ends_iteration [OF assms(1) Suc(2)]) (use Suc(3) v in simp)
  obtain r c where r: "iteration tn it msg vars a = (r, c)" by fastforce
  show ?case
  proof (cases r)
    case (Inl x)
    then show ?thesis using e r by (cases x) auto
  next
    case (Inr vars')
    then have "steady strict msg p0 c" "answered_after strict msg (fst vars')" using e r by (auto split: prod.splits)
    then show ?thesis using Suc(1) r Inr by simp
  qed
qed

text \<open>The whole turn.\<close>

lemma prompts_internal:
  assumes "plain_turn tn msg" and "steady strict msg p0 a"
  shows "prompts_ok strict p0 (snd (replyStreamInternal tn msg a))"
proof -
  have hooks: "ra_Hooks a = []" using assms(2) by (simp add: steady_def)
  have pre: "preCallPhase msg a = Inr (Some msg, None)" by (simp add: preCallPhase_def hooks hookAt_def)
  have "\<forall>m \<in> set (ra_Memory a). plainMsg msg m" using assms(2) by (simp add: steady_def)
  then obtain ms where "buildHistory tn 0 msg a = ms @ [msg]" "\<forall>m \<in> set ms. plainMsg msg m"
    using buildHistory_plain [OF assms(1)] by blast
  then have h: "answered_after strict msg (buildHistory tn 0 msg a)"
    unfolding answered_after_def by (intro exI [of _ ms] exI [of _ "[]"]) simp
  obtain r c where r: "reactLoop (ra_MaxIterations a) tn 0 msg
      (buildHistory tn 0 msg a, newConsecutiveFailureBreaker (ra_FailureThreshold a), noUsage) a = (r, c)" by fastforce
  have "prompts_ok strict p0 (snd (reactLoop (ra_MaxIterations a) tn 0 msg
      (buildHistory tn 0 msg a, newConsecutiveFailureBreaker (ra_FailureThreshold a), noUsage) a))"
    by (rule prompts_loop [OF assms]) (simp add: h)
  then have c: "prompts_ok strict p0 c" using r by simp
  show ?thesis
    using steady_prompts [OF assms(2)] c
    by (auto simp: replyStreamInternal_def pre Let_def r split: option.split sum.split LoopEnd.split)
qed

lemma prompts_fresh:
  assumes "plain_turn tn msg" and "steady strict msg p0 a"
  shows "prompts_ok strict p0 (snd (freshTurn tn msg a))"
proof -
  have hooks: "ra_Hooks a = []" using assms(2) by (simp add: steady_def)
  have "callWithHooks msg (replyStreamInternal tn) a = replyStreamInternal tn msg a"
    by (simp add: callWithHooks_def hooks hookAt_def)
  then have "prompts_ok strict p0 (snd (Base_Call msg (replyStreamInternal tn) a))"
    using prompts_internal [OF assms] by (auto simp: Base_Call_def split: prod.split sum.split)
  then show ?thesis
    by (auto simp: freshTurn_def recordFinal_def split: prod.splits sum.split option.split)
qed

end
