(* ===== verification/Ctx_Split.thy ===== *)
theory Ctx_Split
  imports React_Msg Go_Float
begin

text \<open>
  Counting tokens (model/count_tokens.go, memory/token_counter.go) and splitting an oversized tool
  result into a reserved and an offloaded part (agent/react/tool_result_compress.go).
\<close>

section \<open>Counting tokens\<close>

definition f64_of :: "int \<Rightarrow> f64" where
  "f64_of n = f64_round (of_int n)"

definition dataBlockTokens :: "BlockSource option \<Rightarrow> int" where
  "dataBlockTokens src =
     (case src of
        None \<Rightarrow> 0
      | Some s \<Rightarrow> if src_Type s = ''base64'' then int (length (src_Data s) div 4) else int ((length (src_URL s) + 3) div 4))"

fun resultPart :: "ContentBlock \<Rightarrow> int \<times> string" where
  "resultPart (TextBlock t) = (0, t)"
| "resultPart (DataBlock _ src) = (dataBlockTokens src, [])"
| "resultPart _ = (0, [])"

text \<open>
  What a block adds to the count and to the text; \<open>marshal\<close> is \<^verbatim>\<open>json.Marshal\<close>
  of an input, \<open>None\<close> when it fails.
\<close>

fun blockPart :: "(Input \<Rightarrow> string option) \<Rightarrow> ContentBlock \<Rightarrow> (int \<times> string) option" where
  "blockPart marshal (TextBlock t) = Some (0, t)"
| "blockPart marshal (ThinkingBlock t _) = Some (0, t)"
| "blockPart marshal (HintBlock t _) = Some (0, t)"
| "blockPart marshal (ToolUse c) =
     (if tc_RawInput c \<noteq> [] then Some (0, tc_RawInput c)
      else if tc_Input c \<noteq> [] then map_option (Pair 0) (marshal (tc_Input c)) else Some (0, []))"
| "blockPart marshal (ToolResult _ bs _ _) =
     Some (sum_list (map (fst \<circ> resultPart) bs), concat (map (snd \<circ> resultPart) bs))"
| "blockPart marshal (DataBlock _ src) = Some (dataBlockTokens src, [])"
| "blockPart marshal (ImageBlock url b64 _) = Some (if b64 \<noteq> [] then (int (length b64 div 4), []) else (0, url))"
| "blockPart marshal (AudioBlock url _ _) = Some (0, url)"
| "blockPart marshal (VideoBlock url) = Some (0, url)"

text \<open>\<open>tools\<close> is the JSON text of the tool schemas, empty without tools.\<close>

definition DefaultCountTokens :: "(Input \<Rightarrow> string option) \<Rightarrow> string \<Rightarrow> Msg list \<Rightarrow> int option" where
  "DefaultCountTokens marshal tools msgs =
     (let parts = map (blockPart marshal) (concat (map mg_Content msgs))
      in if None \<in> set parts then None
         else
           let n = length (concat (map (snd \<circ> the) parts) @ tools)
           in Some (sum_list (map (fst \<circ> the) parts) +
                f64_to_int (f64_add (f64_div (f64_of (int n)) (Fin 4)) (Fin (1 / 2)))))"

definition SimpleCount :: "string \<Rightarrow> int" where
  "SimpleCount t = int (length (runes t) div 4)"

definition CountMessages :: "Msg list \<Rightarrow> int" where
  "CountMessages msgs = sum_list (map (SimpleCount \<circ> GetTextContent) msgs)"

section \<open>Splitting a tool result\<close>

text \<open>The token count of a list of blocks, which may fail.\<close>

type_synonym block_counter = "ContentBlock list \<Rightarrow> AgentErr + int"

definition countToolResultTokens :: "(Msg list \<Rightarrow> AgentErr + int) \<Rightarrow> block_counter" where
  "countToolResultTokens count bs = count [newMsg [] RoleAssistant bs]"

text \<open>The last index whose prefix is below the limit; \<open>i\<close> counts down.\<close>

fun findBoundary :: "block_counter \<Rightarrow> int \<Rightarrow> ContentBlock list \<Rightarrow> nat \<Rightarrow> AgentErr + nat" where
  "findBoundary count limit bs 0 = Inr 0"
| "findBoundary count limit bs (Suc i) =
     (case count (take i bs) of
        Inl e \<Rightarrow> Inl e
      | Inr cur \<Rightarrow> if cur < limit then Inr i else findBoundary count limit bs i)"

definition truncateTextBlockByTokenBudget :: "block_counter \<Rightarrow> ContentBlock list \<Rightarrow> string \<Rightarrow> int \<Rightarrow> string \<times> string" where
  "truncateTextBlockByTokenBudget count reserved t limit =
     (if t = [] then ([], [])
      else case count reserved of
        Inl _ \<Rightarrow> (t, [])
      | Inr cur \<Rightarrow>
          (case count (reserved @ [TextBlock t]) of
             Inl _ \<Rightarrow> (t, [])
           | Inr curPlus \<Rightarrow>
               let tokenDelta = curPlus - cur; remaining = limit - cur
               in if remaining \<le> 0 then ([], t)
                  else if tokenDelta \<le> 0 then (t, [])
                  else
                    let chars = f64_to_int (f64_mul (f64_div (f64_of remaining) (f64_of tokenDelta)) (f64_of (int (length t))));
                        chars = min (max chars 0) (int (length t))
                    in (take (nat chars) t, drop (nat chars) t)))"

definition appendTextBlock :: "ContentBlock list \<Rightarrow> string \<Rightarrow> ContentBlock list" where
  "appendTextBlock bs t =
     (if t = [] then bs
      else if bs \<noteq> [] \<and> isText (last bs) then butlast bs @ [TextBlock (blockText (last bs) @ t)]
      else bs @ [TextBlock t])"

definition prependTextBlock :: "ContentBlock list \<Rightarrow> string \<Rightarrow> ContentBlock list" where
  "prependTextBlock bs t =
     (if t = [] then bs
      else if bs \<noteq> [] \<and> isText (hd bs) then TextBlock (t @ blockText (hd bs)) # tl bs
      else TextBlock t # bs)"

text \<open>The blocks on both sides of the limit; \<open>None\<close>: nothing is to be offloaded.\<close>

definition splitBlocks :: "block_counter \<Rightarrow> ContentBlock list \<Rightarrow> int \<Rightarrow> AgentErr + (ContentBlock list \<times> ContentBlock list) option" where
  "splitBlocks count bs limit =
     (if limit \<le> 0 then Inr None
      else case count bs of
        Inl e \<Rightarrow> Inl e
      | Inr n \<Rightarrow>
          if n \<le> limit \<or> bs = [] then Inr None
          else case findBoundary count limit bs (length bs) of
            Inl e \<Rightarrow> Inl e
          | Inr k \<Rightarrow>
              let reserved = take k bs; offload = drop (Suc k) bs;
                  (reserved, offload) =
                    (if isText (bs ! k) then
                       (case truncateTextBlockByTokenBudget count reserved (blockText (bs ! k)) limit of
                          (r, off) \<Rightarrow> (appendTextBlock reserved r, prependTextBlock offload off))
                     else (reserved, bs ! k # offload))
              in Inr (if offload = [] then None else Some (reserved, offload)))"

fun SplitToolResultForCompression :: "block_counter \<Rightarrow> ContentBlock \<Rightarrow> int \<Rightarrow> AgentErr + (ContentBlock \<times> ContentBlock option)" where
  "SplitToolResultForCompression count (ToolResult i bs e st) limit =
     map_sum (\<lambda>e. e) (\<lambda>r. case r of
        None \<Rightarrow> (ToolResult i bs e st, None)
      | Some (reserved, offload) \<Rightarrow> (ToolResult i reserved e st, Some (ToolResult i offload e st)))
       (splitBlocks count bs limit)"
| "SplitToolResultForCompression count b limit = Inr (b, None)"

text \<open>The path the rest is stored under, if there is an offloader and it succeeds.\<close>

definition truncationReminder :: "string option \<Rightarrow> string" where
  "truncationReminder path =
     [CHR 0x0A] @ ''<<<TRUNCATED>>>'' @ [CHR 0x0A] @ ''<system-reminder>The remaining content has been omitted for limited context.'' @
     (case path of None \<Rightarrow> []
      | Some p \<Rightarrow> '' You can refer to the file in '' @ [CHR 0x27] @ p @ [CHR 0x27] @ '' for the truncated content if needed.'') @
     ''</system-reminder>''"

definition compressToolResultBlocks ::
    "block_counter \<Rightarrow> int \<Rightarrow> (string \<Rightarrow> ContentBlock list \<Rightarrow> string option) \<Rightarrow> string \<Rightarrow> ContentBlock list \<Rightarrow> bool \<Rightarrow> ContentBlock list" where
  "compressToolResultBlocks count limit store callID bs isError =
     (case splitBlocks count bs (if limit \<le> 0 then 3000 else limit) of
        Inr (Some (reserved, offload)) \<Rightarrow> appendTextBlock reserved (truncationReminder (store callID offload))
      | _ \<Rightarrow> bs)"

fun truncateResult :: "block_counter \<Rightarrow> int \<Rightarrow> ContentBlock \<Rightarrow> ContentBlock" where
  "truncateResult count limit (ToolResult i bs e st) =
     (case SplitToolResultForCompression count (ToolResult i bs e st) limit of
        Inr (reserved, Some _) \<Rightarrow> reserved | _ \<Rightarrow> ToolResult i bs e st)"
| "truncateResult count limit b = b"

definition preTruncateToolResults :: "block_counter \<Rightarrow> int \<Rightarrow> Msg list \<Rightarrow> Msg list" where
  "preTruncateToolResults count limit msgs =
     (if limit \<le> 0 then msgs else map (onContent (map (truncateResult count limit))) msgs)"

section \<open>Nothing gets lost\<close>

text \<open>Blocks up to empty and adjacent texts.\<close>

fun glueText :: "string \<Rightarrow> ContentBlock list \<Rightarrow> ContentBlock list" where
  "glueText t (TextBlock u # bs) = TextBlock (t @ u) # bs"
| "glueText t bs = (if t = [] then bs else TextBlock t # bs)"

fun addGlued :: "ContentBlock \<Rightarrow> ContentBlock list \<Rightarrow> ContentBlock list" where
  "addGlued (TextBlock t) bs = glueText t bs"
| "addGlued b bs = b # bs"

definition glued :: "ContentBlock list \<Rightarrow> ContentBlock list" where
  "glued bs = foldr addGlued bs []"

lemma glued_simps [simp]: "glued [] = []" "glued (b # bs) = addGlued b (glued bs)"
  by (simp_all add: glued_def)

lemma addGlued_empty [simp]: "glueText [] bs = bs"
proof (cases bs)
  case (Cons b bs')
  then show ?thesis by (cases b) auto
qed simp

lemma addGlued_texts: "glueText t (glueText u bs) = glueText (t @ u) bs"
proof (cases bs)
  case (Cons b bs')
  then show ?thesis by (cases b) auto
qed auto

lemma glued_append: "glued (xs @ ys) = foldr addGlued xs (glued ys)"
  by (induction xs) auto

lemma isText_blockText: "isText b \<Longrightarrow> b = TextBlock (blockText b)"
  by (cases b) auto

lemma glued_appendText: "glued (appendTextBlock xs t @ ys) = glued (xs @ TextBlock t # ys)"
proof (cases "t \<noteq> [] \<and> xs \<noteq> [] \<and> isText (last xs)")
  case True
  then have xs: "xs = butlast xs @ [TextBlock (blockText (last xs))]" using isText_blockText by (metis append_butlast_last_id)
  have "glued (xs @ TextBlock t # ys) = foldr addGlued (butlast xs) (addGlued (TextBlock (blockText (last xs))) (addGlued (TextBlock t) (glued ys)))"
    by (subst xs) (simp add: glued_append)
  then show ?thesis using True by (simp add: appendTextBlock_def glued_append addGlued_texts)
next
  case False
  then show ?thesis by (auto simp: appendTextBlock_def glued_append)
qed

lemma glued_prependText: "glued (prependTextBlock ys t) = glued (TextBlock t # ys)"
proof (cases ys)
  case (Cons y ys')
  then show ?thesis using isText_blockText [of y] by (cases y) (auto simp: prependTextBlock_def addGlued_texts)
qed (simp add: prependTextBlock_def)

lemma truncate_text: "truncateTextBlockByTokenBudget count reserved t limit = (r, off) \<Longrightarrow> r @ off = t"
  by (auto simp: truncateTextBlockByTokenBudget_def Let_def split: if_splits sum.splits)

lemma findBoundary_less: "findBoundary count limit bs i = Inr k \<Longrightarrow> k \<le> i - 1"
  by (induction i) (auto split: sum.splits if_splits)

lemma findBoundary_below:
  "findBoundary count limit bs i = Inr k \<Longrightarrow> k = 0 \<or> (\<exists>cur. count (take k bs) = Inr cur \<and> cur < limit)"
  by (induction i) (auto split: sum.splits if_splits)

lemma splitBlocks_glued:
  assumes "splitBlocks count bs limit = Inr (Some (reserved, offload))"
  shows "glued (reserved @ offload) = glued bs \<and> offload \<noteq> []"
proof -
  obtain k where k: "findBoundary count limit bs (length bs) = Inr k" "bs \<noteq> []"
    and r: "(reserved, offload) =
        (if isText (bs ! k) then
           (case truncateTextBlockByTokenBudget count (take k bs) (blockText (bs ! k)) limit of
              (r, off) \<Rightarrow> (appendTextBlock (take k bs) r, prependTextBlock (drop (Suc k) bs) off))
         else (take k bs, bs ! k # drop (Suc k) bs))" and ne: "offload \<noteq> []"
    using assms by (auto simp: splitBlocks_def Let_def split: if_splits sum.splits prod.splits)
  have "k < length bs" using findBoundary_less [OF k(1)] k(2) by (cases bs) auto
  then have bs: "take k bs @ bs ! k # drop (Suc k) bs = bs" by (rule id_take_nth_drop [symmetric])
  show ?thesis
  proof (cases "isText (bs ! k)")
    case True
    obtain t off where t: "truncateTextBlockByTokenBudget count (take k bs) (blockText (bs ! k)) limit = (t, off)" by fastforce
    have "glued (reserved @ offload) = glued (take k bs @ TextBlock t # prependTextBlock (drop (Suc k) bs) off)"
      using r True t by (simp add: glued_appendText)
    also have "\<dots> = glued (take k bs @ TextBlock t # TextBlock off # drop (Suc k) bs)"
      using glued_prependText by (simp add: glued_append)
    also have "\<dots> = glued (take k bs @ TextBlock (blockText (bs ! k)) # drop (Suc k) bs)"
      using truncate_text [OF t] by (simp add: glued_append addGlued_texts)
    finally show ?thesis using isText_blockText [OF True] bs ne by metis
  next
    case False
    then show ?thesis using r bs ne by simp
  qed
qed

end
