(* ===== verification/Ctx_Window.thy ===== *)
theory Ctx_Window
  imports React_History Ctx_Split Go_Strings
begin

text \<open>
  Context compression: the split of the memory into a part to compact and a part to keep
  (CheckContext in memory/context_checker.go) and CompressContext in
  agent/react/compress_context.go, with the summary that stands for the compacted part.
\<close>

section \<open>Where to split\<close>

definition GetToolResults :: "Msg \<Rightarrow> string list" where
  "GetToolResults m = List.map_filter resultId (mg_Content m)"

text \<open>The calls of a prefix that wait for their result.\<close>

definition pendingAfter :: "Msg \<Rightarrow> string list \<Rightarrow> string list" where
  "pendingAfter m p = filter (\<lambda>i. i \<notin> set (GetToolResults m)) (p @ map tc_ID (GetToolUseCalls m))"

definition splitRespectsToolPairs :: "Msg list \<Rightarrow> nat \<Rightarrow> bool" where
  "splitRespectsToolPairs msgs start \<longleftrightarrow> start = 0 \<or> fold pendingAfter (take start msgs) [] = []"

record ContextCheckResult =
  cc_MessagesToCompact :: "Msg list"
  cc_MessagesToKeep :: "Msg list"
  cc_TotalTokens :: int
  cc_Threshold :: int
  cc_IsValid :: bool

text \<open>From the tail until \<open>reserve\<close> tokens are reached; \<open>i\<close> counts down.\<close>

fun tailStart :: "(Msg list \<Rightarrow> int) \<Rightarrow> int \<Rightarrow> Msg list \<Rightarrow> nat \<Rightarrow> int \<Rightarrow> nat" where
  "tailStart count reserve msgs 0 acc = 0"
| "tailStart count reserve msgs (Suc i) acc =
     (let acc = acc + count [msgs ! i] in if reserve \<le> acc then i else tailStart count reserve msgs i acc)"

function pushStart :: "Msg list \<Rightarrow> nat \<Rightarrow> nat" where
  "pushStart msgs start =
     (if start < length msgs \<and> \<not> splitRespectsToolPairs msgs start then pushStart msgs (Suc start) else start)"
  by auto
termination by (relation "measure (\<lambda>(msgs, start). length msgs - start)") auto

declare pushStart.simps [simp del]

text \<open>The counter in use never fails.\<close>

definition CheckContext :: "(Msg list \<Rightarrow> int) \<Rightarrow> int \<Rightarrow> int \<Rightarrow> Msg list \<Rightarrow> ContextCheckResult" where
  "CheckContext count threshold reserve msgs =
     (let total = count msgs
      in if total \<le> threshold
         then \<lparr>cc_MessagesToCompact = [], cc_MessagesToKeep = msgs, cc_TotalTokens = total, cc_Threshold = threshold,
               cc_IsValid = True\<rparr>
         else
           let start = pushStart msgs (tailStart count reserve msgs (length msgs) 0)
           in \<lparr>cc_MessagesToCompact = take start msgs, cc_MessagesToKeep = drop start msgs, cc_TotalTokens = total,
               cc_Threshold = threshold, cc_IsValid = splitRespectsToolPairs msgs start\<rparr>)"

section \<open>Summaries\<close>

record CompressionSummary =
  su_TaskOverview :: string
  su_CurrentState :: string
  su_ImportantDiscoveries :: string
  su_NextSteps :: string
  su_ContextToPreserve :: string

record ContextConfig =
  cf_TriggerRatio :: f64
  cf_ReserveRatio :: f64
  cf_CompressionPrompt :: string
  cf_SummaryTemplate :: string
  cf_ToolResultLimit :: int
  cf_SummaryTokenRatio :: f64

definition nl :: string where "nl = [CHR 0x0A]"

definition DefaultContextConfig :: ContextConfig where
  "DefaultContextConfig = \<lparr>cf_TriggerRatio = f64_round (8 / 10), cf_ReserveRatio = f64_round (1 / 10),
     cf_CompressionPrompt = ''<system-hint>You have been working on the task described above '' @
       ''but have not yet completed it. '' @ ''Now write a continuation summary that will allow you to resume '' @
       ''work efficiently in a future context window where the '' @ ''conversation history will be replaced with this summary. '' @
       ''Your summary should be structured, concise, and actionable.'' @ ''</system-hint>'',
     cf_SummaryTemplate = ''<system-info>Here is a summary of your previous work'' @ nl @
       ''# Task Overview'' @ nl @ ''{task_overview}'' @ nl @ nl @ ''# Current State'' @ nl @ ''{current_state}'' @ nl @ nl @
       ''# Important Discoveries'' @ nl @ ''{important_discoveries}'' @ nl @ nl @ ''# Next Steps'' @ nl @ ''{next_steps}'' @ nl @ nl @
       ''# Context to Preserve'' @ nl @ ''{context_to_preserve}'' @ ''</system-info>'',
     cf_ToolResultLimit = 3000, cf_SummaryTokenRatio = f64_round (15 / 100)\<rparr>"

text \<open>The replacements are a map, visited in an order \<open>ord\<close>.\<close>

type_synonym pair_order = "(string \<times> string) list \<Rightarrow> (string \<times> string) list"

definition FormatCompressionSummary :: "pair_order \<Rightarrow> ContextConfig \<Rightarrow> CompressionSummary \<Rightarrow> string" where
  "FormatCompressionSummary ord c s =
     fold (\<lambda>(k, v) out. ReplaceAll out k v)
       (ord [(''{task_overview}'', su_TaskOverview s), (''{current_state}'', su_CurrentState s),
             (''{important_discoveries}'', su_ImportantDiscoveries s), (''{next_steps}'', su_NextSteps s),
             (''{context_to_preserve}'', su_ContextToPreserve s)])
       (if cf_SummaryTemplate c = [] then cf_SummaryTemplate DefaultContextConfig else cf_SummaryTemplate c)"

fun strIndex :: "string \<Rightarrow> string \<Rightarrow> nat option" where
  "strIndex [] sub = (if sub = [] then Some 0 else None)"
| "strIndex (c # s) sub = (if HasPrefix (c # s) sub then Some 0 else map_option Suc (strIndex s sub))"

definition sectionHeaders :: "string list" where
  "sectionHeaders = [''# Task Overview'', ''# Current State'', ''# Important Discoveries'', ''# Next Steps'',
     ''# Context to Preserve'', ''</system-info>'']"

definition extractSection :: "string \<Rightarrow> string \<Rightarrow> string" where
  "extractSection s header =
     (case strIndex s header of
        None \<Rightarrow> []
      | Some k \<Rightarrow>
          let rest = drop (k + length header) s;
              stop = fold (\<lambda>h n. case strIndex rest h of Some i \<Rightarrow> if i < n then i else n | None \<Rightarrow> n) sectionHeaders (length rest)
          in TrimSpace (take stop rest))"

definition parseSummaryFields :: "string \<Rightarrow> CompressionSummary" where
  "parseSummaryFields s = \<lparr>su_TaskOverview = extractSection s ''# Task Overview'',
     su_CurrentState = extractSection s ''# Current State'',
     su_ImportantDiscoveries = extractSection s ''# Important Discoveries'',
     su_NextSteps = extractSection s ''# Next Steps'',
     su_ContextToPreserve = extractSection s ''# Context to Preserve''\<rparr>"

definition preferNonEmpty :: "string \<Rightarrow> string \<Rightarrow> string" where
  "preferNonEmpty a b = (if a \<noteq> [] then a else b)"

definition mergeTexts :: "string \<Rightarrow> string \<Rightarrow> string" where
  "mergeTexts a b = (if a = [] then b else if b = [] then a else if Contains a b then a else a @ nl @ b)"

definition mergeCompressionSummaries :: "pair_order \<Rightarrow> string \<Rightarrow> string \<Rightarrow> string" where
  "mergeCompressionSummaries ord prevText deltaText =
     (let prev = parseSummaryFields prevText; delta = parseSummaryFields deltaText
      in FormatCompressionSummary ord DefaultContextConfig
        \<lparr>su_TaskOverview = preferNonEmpty (su_TaskOverview delta) (su_TaskOverview prev),
         su_CurrentState = preferNonEmpty (su_CurrentState delta) (su_CurrentState prev),
         su_ImportantDiscoveries = mergeTexts (su_ImportantDiscoveries prev) (su_ImportantDiscoveries delta),
         su_NextSteps = preferNonEmpty (su_NextSteps delta) (su_NextSteps prev),
         su_ContextToPreserve = mergeTexts (su_ContextToPreserve prev) (su_ContextToPreserve delta)\<rparr>)"

definition truncationMarker :: string where
  "truncationMarker = nl @ ''<<<TRUNCATED>>>''"

definition truncateSummaryText :: "string \<Rightarrow> int \<Rightarrow> string" where
  "truncateSummaryText s maxLen =
     (if maxLen \<le> 0 \<or> int (length s) \<le> maxLen then s
      else take (nat (maxLen - int (length truncationMarker))) s @ truncationMarker)"

section \<open>Compressing the context\<close>

text \<open>
  The surroundings of a compression: configuration, the size of the context as configured and as the
  model gives it, the token count with and without tool schemas, the structured runner (by the
  number of messages dropped and the text it is given), the chat call that shortens a summary, the offloader and the
  order of maps.
\<close>

record CompressEnv =
  ce_Config :: ContextConfig
  ce_ContextSize :: int
  ce_ModelSize :: "int option"
  ce_Count :: "bool \<Rightarrow> Msg list \<Rightarrow> AgentErr + int"
  ce_Run :: "nat \<Rightarrow> string \<Rightarrow> AgentErr + CompressionSummary"
  ce_Shorten :: "string \<Rightarrow> string option"
  ce_Store :: "Msg list \<Rightarrow> string option"
  ce_Order :: pair_order

definition ResolveContextSize :: "int option \<Rightarrow> int \<Rightarrow> int" where
  "ResolveContextSize modelSize explicit =
     (if explicit > 0 then explicit else case modelSize of Some n \<Rightarrow> if n > 0 then n else 128000 | None \<Rightarrow> 128000)"

definition usedConfig :: "CompressEnv \<Rightarrow> ContextConfig" where
  "usedConfig env =
     (if f64_le (cf_TriggerRatio (ce_Config env)) (Fin 0) \<or> f64_le (cf_ReserveRatio (ce_Config env)) (Fin 0)
      then DefaultContextConfig else ce_Config env)"

definition scaled :: "int \<Rightarrow> f64 \<Rightarrow> int" where
  "scaled n ratio = f64_to_int (f64_mul (f64_of n) ratio)"

definition promptHistory :: "(string \<Rightarrow> string) \<Rightarrow> string \<Rightarrow> string \<Rightarrow> Msg list \<Rightarrow> Msg \<Rightarrow> Msg list" where
  "promptHistory uuid sys summary mem input =
     (if sys \<noteq> [] then [newMsg (uuid ''system'') RoleSystem [TextBlock sys]] else []) @
     (if summary \<noteq> [] then [newMsg (uuid ''summary'') RoleUser [TextBlock summary]] else []) @ mem @ [input]"

definition buildCompressionMessages :: "string \<Rightarrow> string \<Rightarrow> Msg list \<Rightarrow> string \<Rightarrow> Msg list" where
  "buildCompressionMessages sys prev toCompress prompt =
     (if sys \<noteq> [] then [newMsg [] RoleSystem [TextBlock sys]] else []) @
     (if prev \<noteq> [] then [newMsg [] RoleUser [TextBlock prev]] else []) @ toCompress @
     [newMsg [] RoleUser [TextBlock prompt]]"

fun roleText :: "MsgRole \<Rightarrow> string" where
  "roleText RoleUser = ''user''"
| "roleText RoleAssistant = ''assistant''"
| "roleText RoleSystem = ''system''"
| "roleText RoleTool = ''tool''"

definition formatMessagesForCompression :: "Msg list \<Rightarrow> string" where
  "formatMessagesForCompression msgs = concat (map (\<lambda>m. roleText (mg_Role m) @ '': '' @ GetTextContent m @ nl) msgs)"

text \<open>Without one more of the oldest messages each time, until the rest fits.\<close>

fun retryTrimmed :: "CompressEnv \<Rightarrow> int \<Rightarrow> (Msg list \<Rightarrow> Msg list) \<Rightarrow> AgentErr \<Rightarrow> nat \<Rightarrow> Msg list \<Rightarrow> AgentErr + CompressionSummary" where
  "retryTrimmed env trigger build e i [] = Inl e"
| "retryTrimmed env trigger build e i (m # ms) =
     (case ce_Count env True (build ms) of
        Inl e' \<Rightarrow> Inl e'
      | Inr est \<Rightarrow>
          if est < trigger then ce_Run env i (formatMessagesForCompression (build ms))
          else retryTrimmed env trigger build e (Suc i) ms)"

definition generateCompressionSummary :: "CompressEnv \<Rightarrow> int \<Rightarrow> string \<Rightarrow> string \<Rightarrow> Msg list \<Rightarrow> AgentErr + string" where
  "generateCompressionSummary env ctxSize sys prev toCompress =
     (let cfg = usedConfig env;
          toCompress = preTruncateToolResults (countToolResultTokens (ce_Count env False)) (cf_ToolResultLimit cfg) toCompress;
          prompt = (if cf_CompressionPrompt cfg = [] then cf_CompressionPrompt DefaultContextConfig else cf_CompressionPrompt cfg);
          build = (\<lambda>ms. buildCompressionMessages sys prev ms prompt)
      in case ce_Count env True (build toCompress) of
           Inl e \<Rightarrow> Inl e
         | Inr est \<Rightarrow>
             (case (case ce_Run env 0 (formatMessagesForCompression (build toCompress)) of
                      Inr s \<Rightarrow> Inr s
                    | Inl e \<Rightarrow>
                        if est > ctxSize then retryTrimmed env (scaled ctxSize (cf_TriggerRatio cfg)) build e 1 toCompress
                        else Inl e) of
                Inl e \<Rightarrow> Inl e
              | Inr s \<Rightarrow> Inr (FormatCompressionSummary (ce_Order env) cfg s)))"

definition maybeMetaCompressSummary :: "CompressEnv \<Rightarrow> int \<Rightarrow> string \<Rightarrow> string" where
  "maybeMetaCompressSummary env ctxSize s =
     (let ratio = (if f64_le (cf_SummaryTokenRatio (usedConfig env)) (Fin 0) then f64_round (15 / 100)
                   else cf_SummaryTokenRatio (usedConfig env));
          cap = scaled ctxSize ratio
      in if cap \<le> 0 \<or> int (length s) \<le> cap then s
         else case ce_Count env False
                [newMsg [] RoleSystem [TextBlock (''You are a context compressor. Given a verbose summary, produce a concise version '' @
                   ''that retains all critical information. Keep the same structured format.'')],
                 newMsg [] RoleUser [TextBlock (s @ nl @ nl @ ''Compress this summary to be as short as possible while keeping all key facts.'')]] of
                Inl _ \<Rightarrow> truncateSummaryText s cap
              | Inr est \<Rightarrow>
                  if est > ctxSize then truncateSummaryText s cap
                  else case ce_Shorten env s of
                         None \<Rightarrow> truncateSummaryText s cap
                       | Some t \<Rightarrow> if t = [] then s else t)"

definition maybeOffloadCompressedContext :: "CompressEnv \<Rightarrow> Msg list \<Rightarrow> string \<Rightarrow> string" where
  "maybeOffloadCompressedContext env compacted summary =
     (case (if compacted = [] then None else ce_Store env compacted) of
        None \<Rightarrow> summary
      | Some path \<Rightarrow>
          if path = [] then summary
          else summary @ nl @ ''<system-reminder>The compressed context is offloaded to '' @ [CHR 0x27] @ path @ [CHR 0x27] @
            '', you can refer to it when needed.</system-reminder>'')"

text \<open>If the reserve leaves nothing to compact, all but the last messages are.\<close>

definition contextSplit :: "int \<Rightarrow> Msg list \<Rightarrow> ContextCheckResult" where
  "contextSplit reserve mem =
     (let cc = CheckContext CountMessages 0 reserve mem
      in if cc_MessagesToCompact cc = [] then CheckContext CountMessages 0 0 mem else cc)"

text \<open>A generated summary is merged with the one before, shortened, and told where the messages are kept.\<close>

definition renewSummary :: "CompressEnv \<Rightarrow> int \<Rightarrow> Msg list \<Rightarrow> string \<Rightarrow> string \<Rightarrow> string" where
  "renewSummary env ctxSize compacted prev s =
     (let s = (if prev \<noteq> [] then mergeCompressionSummaries (ce_Order env) prev s else s);
          s = maybeMetaCompressSummary env ctxSize s
      in maybeOffloadCompressedContext env compacted s)"

text \<open>
  The new summary and memory; unchanged when the context is below the trigger or nothing can be
  compacted.
\<close>

definition CompressContext ::
    "CompressEnv \<Rightarrow> (string \<Rightarrow> string) \<Rightarrow> string \<Rightarrow> Msg \<Rightarrow> string \<Rightarrow> Msg list \<Rightarrow> AgentErr + (string \<times> Msg list)" where
  "CompressContext env uuid sys input summary mem =
     (let cfg = usedConfig env;
          ctxSize = ResolveContextSize (ce_ModelSize env) (ce_ContextSize env);
          threshold = scaled ctxSize (cf_TriggerRatio cfg);
          cc = contextSplit (scaled ctxSize (cf_ReserveRatio cfg)) mem
      in case ce_Count env True (promptHistory uuid sys summary mem input) of
           Inl e \<Rightarrow> Inl e
         | Inr est \<Rightarrow>
             if est < threshold then Inr (summary, mem)
             else if mem = [] then
               Inl (ErrText (''the system prompt '' @ (if summary \<noteq> [] then ''and the compression summary '' else []) @
                 ''exceed(s) the compression threshold ('' @ natText (nat threshold) @ '' tokens), cannot be compressed''))
             else if cc_MessagesToCompact cc = [] then Inr (summary, mem)
             else case generateCompressionSummary env ctxSize sys summary (cc_MessagesToCompact cc) of
                    Inl e \<Rightarrow> Inl e
                  | Inr s \<Rightarrow> Inr (renewSummary env ctxSize (cc_MessagesToCompact cc) summary s, cc_MessagesToKeep cc))"

section \<open>What a split keeps together\<close>

text \<open>Each call has a result in its own or a later message.\<close>

definition settled :: "Msg list \<Rightarrow> bool" where
  "settled ms \<longleftrightarrow> (\<forall>j < length ms. \<forall>i \<in> tc_ID ` set (GetToolUseCalls (ms ! j)).
     \<exists>k < length ms. j \<le> k \<and> i \<in> set (GetToolResults (ms ! k)))"

lemma pendingAfter_set: "set (pendingAfter m p) = (set p \<union> tc_ID ` set (GetToolUseCalls m)) - set (GetToolResults m)"
  by (auto simp: pendingAfter_def)

lemma last_before: "(\<exists>j < Suc n. A j \<and> (\<forall>k < Suc n. j \<le> k \<longrightarrow> B k)) \<longleftrightarrow>
    ((\<exists>j < n. A j \<and> (\<forall>k < n. j \<le> k \<longrightarrow> B k)) \<or> A n) \<and> B n"
  by (auto simp: less_Suc_eq)

lemma pending_iff:
  "i \<in> set (fold pendingAfter ms []) \<longleftrightarrow>
     (\<exists>j < length ms. i \<in> tc_ID ` set (GetToolUseCalls (ms ! j)) \<and> (\<forall>k < length ms. j \<le> k \<longrightarrow> i \<notin> set (GetToolResults (ms ! k))))"
proof (induction ms rule: rev_induct)
  case (snoc m ms)
  have at: "(ms @ [m]) ! j = ms ! j" if "j < length ms" for j using that by (simp add: nth_append)
  have all: "(\<forall>k < length ms. j \<le> k \<longrightarrow> i \<notin> set (GetToolResults ((ms @ [m]) ! k))) \<longleftrightarrow>
      (\<forall>k < length ms. j \<le> k \<longrightarrow> i \<notin> set (GetToolResults (ms ! k)))" for j using at by metis
  have ex: "(\<exists>j < length ms. i \<in> tc_ID ` set (GetToolUseCalls ((ms @ [m]) ! j)) \<and> Q j) \<longleftrightarrow>
      (\<exists>j < length ms. i \<in> tc_ID ` set (GetToolUseCalls (ms ! j)) \<and> Q j)" for Q using at by metis
  have n: "length (ms @ [m]) = Suc (length ms)" "fold pendingAfter (ms @ [m]) [] = pendingAfter m (fold pendingAfter ms [])"
    by simp_all
  show ?case
    unfolding n last_before all ex snoc [symmetric] pendingAfter_set nth_append_length by (simp only: Diff_iff Un_iff)
qed simp

lemma none_waits: "(\<forall>i. \<not> (\<exists>j < n. i \<in> A j \<and> (\<forall>k < n. j \<le> k \<longrightarrow> i \<notin> R k))) \<longleftrightarrow>
    (\<forall>j < n. \<forall>i \<in> A j. \<exists>k < n. j \<le> k \<and> i \<in> R k)" for n :: nat
  by blast

lemma splitRespects_iff: "splitRespectsToolPairs msgs start \<longleftrightarrow> settled (take start msgs)"
proof (cases "start = 0")
  case False
  have "fold pendingAfter ms [] = [] \<longleftrightarrow> (\<forall>i. i \<notin> set (fold pendingAfter ms []))" for ms
    by (cases "fold pendingAfter ms []") auto
  then have "fold pendingAfter ms [] = [] \<longleftrightarrow> settled ms" for ms
    by (simp only: pending_iff settled_def none_waits)
  then show ?thesis using False by (simp add: splitRespectsToolPairs_def)
qed (simp add: splitRespectsToolPairs_def settled_def)

lemma pushStart_step: "pushStart msgs start =
    (if start < length msgs \<and> \<not> settled (take start msgs) then pushStart msgs (Suc start) else start)"
  by (simp only: pushStart.simps [of msgs start] splitRespects_iff)

lemma pushStart_props:
  "start \<le> pushStart msgs start \<and> pushStart msgs start \<le> max start (length msgs) \<and>
   (pushStart msgs start < length msgs \<longrightarrow> settled (take (pushStart msgs start) msgs)) \<and>
   (\<forall>k. start \<le> k \<and> k < pushStart msgs start \<longrightarrow> \<not> settled (take k msgs))"
proof (induction msgs start rule: pushStart.induct)
  case (1 msgs start)
  show ?case
  proof (cases "start < length msgs \<and> \<not> settled (take start msgs)")
    case True
    then have "pushStart msgs start = pushStart msgs (Suc start)" by (simp add: pushStart_step [of msgs start])
    moreover have "k = start \<or> Suc start \<le> k" if "start \<le> k" for k using that by auto
    ultimately show ?thesis using 1 True by (auto simp: splitRespects_iff)
  next
    case False
    then have "pushStart msgs start = start" by (simp only: pushStart_step [of msgs start] if_False)
    then show ?thesis using False by auto
  qed
qed

lemma CountMessages_Cons: "CountMessages (m # ms) = CountMessages [m] + CountMessages ms"
  by (simp add: CountMessages_def)

lemma CountMessages_nonneg: "0 \<le> CountMessages ms"
  by (auto simp: CountMessages_def SimpleCount_def intro!: sum_list_nonneg)

lemma CountMessages_drop: "j \<le> k \<Longrightarrow> CountMessages (drop k ms) \<le> CountMessages (drop j ms)"
proof (induction k arbitrary: j ms)
  case (Suc k)
  show ?case
  proof (cases ms)
    case (Cons m ms')
    show ?thesis
    proof (cases j)
      case 0
      then show ?thesis using Suc(1) [of 0 ms'] Cons CountMessages_Cons [of m ms'] CountMessages_nonneg [of "[m]"] by simp
    next
      case (Suc j')
      then show ?thesis using Suc.IH [of j' ms'] Suc.prems Cons by simp
    qed
  qed simp
qed simp

lemma tailStart_props:
  "i \<le> length msgs \<Longrightarrow> acc = CountMessages (drop i msgs) \<Longrightarrow>
   tailStart CountMessages reserve msgs i acc \<le> i \<and>
   (tailStart CountMessages reserve msgs i acc < i \<longrightarrow>
     CountMessages (drop (Suc (tailStart CountMessages reserve msgs i acc)) msgs) < reserve \<or>
     Suc (tailStart CountMessages reserve msgs i acc) = i)"
proof (induction i arbitrary: acc)
  case (Suc i)
  have d: "CountMessages (drop i msgs) = acc + CountMessages [msgs ! i]"
    using Suc(2,3) CountMessages_Cons [of "msgs ! i" "drop (Suc i) msgs"] by (simp add: Cons_nth_drop_Suc [symmetric])
  show ?case
  proof (cases "reserve \<le> acc + CountMessages [msgs ! i]")
    case True
    then show ?thesis by (simp add: Let_def)
  next
    case False
    note ih = Suc.IH [of "acc + CountMessages [msgs ! i]"]
    have "tailStart CountMessages reserve msgs i (acc + CountMessages [msgs ! i]) < i \<longrightarrow>
      CountMessages (drop (Suc (tailStart CountMessages reserve msgs i (acc + CountMessages [msgs ! i]))) msgs) < reserve"
      using ih Suc(2) d False by (cases "Suc (tailStart CountMessages reserve msgs i (acc + CountMessages [msgs ! i])) = i") auto
    then show ?thesis using ih Suc(2) d False by (auto simp: Let_def le_Suc_eq)
  qed
qed simp

text \<open>A split: the parts in order, whole pairs on the left, no more than the reserve after its first message on the right.\<close>

lemma CheckContext_split:
  fixes r
  assumes "r = CheckContext CountMessages threshold reserve msgs"
  shows "cc_MessagesToCompact r @ cc_MessagesToKeep r = msgs"
    and "cc_IsValid r \<longrightarrow> settled (cc_MessagesToCompact r)"
    and "settled msgs \<longrightarrow> cc_IsValid r"
    and "CountMessages msgs > threshold \<longrightarrow> cc_MessagesToKeep r \<noteq> [] \<longrightarrow> CountMessages (tl (cc_MessagesToKeep r)) < max 1 reserve"
proof -
  define t where "t = tailStart CountMessages reserve msgs (length msgs) 0"
  have t: "t \<le> length msgs" "t < length msgs \<longrightarrow> CountMessages (drop (Suc t) msgs) < reserve \<or> Suc t = length msgs"
    using tailStart_props [of "length msgs" msgs 0 reserve] by (auto simp: t_def CountMessages_def)
  note p = pushStart_props [of t msgs]
  have r: "r = (if CountMessages msgs \<le> threshold
      then \<lparr>cc_MessagesToCompact = [], cc_MessagesToKeep = msgs, cc_TotalTokens = CountMessages msgs, cc_Threshold = threshold, cc_IsValid = True\<rparr>
      else \<lparr>cc_MessagesToCompact = take (pushStart msgs t) msgs, cc_MessagesToKeep = drop (pushStart msgs t) msgs,
        cc_TotalTokens = CountMessages msgs, cc_Threshold = threshold, cc_IsValid = splitRespectsToolPairs msgs (pushStart msgs t)\<rparr>)"
    unfolding assms by (simp add: CheckContext_def Let_def t_def)
  show "cc_MessagesToCompact r @ cc_MessagesToKeep r = msgs" by (simp add: r)
  show "cc_IsValid r \<longrightarrow> settled (cc_MessagesToCompact r)" by (auto simp: r splitRespects_iff settled_def)
  show "settled msgs \<longrightarrow> cc_IsValid r"
    using p t(1) by (cases "pushStart msgs t < length msgs") (auto simp: r splitRespects_iff)
  show "CountMessages msgs > threshold \<longrightarrow> cc_MessagesToKeep r \<noteq> [] \<longrightarrow> CountMessages (tl (cc_MessagesToKeep r)) < max 1 reserve"
  proof (intro impI)
    assume big: "CountMessages msgs > threshold" and ne: "cc_MessagesToKeep r \<noteq> []"
    then have k: "pushStart msgs t < length msgs" by (simp add: r)
    have "CountMessages (drop (Suc (pushStart msgs t)) msgs) \<le> CountMessages (drop (Suc t) msgs)"
      by (rule CountMessages_drop) (use p in simp)
    moreover have "Suc t = length msgs \<Longrightarrow> CountMessages (drop (Suc t) msgs) = 0" by (simp add: CountMessages_def)
    ultimately have "CountMessages (drop (Suc (pushStart msgs t)) msgs) < max 1 reserve" using t(2) k p by fastforce
    then show "CountMessages (tl (cc_MessagesToKeep r)) < max 1 reserve" using big by (simp add: r tl_drop drop_Suc)
  qed
qed

lemma settled_appendD:
  assumes "settled (xs @ ys)"
  shows "settled ys"
  unfolding settled_def
proof (intro allI impI ballI)
  fix j i
  assume j: "j < length ys" "i \<in> tc_ID ` set (GetToolUseCalls (ys ! j))"
  have "length xs + j < length (xs @ ys) \<and> i \<in> tc_ID ` set (GetToolUseCalls ((xs @ ys) ! (length xs + j)))" using j by simp
  then obtain k where "k < length (xs @ ys)" "length xs + j \<le> k" "i \<in> set (GetToolResults ((xs @ ys) ! k))"
    using assms unfolding settled_def by blast
  then show "\<exists>k < length ys. j \<le> k \<and> i \<in> set (GetToolResults (ys ! k))"
    by (intro exI [of _ "k - length xs"]) (auto simp: nth_append)
qed

lemma contextSplit_ok:
  assumes "cc_MessagesToCompact (contextSplit reserve mem) \<noteq> []"
  shows "cc_MessagesToCompact (contextSplit reserve mem) @ cc_MessagesToKeep (contextSplit reserve mem) = mem"
    and "settled mem \<Longrightarrow> settled (cc_MessagesToCompact (contextSplit reserve mem))"
    and "cc_MessagesToKeep (contextSplit reserve mem) \<noteq> [] \<Longrightarrow>
      CountMessages (tl (cc_MessagesToKeep (contextSplit reserve mem))) < max 1 reserve"
proof -
  obtain res where cc: "contextSplit reserve mem = CheckContext CountMessages 0 res mem" and res: "max 1 res \<le> max 1 reserve"
    by (cases "cc_MessagesToCompact (CheckContext CountMessages 0 reserve mem) = []") (auto simp: contextSplit_def Let_def)
  note c = CheckContext_split [OF cc]
  show "cc_MessagesToCompact (contextSplit reserve mem) @ cc_MessagesToKeep (contextSplit reserve mem) = mem" by (rule c(1))
  show "settled (cc_MessagesToCompact (contextSplit reserve mem))" if "settled mem" using c(2,3) that by blast
  show "CountMessages (tl (cc_MessagesToKeep (contextSplit reserve mem))) < max 1 reserve"
    if "cc_MessagesToKeep (contextSplit reserve mem) \<noteq> []"
  proof -
    have "0 < CountMessages mem"
      using assms unfolding cc by (auto simp: CheckContext_def Let_def split: if_splits)
    then show ?thesis using c(4) that res by (auto intro: less_le_trans)
  qed
qed

text \<open>A compression keeps an end of the memory and compacts whole pairs.\<close>

definition keptReserve :: "CompressEnv \<Rightarrow> int" where
  "keptReserve env = scaled (ResolveContextSize (ce_ModelSize env) (ce_ContextSize env)) (cf_ReserveRatio (usedConfig env))"

lemma CompressContext_suffix:
  assumes "CompressContext env uuid sys input summary mem = Inr (summary', mem')"
  obtains old where "mem = old @ mem'" and "old = [] \<Longrightarrow> summary' = summary" and "settled mem \<Longrightarrow> settled old"
    and "old \<noteq> [] \<Longrightarrow> mem' \<noteq> [] \<Longrightarrow> CountMessages (tl mem') < max 1 (keptReserve env)"
proof -
  let ?cc = "contextSplit (keptReserve env) mem"
  have "(summary' = summary \<and> mem' = mem) \<or> (cc_MessagesToCompact ?cc \<noteq> [] \<and> mem' = cc_MessagesToKeep ?cc)"
    using assms unfolding CompressContext_def Let_def keptReserve_def [symmetric] by (auto split: sum.splits if_splits)
  then show thesis
  proof (elim disjE conjE)
    assume "summary' = summary" "mem' = mem"
    then show ?thesis by (intro that [of "[]"]) (auto simp: settled_def)
  next
    assume ne: "cc_MessagesToCompact ?cc \<noteq> []" and mem': "mem' = cc_MessagesToKeep ?cc"
    note c = contextSplit_ok [OF ne]
    show ?thesis
    proof (rule that [of "cc_MessagesToCompact ?cc"])
      show "mem = cc_MessagesToCompact ?cc @ mem'" by (simp add: mem' c(1))
      show "summary' = summary" if "cc_MessagesToCompact ?cc = []" using ne that by contradiction
      show "settled (cc_MessagesToCompact ?cc)" if "settled mem" by (rule c(2) [OF that])
      show "CountMessages (tl mem') < max 1 (keptReserve env)" if "mem' \<noteq> []" using c(3) that by (simp add: mem')
    qed
  qed
qed

lemma buildHistory_prompt:
  "buildHistory tn n input a = promptHistory (\<lambda>s. tn_UUID tn s n 0) (ra_SysPrompt a)
     (case ra_Runtime a of None \<Rightarrow> [] | Some s \<Rightarrow> as_CompressedSummary s) (ra_Memory a) input"
  by (simp add: buildHistory_def promptHistory_def Let_def)

text \<open>The surroundings of a turn whose compression is the one above.\<close>

lemma compressing_turn_plain:
  assumes "callIds msg = []" and "\<And>s n k. tn_UUID tn s n k \<noteq> mg_ID msg"
    and "tn_Compress tn = (\<lambda>it s mem. CompressContext env (\<lambda>u. tn_UUID tn u it 0) sys msg s mem)"
  shows "plain_turn tn msg"
proof -
  have "set mem' \<subseteq> set mem" if "CompressContext env uuid sys msg s mem = Inr (s', mem')" for uuid s mem s' mem'
    using CompressContext_suffix [OF that] by (metis set_append Un_upper2)
  then show ?thesis using assms by (simp add: plain_turn_def)
qed

end
