(* ===== verification/Model_Router.thy ===== *)
theory Model_Router
  imports Prelude
begin

text \<open>
  The model router with retries, fallback and circuit breaker (model/router.go,
  model/circuit_breaker.go).  Calls of one caller after another are functions of the breaker; the
  atomic operations of allowRequest under concurrent callers are a step function of their own.
\<close>

section \<open>Circuit breaker\<close>

datatype CircuitState = CircuitClosed | CircuitOpen | CircuitHalfOpen

record circuitBreaker =
  cb_state :: CircuitState
  cb_failures :: int
  cb_lastFailure :: instant
  cb_threshold :: int
  cb_cooldown :: duration
  cb_halfOpenN :: int
  cb_halfOpenMax :: int

definition newCircuitBreaker :: "int \<Rightarrow> duration \<Rightarrow> circuitBreaker" where
  "newCircuitBreaker threshold cooldown = \<lparr>cb_state = CircuitClosed, cb_failures = 0, cb_lastFailure = 0,
     cb_threshold = threshold, cb_cooldown = cooldown, cb_halfOpenN = 0, cb_halfOpenMax = 1\<rparr>"

definition WithCircuitBreaker :: "int \<Rightarrow> duration \<Rightarrow> circuitBreaker" where
  "WithCircuitBreaker threshold cooldown =
     newCircuitBreaker (if threshold \<le> 0 then 5 else threshold) (if cooldown \<le> 0 then 30 * time_Second else cooldown)"

definition takeProbeSlot :: "circuitBreaker \<Rightarrow> bool \<times> circuitBreaker" where
  "takeProbeSlot cb =
     (if cb_halfOpenN cb - 1 \<ge> 0 then (True, cb\<lparr>cb_halfOpenN := cb_halfOpenN cb - 1\<rparr>) else (False, cb))"

text \<open>True: the request may go ahead.\<close>

definition allowRequest :: "instant \<Rightarrow> circuitBreaker \<Rightarrow> bool \<times> circuitBreaker" where
  "allowRequest now cb =
     (case cb_state cb of
        CircuitClosed \<Rightarrow> (True, cb)
      | CircuitOpen \<Rightarrow>
          if now - cb_lastFailure cb \<ge> cb_cooldown cb
          then takeProbeSlot (cb\<lparr>cb_state := CircuitHalfOpen, cb_halfOpenN := cb_halfOpenMax cb\<rparr>)
          else (False, cb)
      | CircuitHalfOpen \<Rightarrow> takeProbeSlot cb)"

definition onSuccess :: "circuitBreaker \<Rightarrow> circuitBreaker" where
  "onSuccess cb =
     (case cb_state cb of
        CircuitHalfOpen \<Rightarrow> cb\<lparr>cb_failures := 0, cb_state := CircuitClosed\<rparr>
      | CircuitClosed \<Rightarrow> cb\<lparr>cb_failures := 0\<rparr>
      | CircuitOpen \<Rightarrow> cb)"

definition onFailure :: "instant \<Rightarrow> circuitBreaker \<Rightarrow> circuitBreaker" where
  "onFailure now cb =
     (case cb_state cb of
        CircuitHalfOpen \<Rightarrow> cb\<lparr>cb_lastFailure := now, cb_state := CircuitOpen\<rparr>
      | CircuitClosed \<Rightarrow>
          cb\<lparr>cb_failures := cb_failures cb + 1, cb_lastFailure := now,
            cb_state := (if cb_failures cb + 1 \<ge> cb_threshold cb then CircuitOpen else CircuitClosed)\<rparr>
      | CircuitOpen \<Rightarrow> cb)"

section \<open>Router\<close>

text \<open>Responses \<open>'m\<close> and errors \<open>'e\<close> are those of the models.\<close>

record Router =
  rt_fallback :: bool \<comment> \<open>a fallback model is set\<close>
  rt_maxRetries :: int
  rt_backoff :: duration
  rt_cb :: "circuitBreaker option"

definition NewRouter :: Router where
  "NewRouter = \<lparr>rt_fallback = False, rt_maxRetries = 1, rt_backoff = 500 * 1000000, rt_cb = None\<rparr>"

text \<open>
  What a call meets: its start, the primary's answer to each attempt, a cancellation of the context
  while waiting before an attempt, the instant after the last failure, and the fallback's answer.
\<close>

record ('e, 'm) RouterCall =
  rc_Start :: instant
  rc_Primary :: "nat \<Rightarrow> 'e + 'm"
  rc_Cancel :: "nat \<Rightarrow> 'e option"
  rc_End :: instant
  rc_Fallback :: "'e + 'm"

datatype 'e RouterErr =
    ErrCircuitOpen
  | ErrContext 'e
  | ErrPrimary int "'e option" \<comment> \<open>retries and last error\<close>
  | ErrBoth "'e option" 'e

datatype ('e, 'm) Tried = Answered 'm | WasCancelled 'e | NoneAnswered "'e option"

fun tryPrimary :: "('e, 'm) RouterCall \<Rightarrow> bool \<Rightarrow> nat \<Rightarrow> nat \<Rightarrow> 'e option \<Rightarrow> ('e, 'm) Tried" where
  "tryPrimary c waits 0 attempt lastErr = NoneAnswered lastErr"
| "tryPrimary c waits (Suc n) attempt lastErr =
     (case (if attempt > 0 \<and> waits then rc_Cancel c attempt else None) of
        Some e \<Rightarrow> WasCancelled e
      | None \<Rightarrow>
          (case rc_Primary c attempt of
             Inr m \<Rightarrow> Answered m
           | Inl e \<Rightarrow> tryPrimary c waits n (Suc attempt) (Some e)))"

definition tryAll :: "Router \<Rightarrow> ('e, 'm) RouterCall \<Rightarrow> ('e, 'm) Tried" where
  "tryAll r c = tryPrimary c (rt_backoff r > 0) (nat (rt_maxRetries r + 1)) 0 None"

text \<open>Behind the breaker.\<close>

definition routed :: "Router \<Rightarrow> ('e, 'm) RouterCall \<Rightarrow> ('e RouterErr + 'm) \<times> Router" where
  "routed r c =
     (case tryAll r c of
        Answered m \<Rightarrow> (Inr m, r\<lparr>rt_cb := map_option onSuccess (rt_cb r)\<rparr>)
      | WasCancelled e \<Rightarrow> (Inl (ErrContext e), r)
      | NoneAnswered lastErr \<Rightarrow>
          let r = r\<lparr>rt_cb := map_option (onFailure (rc_End c)) (rt_cb r)\<rparr>
          in if rt_fallback r
             then (case rc_Fallback c of Inl e \<Rightarrow> (Inl (ErrBoth lastErr e), r) | Inr m \<Rightarrow> (Inr m, r))
             else (Inl (ErrPrimary (rt_maxRetries r) lastErr), r))"

definition Router_Chat :: "('e, 'm) RouterCall \<Rightarrow> Router \<Rightarrow> ('e RouterErr + 'm) \<times> Router" where
  "Router_Chat c r =
     (case rt_cb r of
        None \<Rightarrow> routed r c
      | Some cb \<Rightarrow>
          (case allowRequest (rc_Start c) cb of
             (False, cb) \<Rightarrow> (Inl ErrCircuitOpen, r\<lparr>rt_cb := Some cb\<rparr>)
           | (True, cb) \<Rightarrow> routed (r\<lparr>rt_cb := Some cb\<rparr>) c))"

definition Router_CircuitState :: "Router \<Rightarrow> CircuitState" where
  "Router_CircuitState r = (case rt_cb r of None \<Rightarrow> CircuitClosed | Some cb \<Rightarrow> cb_state cb)"

fun routerRun :: "('e, 'm) RouterCall list \<Rightarrow> Router \<Rightarrow> ('e RouterErr + 'm) list \<times> Router" where
  "routerRun [] r = ([], r)"
| "routerRun (c # cs) r = (case Router_Chat c r of (x, r) \<Rightarrow> (case routerRun cs r of (xs, r) \<Rightarrow> (x # xs, r)))"

section \<open>What the breaker promises\<close>

text \<open>
  The circuit as its users see it between calls: normal with a number of failures in a row, tripped
  at an instant, or refusing everything for good.
\<close>

datatype Circuit = Normal int | Tripped instant | Refusing

definition circuitRefuses :: "duration \<Rightarrow> ('e, 'm) RouterCall \<Rightarrow> Circuit \<Rightarrow> bool" where
  "circuitRefuses cooldown c s = (case s of Normal _ \<Rightarrow> False | Tripped t \<Rightarrow> rc_Start c - t < cooldown | Refusing \<Rightarrow> True)"

definition circuitAfter :: "int \<Rightarrow> instant \<Rightarrow> ('e, 'm) Tried \<Rightarrow> Circuit \<Rightarrow> Circuit" where
  "circuitAfter threshold ends outcome s =
     (case outcome of
        Answered _ \<Rightarrow> Normal 0
      | WasCancelled _ \<Rightarrow> (case s of Normal k \<Rightarrow> Normal k | _ \<Rightarrow> Refusing)
      | NoneAnswered _ \<Rightarrow> (case s of Normal k \<Rightarrow> if k + 1 \<ge> threshold then Tripped ends else Normal (k + 1) | _ \<Rightarrow> Tripped ends))"

fun circuitRun :: "Router \<Rightarrow> circuitBreaker \<Rightarrow> ('e, 'm) RouterCall list \<Rightarrow> Circuit \<Rightarrow> ('e RouterErr + 'm) list \<times> Circuit" where
  "circuitRun r cb [] s = ([], s)"
| "circuitRun r cb (c # cs) s =
     (let refused = circuitRefuses (cb_cooldown cb) c s;
          x = (if refused then Inl ErrCircuitOpen else fst (Router_Chat c (r\<lparr>rt_cb := None\<rparr>)));
          s = (if refused then s else circuitAfter (cb_threshold cb) (rc_End c) (tryAll r c) s)
      in case circuitRun r cb cs s of (xs, s) \<Rightarrow> (x # xs, s))"

definition circuitOf :: "circuitBreaker \<Rightarrow> Circuit" where
  "circuitOf cb =
     (case cb_state cb of CircuitClosed \<Rightarrow> Normal (cb_failures cb) | CircuitOpen \<Rightarrow> Tripped (cb_lastFailure cb)
      | CircuitHalfOpen \<Rightarrow> Refusing)"

text \<open>Between calls the single probe slot is in use or not set.\<close>

definition breaker_ok :: "circuitBreaker \<Rightarrow> bool" where
  "breaker_ok cb \<longleftrightarrow> cb_halfOpenMax cb = 1 \<and> (cb_state cb = CircuitHalfOpen \<longrightarrow> cb_halfOpenN cb = 0)"

lemma tryAll_cb [simp]: "tryAll (r\<lparr>rt_cb := x\<rparr>) c = tryAll r c"
  by (simp add: tryAll_def)

lemma routed_cb: "fst (routed (r\<lparr>rt_cb := x\<rparr>) c) = fst (routed (r\<lparr>rt_cb := None\<rparr>) c)"
  by (simp add: routed_def Let_def split: Tried.split sum.split)

lemma routed_state: "rt_cb (snd (routed (r\<lparr>rt_cb := Some cb\<rparr>) c)) =
    Some (case tryAll r c of Answered _ \<Rightarrow> onSuccess cb | WasCancelled _ \<Rightarrow> cb | NoneAnswered _ \<Rightarrow> onFailure (rc_End c) cb)"
  by (simp add: routed_def Let_def split: Tried.split sum.split)

lemma routed_rest: "snd (routed r c) = r\<lparr>rt_cb := rt_cb (snd (routed r c))\<rparr>"
  by (simp add: routed_def Let_def split: Tried.split sum.split)

text \<open>One call.\<close>

lemma chat_circuit:
  assumes "rt_cb r = Some cb" and "breaker_ok cb"
  obtains cb' where "snd (Router_Chat c r) = r\<lparr>rt_cb := Some cb'\<rparr>" and "breaker_ok cb'"
    and "cb_threshold cb' = cb_threshold cb" and "cb_cooldown cb' = cb_cooldown cb"
    and "circuitOf cb' = (if circuitRefuses (cb_cooldown cb) c (circuitOf cb) then circuitOf cb
           else circuitAfter (cb_threshold cb) (rc_End c) (tryAll r c) (circuitOf cb))"
    and "fst (Router_Chat c r) = (if circuitRefuses (cb_cooldown cb) c (circuitOf cb) then Inl ErrCircuitOpen
           else fst (Router_Chat c (r\<lparr>rt_cb := None\<rparr>)))"
proof -
  obtain ok cb1 where a: "allowRequest (rc_Start c) cb = (ok, cb1)" by fastforce
  have r: "r = r\<lparr>rt_cb := Some cb\<rparr>" using assms(1) by simp
  have refuse: "ok = (\<not> circuitRefuses (cb_cooldown cb) c (circuitOf cb))"
    using a assms(2) by (auto simp: allowRequest_def takeProbeSlot_def circuitRefuses_def circuitOf_def breaker_ok_def
        split: CircuitState.splits if_splits)
  have same: "cb_threshold cb1 = cb_threshold cb" "cb_cooldown cb1 = cb_cooldown cb" "cb_halfOpenMax cb1 = cb_halfOpenMax cb"
    using a by (auto simp: allowRequest_def takeProbeSlot_def split: CircuitState.splits if_splits)
  show thesis
  proof (cases ok)
    case False
    then have "cb1 = cb" using a assms(2) by (auto simp: allowRequest_def takeProbeSlot_def breaker_ok_def split: CircuitState.splits if_splits)
    then show ?thesis
      using False a refuse assms by (intro that [of cb]) (auto simp: Router_Chat_def)
  next
    case True
    then have cb1: "cb1 = cb \<and> cb_state cb = CircuitClosed \<or>
        cb1 = cb\<lparr>cb_state := CircuitHalfOpen, cb_halfOpenN := 0\<rparr> \<and> cb_state cb = CircuitOpen"
      using a assms(2) by (auto simp: allowRequest_def takeProbeSlot_def breaker_ok_def split: CircuitState.splits if_splits)
    have chat: "Router_Chat c r = routed (r\<lparr>rt_cb := Some cb1\<rparr>) c" using True a assms(1) by (simp add: Router_Chat_def)
    define cb2 where "cb2 = (case tryAll r c of Answered _ \<Rightarrow> onSuccess cb1 | WasCancelled _ \<Rightarrow> cb1 | NoneAnswered _ \<Rightarrow> onFailure (rc_End c) cb1)"
    have s: "snd (Router_Chat c r) = r\<lparr>rt_cb := Some cb2\<rparr>"
      using routed_rest [where r = "r\<lparr>rt_cb := Some cb1\<rparr>" and c = c] routed_state [where r = r and cb = cb1 and c = c] by (simp add: chat cb2_def)
    show ?thesis
    proof (rule that [OF s])
      show "fst (Router_Chat c r) = (if circuitRefuses (cb_cooldown cb) c (circuitOf cb) then Inl ErrCircuitOpen
           else fst (Router_Chat c (r\<lparr>rt_cb := None\<rparr>)))"
        using routed_cb [where r = r and x = "Some cb1" and c = c] refuse True by (simp add: chat) (simp add: Router_Chat_def)
    qed (use cb1 same refuse True assms(2) in \<open>auto simp: cb2_def onSuccess_def onFailure_def breaker_ok_def circuitOf_def circuitAfter_def
        split: Tried.splits\<close>)
  qed
qed

lemma routerRun_circuit:
  assumes "rt_cb r = Some cb" and "breaker_ok cb"
  shows "\<exists>cb'. rt_cb (snd (routerRun cs r)) = Some cb' \<and> breaker_ok cb' \<and>
    circuitRun r cb cs (circuitOf cb) = (fst (routerRun cs r), circuitOf cb')"
  using assms
proof (induction cs arbitrary: r cb)
  case (Cons c cs)
  obtain cb1 where 1: "snd (Router_Chat c r) = r\<lparr>rt_cb := Some cb1\<rparr>" "breaker_ok cb1"
    "cb_threshold cb1 = cb_threshold cb" "cb_cooldown cb1 = cb_cooldown cb"
    "circuitOf cb1 = (if circuitRefuses (cb_cooldown cb) c (circuitOf cb) then circuitOf cb
           else circuitAfter (cb_threshold cb) (rc_End c) (tryAll r c) (circuitOf cb))"
    "fst (Router_Chat c r) = (if circuitRefuses (cb_cooldown cb) c (circuitOf cb) then Inl ErrCircuitOpen
           else fst (Router_Chat c (r\<lparr>rt_cb := None\<rparr>)))"
    by (rule chat_circuit [OF Cons(2,3)])
  have same: "circuitRun (r\<lparr>rt_cb := x\<rparr>) cb1 ds s = circuitRun r cb ds s" for x ds s
    using 1(3,4) by (induction ds arbitrary: s) (simp_all add: Let_def)
  obtain cb2 where "rt_cb (snd (routerRun cs (r\<lparr>rt_cb := Some cb1\<rparr>))) = Some cb2" "breaker_ok cb2"
    "circuitRun r cb cs (circuitOf cb1) = (fst (routerRun cs (r\<lparr>rt_cb := Some cb1\<rparr>)), circuitOf cb2)"
    using Cons.IH [of "r\<lparr>rt_cb := Some cb1\<rparr>" cb1] 1(2) by (auto simp: same)
  then show ?case using 1 by (cases "Router_Chat c r") (auto simp: Let_def split: prod.splits)
qed simp

text \<open>A refusing circuit never answers again.\<close>

lemma refusing_forever:
  assumes "rt_cb r = Some cb" and "breaker_ok cb" and "circuitOf cb = Refusing"
  shows "\<forall>x \<in> set (fst (routerRun cs r)). x = Inl ErrCircuitOpen"
proof -
  have "\<forall>x \<in> set (fst (circuitRun r cb cs Refusing)). x = Inl ErrCircuitOpen"
    by (induction cs) (auto simp: circuitRefuses_def split: prod.splits)
  then show ?thesis using routerRun_circuit [OF assms(1,2), of cs] assms(3) by auto
qed

section \<open>Concurrent callers of allowRequest\<close>

datatype AllowPc = AtRead | AtSwap | AtStore | AtTake | AtRestore | AllowDone bool

definition allowStep :: "instant \<Rightarrow> AllowPc \<Rightarrow> circuitBreaker \<Rightarrow> AllowPc \<times> circuitBreaker" where
  "allowStep now pc cb =
     (case pc of
        AtRead \<Rightarrow>
          (case cb_state cb of
             CircuitClosed \<Rightarrow> (AllowDone True, cb)
           | CircuitOpen \<Rightarrow> (if now - cb_lastFailure cb \<ge> cb_cooldown cb then AtSwap else AllowDone False, cb)
           | CircuitHalfOpen \<Rightarrow> (AtTake, cb))
      | AtSwap \<Rightarrow> if cb_state cb = CircuitOpen then (AtStore, cb\<lparr>cb_state := CircuitHalfOpen\<rparr>) else (AtTake, cb)
      | AtStore \<Rightarrow> (AtTake, cb\<lparr>cb_halfOpenN := cb_halfOpenMax cb\<rparr>)
      | AtTake \<Rightarrow> (if cb_halfOpenN cb - 1 \<ge> 0 then AllowDone True else AtRestore, cb\<lparr>cb_halfOpenN := cb_halfOpenN cb - 1\<rparr>)
      | AtRestore \<Rightarrow> (AllowDone False, cb\<lparr>cb_halfOpenN := cb_halfOpenN cb + 1\<rparr>)
      | AllowDone b \<Rightarrow> (AllowDone b, cb))"

text \<open>A schedule names the caller that moves.\<close>

fun allowRun :: "instant \<Rightarrow> nat list \<Rightarrow> AllowPc list \<Rightarrow> circuitBreaker \<Rightarrow> AllowPc list \<times> circuitBreaker" where
  "allowRun now [] pcs cb = (pcs, cb)"
| "allowRun now (i # is) pcs cb =
     (if i < length pcs then (case allowStep now (pcs ! i) cb of (pc, cb) \<Rightarrow> allowRun now is (pcs[i := pc]) cb)
      else allowRun now is pcs cb)"

text \<open>Alone, five steps are the sequential function.\<close>

lemma allowRun_alone: "allowRun now [0, 0, 0, 0, 0] [AtRead] cb = (case allowRequest now cb of (ok, cb) \<Rightarrow> ([AllowDone ok], cb))"
  by (auto simp: allowStep_def allowRequest_def takeProbeSlot_def split: CircuitState.splits)

text \<open>
  Two callers at the end of the cooldown and a third one: the one that loses the swap takes a slot
  before the winner sets their number and restores it afterwards, so two probes are let through.
\<close>

lemma two_probes_race:
  "fst (allowRun 10 [0, 1, 0, 1, 1, 0, 1, 0, 2, 2] [AtRead, AtRead, AtRead]
     ((newCircuitBreaker 1 5)\<lparr>cb_state := CircuitOpen\<rparr>)) = [AllowDone True, AllowDone False, AllowDone True]"
  by code_simp

end
